theory Spec2Isabelle
  imports Complex_Main "HOL-Library.Word"
begin

unbundle bit_operations_syntax

section \<open>Process exits\<close>

text \<open>
  Every way the program leaves early is a value.  \<open>error_die\<close>, \<open>syserror_die\<close> and
  \<open>bug_die\<close> print a message and call \<open>die\<close>, which is \<open>exit(1)\<close>; the message is kept
  (without the values substituted for its format directives unless stated).  \<open>Exit\<close>
  is a call of \<open>exit\<close> elsewhere.  An array index outside the array and the conversion to
  \<open>long\<close> of a floating-point number outside its range are undefined in C and are
  values of their own; so is a store through a null pointer (\<open>NullPointer\<close>), an input
  whose treatment by the C library the model does not cover (\<open>NotModelled\<close>), and a call
  that does not return (\<open>NoReturn\<close>): that of \<open>server\<close>, or that of a test for which the
  environment has no answer.
\<close>

datatype fail =
    ErrorDie string
  | SysErrorDie string
  | BugDie string
  | Exit int
  | OutOfBounds
  | UndefinedConversion
  | NullPointer
  | NotModelled
  | NoReturn

section \<open>The parameter table (\<open>PAR_INFO\<close>, \<open>ParInfo\<close>)\<close>

text \<open>
  \<open>PAR_INDEX\<close> is an enumeration declared in \<open>qperf.h\<close>.  The array \<open>ParInfo[P_N]\<close> lists
  the parameters "in the same order as the indices are defined", and \<open>init_vars\<close> dies
  unless \<open>ParInfo[i].index == i\<close> for every \<open>i < P_N\<close>; so the position in the
  initialiser is the value of the index.
\<close>

type_synonym PAR_INDEX = nat

abbreviation (input) P_NULL :: PAR_INDEX where "P_NULL \<equiv> 0"
abbreviation (input) L_ACCESS_RECV :: PAR_INDEX where "L_ACCESS_RECV \<equiv> 1"
abbreviation (input) R_ACCESS_RECV :: PAR_INDEX where "R_ACCESS_RECV \<equiv> 2"
abbreviation (input) L_AFFINITY :: PAR_INDEX where "L_AFFINITY \<equiv> 3"
abbreviation (input) R_AFFINITY :: PAR_INDEX where "R_AFFINITY \<equiv> 4"
abbreviation (input) L_FLIP :: PAR_INDEX where "L_FLIP \<equiv> 5"
abbreviation (input) R_FLIP :: PAR_INDEX where "R_FLIP \<equiv> 6"
abbreviation (input) L_ID :: PAR_INDEX where "L_ID \<equiv> 7"
abbreviation (input) R_ID :: PAR_INDEX where "R_ID \<equiv> 8"
abbreviation (input) L_MSG_SIZE :: PAR_INDEX where "L_MSG_SIZE \<equiv> 9"
abbreviation (input) R_MSG_SIZE :: PAR_INDEX where "R_MSG_SIZE \<equiv> 10"
abbreviation (input) L_MTU_SIZE :: PAR_INDEX where "L_MTU_SIZE \<equiv> 11"
abbreviation (input) R_MTU_SIZE :: PAR_INDEX where "R_MTU_SIZE \<equiv> 12"
abbreviation (input) L_NO_MSGS :: PAR_INDEX where "L_NO_MSGS \<equiv> 13"
abbreviation (input) R_NO_MSGS :: PAR_INDEX where "R_NO_MSGS \<equiv> 14"
abbreviation (input) L_POLL_MODE :: PAR_INDEX where "L_POLL_MODE \<equiv> 15"
abbreviation (input) R_POLL_MODE :: PAR_INDEX where "R_POLL_MODE \<equiv> 16"
abbreviation (input) L_PORT :: PAR_INDEX where "L_PORT \<equiv> 17"
abbreviation (input) R_PORT :: PAR_INDEX where "R_PORT \<equiv> 18"
abbreviation (input) L_RATE :: PAR_INDEX where "L_RATE \<equiv> 19"
abbreviation (input) R_RATE :: PAR_INDEX where "R_RATE \<equiv> 20"
abbreviation (input) L_RD_ATOMIC :: PAR_INDEX where "L_RD_ATOMIC \<equiv> 21"
abbreviation (input) R_RD_ATOMIC :: PAR_INDEX where "R_RD_ATOMIC \<equiv> 22"
abbreviation (input) L_SOCK_BUF_SIZE :: PAR_INDEX where "L_SOCK_BUF_SIZE \<equiv> 23"
abbreviation (input) R_SOCK_BUF_SIZE :: PAR_INDEX where "R_SOCK_BUF_SIZE \<equiv> 24"
abbreviation (input) L_TIME :: PAR_INDEX where "L_TIME \<equiv> 25"
abbreviation (input) R_TIME :: PAR_INDEX where "R_TIME \<equiv> 26"
abbreviation (input) L_TIMEOUT :: PAR_INDEX where "L_TIMEOUT \<equiv> 27"
abbreviation (input) R_TIMEOUT :: PAR_INDEX where "R_TIMEOUT \<equiv> 28"
abbreviation (input) P_N :: nat where "P_N \<equiv> 29"

text \<open>
  The object a slot's \<open>ptr\<close> addresses: nothing (the \<open>P_NULL\<close> entry has no pointer), a
  \<open>uint32_t\<close> member of \<open>Req\<close> or \<open>RReq\<close> as \<open>setp_u32\<close> writes it, or a character
  array as \<open>setp_str\<close> writes it.  Every entry of \<open>ParInfo\<close> points to a member of its
  own, so the objects are kept in the slots.
\<close>

datatype pval = NullPtr | U32 "32 word" | Str string

text \<open>
  \<open>struct PAR_INFO\<close>.  The option name is a \<open>char *\<close>, null until an option sets it.
  The fields are prefixed: \<open>set\<close>, \<open>index\<close> and \<open>type\<close> are names of HOL.
\<close>

record PAR_INFO =
  par_index :: PAR_INDEX
  par_type :: "char option"
  par_ptr :: pval
  par_name :: "string option"
  par_set :: bool
  par_used :: bool
  par_inuse :: bool

definition mk_par :: "PAR_INDEX \<Rightarrow> char \<Rightarrow> PAR_INFO" where
  "mk_par i t = \<lparr>par_index = i, par_type = Some t,
     par_ptr = (if t = CHR ''p'' then Str [] else U32 0),
     par_name = None, par_set = False, par_used = False, par_inuse = False\<rparr>"

definition ParInfo :: "PAR_INFO list" where
  "ParInfo =
   [\<lparr>par_index = P_NULL, par_type = None, par_ptr = NullPtr,
      par_name = None, par_set = False, par_used = False, par_inuse = False\<rparr>,
    mk_par L_ACCESS_RECV (CHR ''l''), mk_par R_ACCESS_RECV (CHR ''l''),
    mk_par L_AFFINITY (CHR ''l''), mk_par R_AFFINITY (CHR ''l''),
    mk_par L_FLIP (CHR ''l''), mk_par R_FLIP (CHR ''l''),
    mk_par L_ID (CHR ''p''), mk_par R_ID (CHR ''p''),
    mk_par L_MSG_SIZE (CHR ''s''), mk_par R_MSG_SIZE (CHR ''s''),
    mk_par L_MTU_SIZE (CHR ''s''), mk_par R_MTU_SIZE (CHR ''s''),
    mk_par L_NO_MSGS (CHR ''l''), mk_par R_NO_MSGS (CHR ''l''),
    mk_par L_POLL_MODE (CHR ''l''), mk_par R_POLL_MODE (CHR ''l''),
    mk_par L_PORT (CHR ''l''), mk_par R_PORT (CHR ''l''),
    mk_par L_RATE (CHR ''p''), mk_par R_RATE (CHR ''p''),
    mk_par L_RD_ATOMIC (CHR ''l''), mk_par R_RD_ATOMIC (CHR ''l''),
    mk_par L_SOCK_BUF_SIZE (CHR ''s''), mk_par R_SOCK_BUF_SIZE (CHR ''s''),
    mk_par L_TIME (CHR ''t''), mk_par R_TIME (CHR ''t''),
    mk_par L_TIMEOUT (CHR ''t''), mk_par R_TIMEOUT (CHR ''t'')]"

text \<open>
  \<open>par_info\<close>: index the table, and die when the entry found is not the one asked for.
  The table has \<open>P_N\<close> entries; an index beyond them is outside the array.
\<close>

definition par_info :: "PAR_INFO list \<Rightarrow> PAR_INDEX \<Rightarrow> fail + PAR_INFO" where
  "par_info tab i =
     (if length tab \<le> i then Inl OutOfBounds
      else if i \<noteq> par_index (tab ! i) then Inl (BugDie ''par_info: table out of order'')
      else Inr (tab ! i))"

text \<open>
  \<open>par_set\<close> returns the slot, or a null pointer when the caller must not store.  The
  model returns whether the pointer is non-null, with the table as the call leaves it.
\<close>

definition par_set :: "string option \<Rightarrow> PAR_INDEX \<Rightarrow> PAR_INFO list \<Rightarrow> fail + (bool \<times> PAR_INFO list)" where
  "par_set name i tab =
     (case par_info tab i of
        Inl e \<Rightarrow> Inl e
      | Inr p \<Rightarrow>
          if i = P_NULL then Inr (False, tab)
          else (case name of
                  Some n \<Rightarrow> Inr (True, tab[i := p\<lparr>par_name := Some n, par_set := True\<rparr>])
                | None \<Rightarrow>
                    Inr (par_name p = None, tab[i := p\<lparr>par_used := True, par_inuse := True\<rparr>])))"

definition store :: "PAR_INDEX \<Rightarrow> pval \<Rightarrow> PAR_INFO list \<Rightarrow> PAR_INFO list" where
  "store i v tab = tab[i := (tab ! i)\<lparr>par_ptr := v\<rparr>]"

definition setp_u32 :: "string option \<Rightarrow> PAR_INDEX \<Rightarrow> 32 word \<Rightarrow> PAR_INFO list \<Rightarrow> fail + PAR_INFO list" where
  "setp_u32 name i l tab =
     (case par_set name i tab of
        Inl e \<Rightarrow> Inl e
      | Inr (p, tab') \<Rightarrow> if \<not> p then Inr tab' else Inr (store i (U32 l) tab'))"

text \<open>
  \<open>setp_str\<close>.  \<open>STRSIZE\<close> is a macro of \<open>qperf.h\<close>, which is not among the sources: it
  is a parameter here.
\<close>

definition setp_str :: "nat \<Rightarrow> string option \<Rightarrow> PAR_INDEX \<Rightarrow> string \<Rightarrow> PAR_INFO list \<Rightarrow> fail + PAR_INFO list" where
  "setp_str STRSIZE name i s tab =
     (case par_set name i tab of
        Inl e \<Rightarrow> Inl e
      | Inr (p, tab') \<Rightarrow>
          if \<not> p then Inr tab'
          else if STRSIZE \<le> length s then Inl (ErrorDie (s @ '': too long''))
          else Inr (store i (Str s) tab'))"

text \<open>
  \<open>setv_u32\<close> stores through \<open>p->ptr\<close> whatever the index is; the entry of \<open>P_NULL\<close> has
  a null pointer there.
\<close>

definition setv_u32 :: "PAR_INDEX \<Rightarrow> 32 word \<Rightarrow> PAR_INFO list \<Rightarrow> fail + PAR_INFO list" where
  "setv_u32 i l tab =
     (case par_info tab i of
        Inl e \<Rightarrow> Inl e
      | Inr p \<Rightarrow> if par_ptr p = NullPtr then Inl NullPointer else Inr (store i (U32 l) tab))"

definition par_use :: "PAR_INDEX \<Rightarrow> PAR_INFO list \<Rightarrow> fail + PAR_INFO list" where
  "par_use i tab =
     (case par_info tab i of
        Inl e \<Rightarrow> Inl e
      | Inr p \<Rightarrow> Inr (tab[i := p\<lparr>par_used := True, par_inuse := True\<rparr>]))"

definition par_isset :: "PAR_INDEX \<Rightarrow> PAR_INFO list \<Rightarrow> fail + bool" where
  "par_isset i tab =
     (case par_info tab i of Inl e \<Rightarrow> Inl e | Inr p \<Rightarrow> Inr (par_name p \<noteq> None))"

text \<open>
  The table is in order: it has \<open>P_N\<close> entries and entry \<open>i\<close> holds index \<open>i\<close>.  This
  is what \<open>init_vars\<close> checks before anything else runs, and no function changes an
  \<open>index\<close> member.
\<close>

definition in_order :: "PAR_INFO list \<Rightarrow> bool" where
  "in_order tab = (map par_index tab = [0..<P_N])"

text \<open>Sequencing of steps that may leave the process.\<close>

definition and_then :: "fail + 'a \<Rightarrow> ('a \<Rightarrow> fail + 'b) \<Rightarrow> fail + 'b" where
  "and_then x f = (case x of Inl e \<Rightarrow> Inl e | Inr a \<Rightarrow> f a)"

text \<open>
  The first statements of \<open>client\<close>, up to the last \<open>par_use\<close>: they are the part of
  \<open>client\<close> that works on the parameter table.
\<close>

definition client_pars :: "PAR_INFO list \<Rightarrow> fail + PAR_INFO list" where
  "client_pars tab0 =
     (let tab = map (\<lambda>p. p\<lparr>par_inuse := False\<rparr>) tab0 in
      and_then (par_isset L_NO_MSGS tab) (\<lambda>l_set.
      and_then (if \<not> l_set then setp_u32 None L_TIME 2 tab else Inr tab) (\<lambda>tab.
      and_then (par_isset R_NO_MSGS tab) (\<lambda>r_set.
      and_then (if \<not> r_set then setp_u32 None R_TIME 2 tab else Inr tab) (\<lambda>tab.
      and_then (setp_u32 None L_TIMEOUT 5 tab) (\<lambda>tab.
      and_then (setp_u32 None R_TIMEOUT 5 tab) (\<lambda>tab.
      and_then (par_use L_AFFINITY tab) (\<lambda>tab.
      and_then (par_use R_AFFINITY tab) (\<lambda>tab.
      and_then (par_use L_TIME tab) (\<lambda>tab.
      par_use R_TIME tab))))))))))"


section \<open>Formatting numbers (\<open>%d\<close>, \<open>%lld\<close>)\<close>

text \<open>
  \<open>printf\<close> belongs to the C library.  Its \<open>%d\<close> and \<open>%lld\<close> directives write a number
  in decimal, with a minus sign when it is negative and no leading zeros.
\<close>

definition digit_char :: "nat \<Rightarrow> char" where
  "digit_char n = ''0123456789'' ! n"

fun dec_nat :: "nat \<Rightarrow> string" where
  "dec_nat n = (if n < 10 then [digit_char n] else dec_nat (n div 10) @ [digit_char (n mod 10)])"

declare dec_nat.simps [simp del]

definition lld :: "int \<Rightarrow> string" where
  "lld i = (if i < 0 then CHR ''-'' # dec_nat (nat (- i)) else dec_nat (nat i))"

section \<open>The request and the version check of \<open>server\<close>\<close>

text \<open>
  \<open>struct REQ\<close> is declared in \<open>qperf.h\<close>, which is not among the sources.  Its members
  are the ones \<open>qperf.c\<close> names: those \<open>enc_req\<close> writes, in that order, and \<open>rate\<close>, which
  \<open>ParInfo\<close> addresses as \<open>&Req.rate\<close> and \<open>&RReq.rate\<close> and whose slots have the type
  \<open>'p'\<close> of a string.  A scalar member is kept as the unsigned number its bits spell; a
  character array as the list of its bytes.  The names are prefixed with \<open>req_\<close>.
\<close>

type_synonym byte = "8 word"

record REQ =
  req_ver_maj :: nat
  req_ver_min :: nat
  req_ver_inc :: nat
  req_req_index :: nat
  req_flip :: nat
  req_access_recv :: nat
  req_affinity :: nat
  req_poll_mode :: nat
  req_port :: nat
  req_rd_atomic :: nat
  req_timeout :: nat
  req_msg_size :: nat
  req_mtu_size :: nat
  req_no_msgs :: nat
  req_sock_buf_size :: nat
  req_time :: nat
  req_id :: "byte list"
  req_rate :: "byte list"

definition VER_MAJ :: int where "VER_MAJ = 0"
definition VER_MIN :: int where "VER_MIN = 2"
definition VER_INC :: int where "VER_INC = 0"

text \<open>
  The message of a version mismatch, as \<open>server\<close> builds it: the format
  \<open>"upgrade %s from %d.%d.%d to %d.%d.%d"\<close> with \<open>low\<close>, the \<open>l_\<close> triple and the \<open>h_\<close>
  triple.
\<close>

definition upgrade_msg :: "string \<Rightarrow> int \<times> int \<times> int \<Rightarrow> int \<times> int \<times> int \<Rightarrow> string" where
  "upgrade_msg low l h =
     (case (l, h) of ((l_maj, l_min, l_inc), (h_maj, h_min, h_inc)) \<Rightarrow>
        ''upgrade '' @ low @ '' from '' @ lld l_maj @ ''.'' @ lld l_min @ ''.'' @ lld l_inc
          @ '' to '' @ lld h_maj @ ''.'' @ lld h_min @ ''.'' @ lld h_inc)"

definition version_mismatch :: "REQ \<Rightarrow> string" where
  "version_mismatch Req =
     (let h_maj = int (req_ver_maj Req); h_min = int (req_ver_min Req); h_inc = int (req_ver_inc Req);
          l_maj = VER_MAJ; l_min = VER_MIN; l_inc = VER_INC;
          low = ''client''
      in if l_maj > h_maj \<or> (l_maj = h_maj \<and> l_min > h_min)
         then upgrade_msg ''server''
                (int (req_ver_maj Req), int (req_ver_min Req), int (req_ver_inc Req))
                (VER_MAJ, VER_MIN, VER_INC)
         else upgrade_msg low (l_maj, l_min, l_inc) (h_maj, h_min, h_inc))"

text \<open>
  One pass of the loop of \<open>server\<close>, from the return of \<open>server_recv_request\<close> to the
  \<open>fork\<close>.  \<open>cardof(Tests)\<close> depends on \<open>HAVE_LIBIBVERBS\<close> and is a parameter.  The pass
  ends in \<open>continue\<close> (with or without a message on \<open>stderr\<close>) or runs the test in a child.
\<close>

datatype served = NoRequest | Rejected string | Forked nat

definition server_pass :: "nat \<Rightarrow> REQ option \<Rightarrow> served" where
  "server_pass ntests received =
     (case received of
        None \<Rightarrow> NoRequest
      | Some Req \<Rightarrow>
          if int (req_ver_maj Req) \<noteq> VER_MAJ \<or> int (req_ver_min Req) \<noteq> VER_MIN
          then Rejected (version_mismatch Req)
          else if ntests \<le> req_req_index Req
          then Rejected (''server: bad request index: '' @ lld (int (req_req_index Req)))
          else Forked (req_req_index Req))"

text \<open>
  The loop \<open>for (;;)\<close> of \<open>server\<close> over the connections that arrive: each is \<open>None\<close>
  when \<open>server_recv_request\<close> returns 0, or the request it decoded.  Every branch of the
  body ends in the next pass.
\<close>

fun server :: "nat \<Rightarrow> REQ option list \<Rightarrow> served list" where
  "server ntests [] = []"
| "server ntests (c # cs) = server_pass ntests c # server ntests cs"

section \<open>The wire codec\<close>

text \<open>
  \<open>EncodePtr\<close> and \<open>DecodePtr\<close> walk through a buffer.  An encoder returns the bytes it
  writes, in order; a decoder takes the bytes from \<open>DecodePtr\<close> on and returns what is
  left with its result, or \<open>None\<close> when it would read beyond them.

  \<open>enc_int\<close>: the parameter is an \<open>int64_t\<close>; the byte stored is its low eight bits, and
  \<open>>>\<close> on it is the arithmetic shift.
\<close>

fun enc_int :: "64 word \<Rightarrow> nat \<Rightarrow> byte list" where
  "enc_int l 0 = []"
| "enc_int l (Suc n) = ucast l # enc_int (signed_drop_bit 8 l) n"

text \<open>
  \<open>dec_int\<close>: \<open>p\<close> starts behind the \<open>n\<close> bytes and walks back to the first, so the last
  byte is taken first: \<open>l = (l << 8) | (*--p & 0xFF)\<close> on a \<open>uint64_t\<close>.
\<close>

definition dec_int_step :: "64 word \<Rightarrow> byte \<Rightarrow> 64 word" where
  "dec_int_step l b = push_bit 8 l OR (ucast b AND 0xFF)"

definition dec_int :: "nat \<Rightarrow> byte list \<Rightarrow> (64 word \<times> byte list) option" where
  "dec_int n buf =
     (if length buf < n then None
      else Some (foldl dec_int_step 0 (rev (take n buf)), drop n buf))"

text \<open>\<open>enc_str\<close> and \<open>dec_str\<close> copy \<open>n\<close> bytes.\<close>

definition enc_str :: "byte list \<Rightarrow> nat \<Rightarrow> byte list option" where
  "enc_str s n = (if length s < n then None else Some (take n s))"

definition dec_str :: "nat \<Rightarrow> byte list \<Rightarrow> (byte list \<times> byte list) option" where
  "dec_str n buf = (if length buf < n then None else Some (take n buf, drop n buf))"

text \<open>
  The types of the members are declared in \<open>qperf.h\<close>; \<open>sizeof\<close> of each member is a
  parameter, a function of the member's name.  Passing a member to \<open>enc_int\<close> converts
  its value to \<open>int64_t\<close>; assigning the result of \<open>dec_int\<close> to a member keeps the low
  \<open>8 * sizeof\<close> bits.
\<close>

type_synonym sizes = "string \<Rightarrow> nat"

definition put :: "sizes \<Rightarrow> string \<Rightarrow> nat \<Rightarrow> byte list" where
  "put sizeof member v = enc_int (word_of_nat v) (sizeof member)"

definition get :: "sizes \<Rightarrow> string \<Rightarrow> byte list \<Rightarrow> (nat \<times> byte list) option" where
  "get sizeof member buf =
     (case dec_int (sizeof member) buf of
        None \<Rightarrow> None
      | Some (l, rest) \<Rightarrow> Some (unat l mod 2 ^ (8 * sizeof member), rest))"

definition enc_req :: "sizes \<Rightarrow> REQ \<Rightarrow> byte list option" where
  "enc_req sizeof host =
     (case enc_str (req_id host) (sizeof ''id'') of
        None \<Rightarrow> None
      | Some id_bytes \<Rightarrow> Some (
          put sizeof ''ver_maj'' (req_ver_maj host) @
          put sizeof ''ver_min'' (req_ver_min host) @
          put sizeof ''ver_inc'' (req_ver_inc host) @
          put sizeof ''req_index'' (req_req_index host) @
          put sizeof ''flip'' (req_flip host) @
          put sizeof ''access_recv'' (req_access_recv host) @
          put sizeof ''affinity'' (req_affinity host) @
          put sizeof ''poll_mode'' (req_poll_mode host) @
          put sizeof ''port'' (req_port host) @
          put sizeof ''rd_atomic'' (req_rd_atomic host) @
          put sizeof ''timeout'' (req_timeout host) @
          put sizeof ''msg_size'' (req_msg_size host) @
          put sizeof ''mtu_size'' (req_mtu_size host) @
          put sizeof ''no_msgs'' (req_no_msgs host) @
          put sizeof ''sock_buf_size'' (req_sock_buf_size host) @
          put sizeof ''time'' (req_time host) @
          id_bytes))"

text \<open>
  \<open>dec_req\<close> assigns to the members of \<open>*host\<close> one after the other; \<open>host\<close> is the
  structure as it was before the call.
\<close>

definition dec_req :: "sizes \<Rightarrow> REQ \<Rightarrow> byte list \<Rightarrow> (REQ \<times> byte list) option" where
  "dec_req sizeof host buf =
     Option.bind (get sizeof ''ver_maj'' buf) (\<lambda>(ver_maj, buf).
     Option.bind (get sizeof ''ver_min'' buf) (\<lambda>(ver_min, buf).
     Option.bind (get sizeof ''ver_inc'' buf) (\<lambda>(ver_inc, buf).
     Option.bind (get sizeof ''req_index'' buf) (\<lambda>(req_index, buf).
     Option.bind (get sizeof ''flip'' buf) (\<lambda>(flip, buf).
     Option.bind (get sizeof ''access_recv'' buf) (\<lambda>(access_recv, buf).
     Option.bind (get sizeof ''affinity'' buf) (\<lambda>(affinity, buf).
     Option.bind (get sizeof ''poll_mode'' buf) (\<lambda>(poll_mode, buf).
     Option.bind (get sizeof ''port'' buf) (\<lambda>(port, buf).
     Option.bind (get sizeof ''rd_atomic'' buf) (\<lambda>(rd_atomic, buf).
     Option.bind (get sizeof ''timeout'' buf) (\<lambda>(timeout, buf).
     Option.bind (get sizeof ''msg_size'' buf) (\<lambda>(msg_size, buf).
     Option.bind (get sizeof ''mtu_size'' buf) (\<lambda>(mtu_size, buf).
     Option.bind (get sizeof ''no_msgs'' buf) (\<lambda>(no_msgs, buf).
     Option.bind (get sizeof ''sock_buf_size'' buf) (\<lambda>(sock_buf_size, buf).
     Option.bind (get sizeof ''time'' buf) (\<lambda>(time, buf).
     Option.bind (dec_str (sizeof ''id'') buf) (\<lambda>(id_bytes, buf).
       Some (host\<lparr>req_ver_maj := ver_maj, req_ver_min := ver_min, req_ver_inc := ver_inc,
                   req_req_index := req_index, req_flip := flip, req_access_recv := access_recv,
                   req_affinity := affinity, req_poll_mode := poll_mode, req_port := port,
                   req_rd_atomic := rd_atomic, req_timeout := timeout, req_msg_size := msg_size,
                   req_mtu_size := mtu_size, req_no_msgs := no_msgs,
                   req_sock_buf_size := sock_buf_size, req_time := time,
                   req_id := id_bytes\<rparr>, buf))))))))))))))))))"

text \<open>
  \<open>struct USTAT\<close> and \<open>struct STAT\<close>, with the members \<open>enc_ustat\<close> and \<open>enc_stat\<close>
  name (\<open>s\<close>, \<open>r\<close>, \<open>rem_s\<close> and \<open>rem_r\<close> are \<open>USTAT\<close>s; \<open>time_s\<close> and \<open>time_e\<close> are arrays
  of \<open>T_N\<close> clocks).  \<open>T_N\<close> is a macro of \<open>qperf.h\<close> and a parameter here.
\<close>

record USTAT =
  ustat_no_bytes :: nat
  ustat_no_msgs :: nat
  ustat_no_errs :: nat

record STAT =
  stat_no_cpus :: nat
  stat_no_ticks :: nat
  stat_max_cqes :: nat
  stat_time_s :: "nat list"
  stat_time_e :: "nat list"
  stat_s :: USTAT
  stat_r :: USTAT
  stat_rem_s :: USTAT
  stat_rem_r :: USTAT

definition enc_ustat :: "sizes \<Rightarrow> USTAT \<Rightarrow> byte list" where
  "enc_ustat sizeof host =
     put sizeof ''no_bytes'' (ustat_no_bytes host) @
     put sizeof ''no_msgs'' (ustat_no_msgs host) @
     put sizeof ''no_errs'' (ustat_no_errs host)"

definition dec_ustat :: "sizes \<Rightarrow> USTAT \<Rightarrow> byte list \<Rightarrow> (USTAT \<times> byte list) option" where
  "dec_ustat sizeof host buf =
     Option.bind (get sizeof ''no_bytes'' buf) (\<lambda>(no_bytes, buf).
     Option.bind (get sizeof ''no_msgs'' buf) (\<lambda>(no_msgs, buf).
     Option.bind (get sizeof ''no_errs'' buf) (\<lambda>(no_errs, buf).
       Some (host\<lparr>ustat_no_bytes := no_bytes, ustat_no_msgs := no_msgs,
                   ustat_no_errs := no_errs\<rparr>, buf))))"

text \<open>The loops \<open>for (i = 0; i < T_N; ++i)\<close> over an array of clocks.\<close>

fun enc_clocks :: "sizes \<Rightarrow> string \<Rightarrow> nat list \<Rightarrow> nat \<Rightarrow> nat \<Rightarrow> byte list option" where
  "enc_clocks sizeof member arr i 0 = Some []"
| "enc_clocks sizeof member arr i (Suc k) =
     (if length arr \<le> i then None
      else map_option ((@) (put sizeof member (arr ! i))) (enc_clocks sizeof member arr (Suc i) k))"

fun dec_clocks :: "sizes \<Rightarrow> string \<Rightarrow> nat list \<Rightarrow> nat \<Rightarrow> nat \<Rightarrow> byte list \<Rightarrow> (nat list \<times> byte list) option" where
  "dec_clocks sizeof member arr i 0 buf = Some (arr, buf)"
| "dec_clocks sizeof member arr i (Suc k) buf =
     (if length arr \<le> i then None
      else case get sizeof member buf of
             None \<Rightarrow> None
           | Some (v, rest) \<Rightarrow> dec_clocks sizeof member (arr[i := v]) (Suc i) k rest)"

definition enc_stat :: "sizes \<Rightarrow> nat \<Rightarrow> STAT \<Rightarrow> byte list option" where
  "enc_stat sizeof T_N host =
     Option.bind (enc_clocks sizeof ''time_s'' (stat_time_s host) 0 T_N) (\<lambda>s_bytes.
     Option.bind (enc_clocks sizeof ''time_e'' (stat_time_e host) 0 T_N) (\<lambda>e_bytes.
       Some (put sizeof ''no_cpus'' (stat_no_cpus host) @
             put sizeof ''no_ticks'' (stat_no_ticks host) @
             put sizeof ''max_cqes'' (stat_max_cqes host) @
             s_bytes @ e_bytes @
             enc_ustat sizeof (stat_s host) @
             enc_ustat sizeof (stat_r host) @
             enc_ustat sizeof (stat_rem_s host) @
             enc_ustat sizeof (stat_rem_r host))))"

definition dec_stat :: "sizes \<Rightarrow> nat \<Rightarrow> STAT \<Rightarrow> byte list \<Rightarrow> (STAT \<times> byte list) option" where
  "dec_stat sizeof T_N host buf =
     Option.bind (get sizeof ''no_cpus'' buf) (\<lambda>(no_cpus, buf).
     Option.bind (get sizeof ''no_ticks'' buf) (\<lambda>(no_ticks, buf).
     Option.bind (get sizeof ''max_cqes'' buf) (\<lambda>(max_cqes, buf).
     Option.bind (dec_clocks sizeof ''time_s'' (stat_time_s host) 0 T_N buf) (\<lambda>(time_s, buf).
     Option.bind (dec_clocks sizeof ''time_e'' (stat_time_e host) 0 T_N buf) (\<lambda>(time_e, buf).
     Option.bind (dec_ustat sizeof (stat_s host) buf) (\<lambda>(s, buf).
     Option.bind (dec_ustat sizeof (stat_r host) buf) (\<lambda>(r, buf).
     Option.bind (dec_ustat sizeof (stat_rem_s host) buf) (\<lambda>(rem_s, buf).
     Option.bind (dec_ustat sizeof (stat_rem_r host) buf) (\<lambda>(rem_r, buf).
       Some (host\<lparr>stat_no_cpus := no_cpus, stat_no_ticks := no_ticks, stat_max_cqes := max_cqes,
                   stat_time_s := time_s, stat_time_e := time_e,
                   stat_s := s, stat_r := r, stat_rem_s := rem_s, stat_rem_r := rem_r\<rparr>,
             buf))))))))))"

text \<open>
  A value fits its member when the member is a scalar that \<open>enc_int\<close> can carry (at
  most eight bytes) and the value is below \<open>2 ^ (8 * sizeof)\<close>.  A valid structure has
  members that fit and arrays of the declared length.
\<close>

definition fits :: "sizes \<Rightarrow> string \<Rightarrow> nat \<Rightarrow> bool" where
  "fits sizeof member v = (sizeof member \<le> 8 \<and> v < 2 ^ (8 * sizeof member))"

definition valid_req :: "sizes \<Rightarrow> REQ \<Rightarrow> bool" where
  "valid_req sizeof r =
     (fits sizeof ''ver_maj'' (req_ver_maj r) \<and> fits sizeof ''ver_min'' (req_ver_min r) \<and>
      fits sizeof ''ver_inc'' (req_ver_inc r) \<and> fits sizeof ''req_index'' (req_req_index r) \<and>
      fits sizeof ''flip'' (req_flip r) \<and> fits sizeof ''access_recv'' (req_access_recv r) \<and>
      fits sizeof ''affinity'' (req_affinity r) \<and> fits sizeof ''poll_mode'' (req_poll_mode r) \<and>
      fits sizeof ''port'' (req_port r) \<and> fits sizeof ''rd_atomic'' (req_rd_atomic r) \<and>
      fits sizeof ''timeout'' (req_timeout r) \<and> fits sizeof ''msg_size'' (req_msg_size r) \<and>
      fits sizeof ''mtu_size'' (req_mtu_size r) \<and> fits sizeof ''no_msgs'' (req_no_msgs r) \<and>
      fits sizeof ''sock_buf_size'' (req_sock_buf_size r) \<and> fits sizeof ''time'' (req_time r) \<and>
      length (req_id r) = sizeof ''id'' \<and> length (req_rate r) = sizeof ''rate'')"

definition valid_ustat :: "sizes \<Rightarrow> USTAT \<Rightarrow> bool" where
  "valid_ustat sizeof u =
     (fits sizeof ''no_bytes'' (ustat_no_bytes u) \<and> fits sizeof ''no_msgs'' (ustat_no_msgs u) \<and>
      fits sizeof ''no_errs'' (ustat_no_errs u))"

definition valid_stat :: "sizes \<Rightarrow> nat \<Rightarrow> STAT \<Rightarrow> bool" where
  "valid_stat sizeof T_N st =
     (fits sizeof ''no_cpus'' (stat_no_cpus st) \<and> fits sizeof ''no_ticks'' (stat_no_ticks st) \<and>
      fits sizeof ''max_cqes'' (stat_max_cqes st) \<and>
      length (stat_time_s st) = T_N \<and> list_all (fits sizeof ''time_s'') (stat_time_s st) \<and>
      length (stat_time_e st) = T_N \<and> list_all (fits sizeof ''time_e'') (stat_time_e st) \<and>
      valid_ustat sizeof (stat_s st) \<and> valid_ustat sizeof (stat_r st) \<and>
      valid_ustat sizeof (stat_rem_s st) \<and> valid_ustat sizeof (stat_rem_r st))"

text \<open>
  A layout and two requests for the examples: two bytes for the version members and
  the request index, four for the other scalars, eight for the character arrays.
  \<open>zero_req\<close> is a structure in static storage before anything is assigned to it, as
  the \<open>Req\<close> of a server is before its first request.  \<open>client_0_1_0\<close> is the request of
  a client of version 0.1.0; \<open>rate_req\<close> is the \<open>RReq\<close> of a client of this version run
  as \<open>qperf host --rate 100 tcp_bw\<close> (\<open>tcp_bw\<close> is entry 6 of \<open>Tests\<close>; \<open>client\<close> gives
  \<open>time\<close> and \<open>timeout\<close> their defaults).
\<close>

definition example_sizes :: sizes where
  "example_sizes member =
     (if member \<in> set [''ver_maj'', ''ver_min'', ''ver_inc'', ''req_index''] then 2
      else if member \<in> set [''id'', ''rate''] then 8
      else 4)"

definition zero_req :: REQ where
  "zero_req =
     \<lparr>req_ver_maj = 0, req_ver_min = 0, req_ver_inc = 0, req_req_index = 0, req_flip = 0,
      req_access_recv = 0, req_affinity = 0, req_poll_mode = 0, req_port = 0, req_rd_atomic = 0,
      req_timeout = 0, req_msg_size = 0, req_mtu_size = 0, req_no_msgs = 0,
      req_sock_buf_size = 0, req_time = 0,
      req_id = [0, 0, 0, 0, 0, 0, 0, 0], req_rate = [0, 0, 0, 0, 0, 0, 0, 0]\<rparr>"

definition client_0_1_0 :: REQ where
  "client_0_1_0 = zero_req\<lparr>req_ver_maj := 0, req_ver_min := 1, req_ver_inc := 0\<rparr>"

definition rate_req :: REQ where
  "rate_req = zero_req\<lparr>req_ver_maj := 0, req_ver_min := 2, req_ver_inc := 0, req_req_index := 6,
     req_timeout := 5, req_time := 2,
     req_rate := [0x31, 0x30, 0x30, 0, 0, 0, 0, 0]\<rparr>"

section \<open>Framed input and output (\<open>send_recv_mesg\<close>)\<close>

text \<open>
  What the environment answers in one pass of the loop of \<open>send_recv_mesg\<close>: the clock
  (\<open>get_seconds\<close>), the value \<open>select\<close> returns, whether the descriptor is in the set
  afterwards (\<open>FD_ISSET\<close>), and what the descriptor can do when \<open>read\<close> or \<open>write\<close> is
  called: a negative number when the call fails, else the number of bytes that are
  ready to be read, or that can be written, at that moment.  The clock is a \<open>double\<close> in
  the source; the model keeps the number it stands for, and for two doubles
  \<open>etime - now \<le> 0\<close> holds exactly when \<open>etime \<le> now\<close>.
\<close>

record pass =
  pass_seconds :: rat
  pass_select :: int
  pass_isset :: bool
  pass_io :: int

text \<open>
  The connection behind the descriptor: the bytes the peer has sent and \<open>read\<close> has not
  taken yet, and the bytes \<open>write\<close> has passed on so far.
\<close>

record wire =
  wire_in :: "byte list"
  wire_out :: "byte list"

text \<open>
  The conversion of the \<open>int\<close> \<open>len\<close> to the \<open>size_t\<close> parameter of \<open>read\<close> and \<open>write\<close>,
  for a \<open>size_t\<close> of 64 bits.
\<close>

definition size_t :: "int \<Rightarrow> nat" where
  "size_t i = nat (i mod 2 ^ 64)"

text \<open>
  \<open>read\<close> and \<open>write\<close> of the C library, as the type \<open>IO\<close> of the source has them: from
  the answer of the pass, the array \<open>buf\<close> points to, the count and the connection, to the
  value returned, the array and the connection afterwards.  \<open>read\<close> takes as many bytes
  as are asked for, are ready and are still to come (none when the peer has no more to
  send), and stores them from the start of the array on; \<open>write\<close> passes on bytes from
  the start of the array, as many as are asked for and can be written.  The array is as
  long as the count or longer, as every caller has it.
\<close>

type_synonym IO = "pass \<Rightarrow> byte list \<Rightarrow> nat \<Rightarrow> wire \<Rightarrow> int \<times> byte list \<times> wire"

definition sys_read :: IO where
  "sys_read p buf count w =
     (if pass_io p < 0 then (pass_io p, buf, w)
      else let n = min (min (nat (pass_io p)) count) (length (wire_in w)) in
           (int n, take n (wire_in w) @ drop n buf, w\<lparr>wire_in := drop n (wire_in w)\<rparr>))"

definition sys_write :: IO where
  "sys_write p buf count w =
     (if pass_io p < 0 then (pass_io p, buf, w)
      else let n = min (nat (pass_io p)) count in
           (int n, buf, w\<lparr>wire_out := wire_out w @ take n buf\<rparr>))"

text \<open>
  The loop \<open>while (len)\<close>.  \<open>error\<close> and \<open>syserror\<close> print their message and return 0: the
  result is \<open>Inl\<close> of the message, or \<open>Inr ()\<close> for \<open>return 1\<close>, with the array and the
  connection as the call leaves them.  The pointer \<open>buf\<close> is not assigned in the loop:
  every call \<open>func(fd, buf, len)\<close> gets the start of the same array, and only \<open>len\<close>
  changes.  The answers are a list; the loop that is still waiting when they run out has
  not returned, which is \<open>None\<close>.
\<close>

fun send_recv_loop :: "IO \<Rightarrow> string \<Rightarrow> string \<Rightarrow> bool \<Rightarrow> rat \<Rightarrow> byte list \<Rightarrow> int \<Rightarrow> wire \<Rightarrow> pass list
    \<Rightarrow> ((string + unit) \<times> byte list \<times> wire) option" where
  "send_recv_loop func action item is_client etime buf len w ps =
     (if len = 0 then Some (Inr (), buf, w)
      else case ps of
        [] \<Rightarrow> None
      | p # rest \<Rightarrow>
          let time = etime - pass_seconds p in
          if time \<le> 0
          then Some (Inl (''failed to '' @ action @ '' '' @ item @ '': timed out''), buf, w)
          else if pass_select p < 0
          then Some (Inl (''failed to '' @ action @ '' '' @ item @ '': select failed''), buf, w)
          else if \<not> pass_isset p
          then send_recv_loop func action item is_client etime buf len w rest
          else
            case func p buf (size_t len) w of (n, data, w) \<Rightarrow>
              if n < 0 then Some (Inl (''failed to '' @ action @ '' '' @ item), data, w)
              else if n = 0
              then Some (Inl (''failed to '' @ action @ '' '' @ item @ '': ''
                              @ (if is_client then ''server'' else ''client'') @ '' not responding''),
                         data, w)
              else send_recv_loop func action item is_client etime data (len - n) w rest)"

declare send_recv_loop.simps [simp del]

text \<open>
  \<open>send_recv_mesg\<close>: \<open>sr\<close> is \<open>'r'\<close> to receive and anything else to send; \<open>timeout\<close> is
  \<open>Req.timeout\<close>; \<open>start\<close> is the clock at the call.
\<close>

definition send_recv_mesg :: "char \<Rightarrow> string \<Rightarrow> bool \<Rightarrow> nat \<Rightarrow> byte list \<Rightarrow> int \<Rightarrow> rat \<Rightarrow> wire \<Rightarrow> pass list
    \<Rightarrow> ((string + unit) \<times> byte list \<times> wire) option" where
  "send_recv_mesg sr item is_client timeout buf len start w ps =
     (let (func, action) = (if sr = CHR ''r'' then (sys_read, ''receive'') else (sys_write, ''send''));
          etime = start + of_nat timeout
      in send_recv_loop func action item is_client etime buf len w ps)"

text \<open>\<open>send_mesg\<close> and \<open>recv_mesg\<close>, on the connection of \<open>RemoteFD\<close>.\<close>

definition send_mesg :: "bool \<Rightarrow> nat \<Rightarrow> byte list \<Rightarrow> int \<Rightarrow> string \<Rightarrow> rat \<Rightarrow> wire \<Rightarrow> pass list
    \<Rightarrow> ((string + unit) \<times> byte list \<times> wire) option" where
  "send_mesg is_client timeout ptr len item start w ps =
     send_recv_mesg (CHR ''s'') item is_client timeout ptr len start w ps"

definition recv_mesg :: "bool \<Rightarrow> nat \<Rightarrow> byte list \<Rightarrow> int \<Rightarrow> string \<Rightarrow> rat \<Rightarrow> wire \<Rightarrow> pass list
    \<Rightarrow> ((string + unit) \<times> byte list \<times> wire) option" where
  "recv_mesg is_client timeout ptr len item start w ps =
     send_recv_mesg (CHR ''r'') item is_client timeout ptr len start w ps"

text \<open>
  The synchronize message \<open>"SyN"\<close>, with the zero that ends it, and its size.
\<close>

definition SYNCMESG :: "byte list" where
  "SYNCMESG = [0x53, 0x79, 0x4E, 0x00]"

definition SYNCSIZE :: int where
  "SYNCSIZE = 4"

text \<open>
  \<open>send_sync\<close> and \<open>recv_sync\<close>.  The local array \<open>data\<close> of \<open>recv_sync\<close> is not
  initialised: what it holds at the call is a parameter.  \<open>memcmp\<close> compares the first
  \<open>SYNCSIZE\<close> bytes.
\<close>

definition send_sync :: "bool \<Rightarrow> nat \<Rightarrow> rat \<Rightarrow> wire \<Rightarrow> pass list
    \<Rightarrow> ((string + unit) \<times> byte list \<times> wire) option" where
  "send_sync is_client timeout start w ps =
     send_mesg is_client timeout SYNCMESG SYNCSIZE ''sync'' start w ps"

definition recv_sync :: "bool \<Rightarrow> nat \<Rightarrow> byte list \<Rightarrow> rat \<Rightarrow> wire \<Rightarrow> pass list
    \<Rightarrow> ((string + unit) \<times> byte list \<times> wire) option" where
  "recv_sync is_client timeout data start w ps =
     (case recv_mesg is_client timeout data SYNCSIZE ''sync'' start w ps of
        None \<Rightarrow> None
      | Some (Inl m, data, w) \<Rightarrow> Some (Inl m, data, w)
      | Some (Inr u, data, w) \<Rightarrow>
          if take (nat SYNCSIZE) data \<noteq> SYNCMESG
          then Some (Inl ''sync failure: data does not match'', data, w)
          else Some (Inr (), data, w))"

text \<open>
  Example answers of the environment to a call for the four bytes of the synchronize
  message: three bytes move, \<open>select\<close> times out once, then the last byte moves.
  \<open>late_pass\<close> is a pass at second 105.  \<open>sync_wire\<close> is a connection on which the peer
  has sent the synchronize message, and \<open>stale\<close> an array of four bytes with what was
  left in them.
\<close>

definition sync_passes :: "pass list" where
  "sync_passes = [\<lparr>pass_seconds = 100, pass_select = 1, pass_isset = True, pass_io = 3\<rparr>,
                  \<lparr>pass_seconds = 100, pass_select = 0, pass_isset = False, pass_io = 0\<rparr>,
                  \<lparr>pass_seconds = 100, pass_select = 1, pass_isset = True, pass_io = 1\<rparr>]"

definition late_pass :: pass where
  "late_pass = \<lparr>pass_seconds = 105, pass_select = 1, pass_isset = True, pass_io = 4\<rparr>"

definition sync_wire :: wire where
  "sync_wire = \<lparr>wire_in = SYNCMESG, wire_out = []\<rparr>"

definition stale :: "byte list" where
  "stale = [0xAA, 0xAA, 0xAA, 0xAA]"

section \<open>Presentation: \<open>commify\<close>, \<open>place_any\<close>, \<open>nice_1024\<close>\<close>

text \<open>\<open>isdigit\<close> of the C library, in the C locale.\<close>

definition isdigit :: "char \<Rightarrow> bool" where
  "isdigit c = (c \<in> set ''0123456789'')"

text \<open>Division of C on \<open>int\<close>: the quotient is truncated towards zero.\<close>

definition c_div :: "int \<Rightarrow> int \<Rightarrow> int" where
  "c_div a b = sgn a * sgn b * (\<bar>a\<bar> div \<bar>b\<bar>)"

text \<open>
  The loop \<open>while (--seqS >= 0) if (!isdigit(data[seqS])) break;\<close> entered with
  \<open>seqS = k\<close>: the value of \<open>seqS\<close> behind it.
\<close>

fun back_over_digits :: "string \<Rightarrow> nat \<Rightarrow> int" where
  "back_over_digits data 0 = -1"
| "back_over_digits data (Suc k) =
     (if \<not> isdigit (data ! k) then int k else back_over_digits data k)"

text \<open>
  The loop \<open>for (;;)\<close> of \<open>commify\<close> on the reallocated array: it copies from index \<open>s\<close> to
  index \<open>d\<close>, both walking down, and puts a comma behind every third digit until
  \<open>noCommas\<close> of them are placed.  An index below 0 is outside the array.
\<close>

function commify_loop :: "string \<Rightarrow> int \<Rightarrow> int \<Rightarrow> int \<Rightarrow> int \<Rightarrow> fail + string" where
  "commify_loop data s d seqE noCommas =
     (if s < 0 \<or> d < 0 then Inl OutOfBounds
      else
        let data = data[nat d := data ! nat s]; d = d - 1; s = s - 1;
            n = seqE - s
        in if n > 0 \<and> n mod 3 = 0
           then if d < 0 then Inl OutOfBounds
                else let data = data[nat d := CHR '',''] ; d = d - 1; noCommas = noCommas - 1
                     in if noCommas = 0 then Inr data
                        else commify_loop data s d seqE noCommas
           else commify_loop data s d seqE noCommas)"
  by pat_completeness auto
termination
  by (relation "measure (\<lambda>(data, s, d, seqE, noCommas). nat (s + 1))") auto

declare commify_loop.simps [simp del]

text \<open>
  \<open>commify\<close>.  A null pointer is \<open>None\<close>.  The string is the characters before the
  terminating zero; the array \<open>realloc\<close> returns holds them, the zero, and \<open>noCommas\<close>
  more characters, and the string returned is what stands before its last element, the
  zero moved there.  (\<open>realloc\<close> is taken to succeed.)
\<close>

definition commify :: "bool \<Rightarrow> string option \<Rightarrow> fail + string option" where
  "commify UnifyUnits data_ptr =
     (case data_ptr of
        None \<Rightarrow> Inr None
      | Some data \<Rightarrow>
          if UnifyUnits then Inr (Some data)
          else
            let dataLen = length data;
                seqE = int dataLen;
                seqS = back_over_digits data dataLen;
                (seqS, seqE) =
                   (if seqS \<ge> 0 \<and> data ! nat seqS = CHR ''.''
                    then (back_over_digits data (nat seqS), seqS) else (seqS, seqE));
                seqE = seqE - 1; seqS = seqS + 1;
                noCommas = c_div (seqE - seqS) 3
            in if noCommas = 0 then Inr (Some data)
               else and_then
                      (commify_loop (data @ replicate (Suc (nat noCommas)) (CHR 0x00))
                         (int dataLen) (int dataLen + noCommas) seqE noCommas)
                      (\<lambda>data. Inr (Some (butlast data))))"

text \<open>\<open>struct SHOW\<close>; a null pointer is \<open>None\<close>.\<close>

record SHOW =
  show_pref :: "string option"
  show_name :: string
  show_data :: "string option"
  show_unit :: "string option"
  show_altn :: "string option"

text \<open>
  \<open>place_any\<close>.  The rows in use are \<open>ShowTable[0 .. ShowIndex - 1]\<close>, kept as a list;
  the array has 256 entries.
\<close>

definition place_any :: "SHOW list \<Rightarrow> string option \<Rightarrow> string \<Rightarrow> string option \<Rightarrow> string option
    \<Rightarrow> string option \<Rightarrow> fail + SHOW list" where
  "place_any ShowTable pref name unit data altn =
     (if length ShowTable + 1 > 256 then Inl (BugDie ''Need to increase size of ShowTable'')
      else Inr (ShowTable @ [\<lparr>show_pref = pref, show_name = name, show_data = data,
                               show_unit = unit, show_altn = altn\<rparr>]))"

text \<open>
  The loop of \<open>nice_1024\<close>: \<open>None\<close> is its \<open>return 0\<close>; \<open>cardof(tab) - 1\<close> is 3.
\<close>

function nice_1024_loop :: "int \<Rightarrow> nat \<Rightarrow> (int \<times> nat) option" where
  "nice_1024_loop val n =
     (if val \<ge> 1024 \<and> n < 3
      then if val mod 1024 \<noteq> 0 then None else nice_1024_loop (val div 1024) (n + 1)
      else Some (val, n))"
  by pat_completeness auto
termination
  by (relation "measure (\<lambda>(val, n). 3 - n)") auto

declare nice_1024_loop.simps [simp del]

definition nice_tab :: "string list" where
  "nice_tab = [''KiB'', ''MiB'', ''GiB'', ''TiB'']"

text \<open>
  \<open>nice_1024\<close> returns 1 with a row placed, or 0.  \<open>%\<close> and \<open>/\<close> are only applied to
  values of at least 1024, where they are \<open>mod\<close> and \<open>div\<close>.  A \<open>long long\<close> has 64 bits:
  the model takes any integer, and no operation here leaves the range of its argument.
\<close>

definition nice_1024 :: "bool \<Rightarrow> SHOW list \<Rightarrow> string option \<Rightarrow> string \<Rightarrow> int \<Rightarrow> fail + (bool \<times> SHOW list)" where
  "nice_1024 UnifyUnits ShowTable pref name value =
     (let val = value in
      if val < 1024 \<or> val mod 1024 \<noteq> 0 then Inr (False, ShowTable)
      else case nice_1024_loop (val div 1024) 0 of
             None \<Rightarrow> Inr (False, ShowTable)
           | Some (val, n) \<Rightarrow>
               and_then (commify UnifyUnits (Some (lld val))) (\<lambda>data.
               and_then (commify UnifyUnits (Some (lld value))) (\<lambda>altn.
               and_then (place_any ShowTable pref name (Some (nice_tab ! n)) data altn)
                 (\<lambda>ShowTable. Inr (True, ShowTable)))))"

section \<open>Tick counters (\<open>get_times\<close>)\<close>

text \<open>
  A pointer into the zero-terminated buffer is the list of the characters from it to
  the zero; \<open>*p\<close> is the head of the list, or the zero at its end.
\<close>

definition deref :: "string \<Rightarrow> char" where
  "deref p = (case p of [] \<Rightarrow> CHR 0x00 | c # cs \<Rightarrow> c)"

text \<open>
  \<open>strtoll(p, 0, 10)\<close> where \<open>*p\<close> is a digit: the number the digits from \<open>p\<close> on spell,
  and \<open>LLONG_MAX\<close> when that is beyond a \<open>long long\<close>.
\<close>

definition digit_val :: "char \<Rightarrow> nat" where
  "digit_val c = of_char c - 48"

definition digits_val :: "string \<Rightarrow> nat" where
  "digits_val ds = foldl (\<lambda>v c. 10 * v + digit_val c) 0 ds"

definition strtoll :: "string \<Rightarrow> int" where
  "strtoll p = min (int (digits_val (takeWhile isdigit p))) (2 ^ 63 - 1)"

text \<open>
  The loop \<open>for (n = 1; n < T_N; ++n)\<close> of \<open>get_times\<close>, from the value of \<open>n\<close> on; it
  returns \<open>n\<close> as the loop leaves it, with the array.  \<open>T_N\<close> is a macro of \<open>qperf.h\<close>
  and a parameter here, named \<open>tn\<close>; \<open>CLOCK\<close> is a type of \<open>qperf.h\<close>, and the array holds
  the numbers assigned.
\<close>

function get_times_loop :: "nat \<Rightarrow> nat \<Rightarrow> string \<Rightarrow> int list \<Rightarrow> fail + (nat \<times> int list)" where
  "get_times_loop tn n p timex =
     (if n < tn then
        let p = dropWhile (\<lambda>c. c = CHR '' '') p in
        if \<not> isdigit (deref p)
        then if deref p \<noteq> CHR 0x0A \<or> int n < int tn - 1
             then Inl (ErrorDie ''/proc/stat has bad format'')
             else Inr (n, timex)
        else
          let timex = timex[n := strtoll p];
              p = dropWhile (\<lambda>c. c \<noteq> CHR '' '' \<and> c \<noteq> CHR 0x0A) p
          in get_times_loop tn (n + 1) p timex
      else Inr (n, timex))"
  by pat_completeness auto
termination
  by (relation "measure (\<lambda>(tn, n, p, timex). tn - n)") auto

declare get_times_loop.simps [simp del]

text \<open>The loop \<open>while (n < T_N) timex[n++] = 0\<close>.\<close>

function zero_rest :: "nat \<Rightarrow> nat \<Rightarrow> int list \<Rightarrow> int list" where
  "zero_rest tn n timex = (if n < tn then zero_rest tn (n + 1) (timex[n := 0]) else timex)"
  by pat_completeness auto
termination
  by (relation "measure (\<lambda>(tn, n, timex). tn - n)") auto

declare zero_rest.simps [simp del]

text \<open>
  \<open>get_times\<close>: \<open>clock\<close> is what \<open>times\<close> returns and \<open>buf\<close> what \<open>read\<close> puts into the
  buffer (\<open>lseek\<close> and \<open>read\<close> are taken to succeed); \<open>timex\<close> is the array of \<open>T_N\<close>
  clocks as the caller passes it.
\<close>

definition get_times :: "nat \<Rightarrow> int \<Rightarrow> string \<Rightarrow> int list \<Rightarrow> fail + int list" where
  "get_times tn clock buf timex =
     (let timex = timex[0 := clock] in
      if take 4 buf \<noteq> ''cpu ''
      then Inl (ErrorDie (''/proc/stat does not start with '' @ [CHR 0x27] @ ''cpu '' @ [CHR 0x27]))
      else and_then (get_times_loop tn 1 (drop 3 buf) timex)
             (\<lambda>(n, timex). Inr (zero_rest tn n timex)))"

text \<open>
  The first line of \<open>/proc/stat\<close> with the given fields: \<open>cpu\<close>, then for every field one
  space, as many more as the field asks for, and its digits, then a newline.
\<close>

definition stat_fields :: "(nat \<times> string) list \<Rightarrow> string" where
  "stat_fields fs = concat (map (\<lambda>(sp, ds). replicate (Suc sp) (CHR '' '') @ ds) fs)"

definition stat_line :: "(nat \<times> string) list \<Rightarrow> string" where
  "stat_line fs = ''cpu'' @ stat_fields fs @ [CHR 0x0A]"

definition number :: "string \<Rightarrow> bool" where
  "number ds = (ds \<noteq> [] \<and> list_all isdigit ds)"

text \<open>A pointer stands at a space or at a newline.\<close>

definition starts_sep :: "string \<Rightarrow> bool" where
  "starts_sep t = (deref t = CHR '' '' \<or> deref t = CHR 0x0A)"

text \<open>
  Modelled from the spec: \<open>T_N\<close> is a macro of \<open>qperf.h\<close>, which is not among the sources.
  The spec lists nine tick categories (real, user, nice, kernel, idle, iowait, irq,
  softirq, steal).  It is used for the examples only; the functions take \<open>T_N\<close> as a
  parameter.
\<close>

definition T_N :: nat where
  "T_N = 9"

section \<open>Arguments of options (\<open>arg_long\<close>, \<open>arg_size\<close>, \<open>arg_strn\<close>, \<open>arg_time\<close>)\<close>

text \<open>
  \<open>strtol\<close> and \<open>strtold\<close> belong to the C library.  The model follows the C standard
  for base 10: white space is skipped, a sign may follow, then the longest sequence of
  the expected form is converted, and the rest of the string is returned with the value.
  When nothing can be converted the value is 0 and the rest is the whole string.
  A \<open>long\<close> has 64 bits, as on 64-bit Linux.
\<close>

definition isspace :: "char \<Rightarrow> bool" where
  "isspace c = (c \<in> set [CHR '' '', CHR 0x09, CHR 0x0A, CHR 0x0B, CHR 0x0C, CHR 0x0D])"

definition LONG_MAX :: int where "LONG_MAX = 2 ^ 63 - 1"
definition LONG_MIN :: int where "LONG_MIN = - (2 ^ 63)"

text \<open>An optional sign: whether it is a minus, and the string behind it.\<close>

definition sign :: "string \<Rightarrow> bool \<times> string" where
  "sign s = (if deref s = CHR ''-'' then (True, tl s)
             else if deref s = CHR ''+'' then (False, tl s) else (False, s))"

definition strtol :: "string \<Rightarrow> int \<times> string" where
  "strtol s =
     (let (neg, t) = sign (dropWhile isspace s);
          ds = takeWhile isdigit t
      in if ds = [] then (0, s)
         else (max LONG_MIN (min LONG_MAX ((if neg then -1 else 1) * int (digits_val ds))),
               dropWhile isdigit t))"

text \<open>
  The exponent part of a decimal floating constant at the head of a string: \<open>e\<close> or
  \<open>E\<close>, an optional sign and one digit at least.  Without one the exponent is 0 and
  nothing is consumed.
\<close>

definition exponent :: "string \<Rightarrow> int \<times> string" where
  "exponent s =
     (if deref s = CHR ''e'' \<or> deref s = CHR ''E'' then
        let (neg, t) = sign (tl s); ds = takeWhile isdigit t
        in if ds = [] then (0, s)
           else ((if neg then -1 else 1) * int (digits_val ds), dropWhile isdigit t)
      else (0, s))"

text \<open>
  The decimal floating constant at the head of a string, without sign: digits with at
  most one point among them and one digit at least, and an exponent part.  \<open>None\<close> when
  there is none.  The value is the rational number the constant denotes.
\<close>

definition decimal :: "string \<Rightarrow> (rat \<times> string) option" where
  "decimal s =
     (let ip = takeWhile isdigit s; r1 = dropWhile isdigit s;
          (fp, r2) = (if deref r1 = CHR ''.''
                      then (takeWhile isdigit (tl r1), dropWhile isdigit (tl r1))
                      else ([], r1))
      in if ip = [] \<and> fp = [] then None
         else
           let m = of_nat (digits_val (ip @ fp)) / 10 ^ length fp;
               (e, r3) = exponent r2
           in Some (if e \<ge> 0 then m * 10 ^ nat e else m / 10 ^ nat (- e), r3))"

text \<open>
  A string that starts, behind white space and sign, like a hexadecimal constant
  (\<open>0x\<close>), or with the first letter of an infinity or a NaN: these the model does not
  convert.
\<close>

definition special :: "string \<Rightarrow> bool" where
  "special s = (take 2 s \<in> set [''0x'', ''0X''] \<or> deref s \<in> set ''iInN'')"

text \<open>
  \<open>strtold\<close>.  A \<open>long double\<close> is kept as the rational number it stands for.  \<open>rnd\<close> is
  the rounding of a real number to a \<open>long double\<close>: it belongs to the platform and is
  a parameter.
\<close>

definition strtold :: "(rat \<Rightarrow> rat) \<Rightarrow> string \<Rightarrow> (rat \<times> string) option" where
  "strtold rnd s =
     (let (neg, t) = sign (dropWhile isspace s) in
      if special t then None
      else case decimal t of
             None \<Rightarrow> Some (0, s)
           | Some (v, rest) \<Rightarrow> Some (rnd (if neg then - v else v), rest))"

text \<open>
  The conversion of a \<open>long double\<close> to \<open>long\<close>: the fractional part is discarded, and
  the result is undefined when the value is out of range.
\<close>

definition to_long :: "rat \<Rightarrow> fail + int" where
  "to_long d =
     (let t = (if d \<ge> 0 then \<lfloor>d\<rfloor> else \<lceil>d\<rceil>) in
      if LONG_MIN \<le> t \<and> t \<le> LONG_MAX then Inr t else Inl UndefinedConversion)"

text \<open>
  The functions \<open>arg_...\<close> get \<open>argv\<close>, which stands at the option, and move it two
  entries on: they return the value with the rest of the arguments.  The end of the
  list is the null pointer that ends \<open>argv\<close>.
\<close>

definition arg_long :: "string list \<Rightarrow> fail + (int \<times> string list)" where
  "arg_long argv =
     (case argv of
        [] \<Rightarrow> Inl OutOfBounds
      | [a0] \<Rightarrow> Inl (ErrorDie (''Missing argument to '' @ a0))
      | a0 # a1 # rest \<Rightarrow>
          let (l, p) = strtol a1 in
          if p \<noteq> [] then Inl (ErrorDie (''Bad argument: '' @ a1))
          else if l < 0 then Inl (ErrorDie (a0 @ '' requires a non-negative number''))
          else Inr (l, rest))"

definition arg_size :: "(rat \<Rightarrow> rat) \<Rightarrow> string list \<Rightarrow> fail + (int \<times> string list)" where
  "arg_size rnd argv =
     (case argv of
        [] \<Rightarrow> Inl OutOfBounds
      | [a0] \<Rightarrow> Inl (ErrorDie (''Missing argument to '' @ a0))
      | a0 # a1 # rest \<Rightarrow>
          (case strtold rnd a1 of
             None \<Rightarrow> Inl NotModelled
           | Some (d, p) \<Rightarrow>
               if d < 0 then Inl (ErrorDie (a0 @ '' requires a non-negative number''))
               else
                 and_then
                   (if p = [] then to_long d
                    else if p = ''kb'' \<or> p = ''k'' then to_long (rnd (d * 1000))
                    else if p = ''mb'' \<or> p = ''m'' then to_long (rnd (d * (1000 * 1000)))
                    else if p = ''gb'' \<or> p = ''g'' then to_long (rnd (d * (1000 * 1000 * 1000)))
                    else if p = ''kib'' \<or> p = ''K'' then to_long (rnd (d * 1024))
                    else if p = ''mib'' \<or> p = ''M'' then to_long (rnd (d * (1024 * 1024)))
                    else if p = ''gib'' \<or> p = ''G'' then to_long (rnd (d * (1024 * 1024 * 1024)))
                    else Inl (ErrorDie (''Bad argument: '' @ a1)))
                   (\<lambda>l. Inr (l, rest))))"

definition arg_strn :: "string list \<Rightarrow> fail + (string \<times> string list)" where
  "arg_strn argv =
     (case argv of
        [] \<Rightarrow> Inl OutOfBounds
      | [a0] \<Rightarrow> Inl (ErrorDie (''Missing argument to '' @ a0))
      | a0 # a1 # rest \<Rightarrow> Inr (a1, rest))"

definition arg_time :: "(rat \<Rightarrow> rat) \<Rightarrow> string list \<Rightarrow> fail + (int \<times> string list)" where
  "arg_time rnd argv =
     (case argv of
        [] \<Rightarrow> Inl OutOfBounds
      | [a0] \<Rightarrow> Inl (ErrorDie (''Missing argument to '' @ a0))
      | a0 # a1 # rest \<Rightarrow>
          (case strtold rnd a1 of
             None \<Rightarrow> Inl NotModelled
           | Some (d, p) \<Rightarrow>
               if d < 0 then Inl (ErrorDie (a0 @ '' requires a non-negative number''))
               else
                 and_then
                   (if p = [] then to_long d
                    else
                      let u = deref p in
                      if tl p \<noteq> [] then Inl (ErrorDie (''Bad argument: '' @ a1))
                      else if u = CHR ''s'' \<or> u = CHR ''S'' then to_long d
                      else if u = CHR ''m'' \<or> u = CHR ''M'' then to_long (rnd (d * 60))
                      else if u = CHR ''h'' \<or> u = CHR ''H'' then to_long (rnd (d * (60 * 60)))
                      else if u = CHR ''d'' \<or> u = CHR ''D'' then to_long (rnd (d * (60 * 60 * 24)))
                      else Inl (ErrorDie (''Bad argument: '' @ a1)))
                   (\<lambda>l. Inr (l, rest))))"

text \<open>
  The multiplier of a suffix, as the spec lists them: powers of ten for \<open>k\<close>, \<open>m\<close>, \<open>g\<close>
  and \<open>kb\<close>, \<open>mb\<close>, \<open>gb\<close>; powers of 1024 for \<open>K\<close>, \<open>M\<close>, \<open>G\<close> and \<open>kib\<close>, \<open>mib\<close>,
  \<open>gib\<close>.
\<close>

definition size_suffix :: "string \<Rightarrow> rat option" where
  "size_suffix p = map_of
     [(''k'', 10 ^ 3), (''kb'', 10 ^ 3), (''m'', 10 ^ 6), (''mb'', 10 ^ 6),
      (''g'', 10 ^ 9), (''gb'', 10 ^ 9),
      (''K'', 1024), (''kib'', 1024), (''M'', 1024 ^ 2), (''mib'', 1024 ^ 2),
      (''G'', 1024 ^ 3), (''gib'', 1024 ^ 3)] p"

text \<open>
  A size as the spec words it: a number, written with the digits \<open>ip\<close> and, when \<open>fp\<close>
  is not empty, a point and the digits \<open>fp\<close>; then the suffix.  \<open>token_value\<close> is the
  number the digits denote.
\<close>

definition size_token :: "string \<Rightarrow> string \<Rightarrow> string \<Rightarrow> string" where
  "size_token ip fp suf = ip @ (if fp = [] then [] else CHR ''.'' # fp) @ suf"

definition token_value :: "string \<Rightarrow> string \<Rightarrow> rat" where
  "token_value ip fp = of_nat (digits_val (ip @ fp)) / 10 ^ length fp"

section \<open>The command line (\<open>main\<close>, \<open>do_args\<close>, \<open>client\<close>)\<close>

text \<open>
  The variables of the program that the options and \<open>client\<close> assign.  \<open>Pars\<close> is the
  array \<open>ParInfo\<close> as it stands.  \<open>Ran\<close> is not a variable of the source: it lists, for
  the tests that returned so far, the value of \<open>Successful\<close> on return.
\<close>

record globals =
  Pars :: "PAR_INFO list"
  ExitStatus :: int
  ServerName :: "string option"
  TestName :: "string option"
  ListenPort :: int
  Precision :: int
  ServerTimeout :: int
  Debug :: int
  UnifyUnits :: int
  UnifyNodes :: int
  VerboseConf :: int
  VerboseStat :: int
  VerboseTime :: int
  VerboseUsed :: int
  Wait :: int
  Ran :: "bool list"

definition initial :: globals where
  "initial = \<lparr>Pars = ParInfo, ExitStatus = 0, ServerName = None, TestName = None,
     ListenPort = 19765, Precision = 3, ServerTimeout = 5, Debug = 0, UnifyUnits = 0,
     UnifyNodes = 0, VerboseConf = 0, VerboseStat = 0, VerboseTime = 0, VerboseUsed = 0,
     Wait = 0, Ran = []\<rparr>"

text \<open>
  What the program is given besides its arguments: the rounding of the platform, the
  macros \<open>STRSIZE\<close> and \<open>HAVE_LIBIBVERBS\<close>, the categories of the table \<open>Usage\<close> (it is
  defined in another file), and whether \<open>/proc/stat\<close> can be opened.
\<close>

record env =
  env_rnd :: "rat \<Rightarrow> rat"
  env_STRSIZE :: nat
  env_HAVE_LIBIBVERBS :: bool
  env_Usage :: "string list"
  env_proc_stat_opens :: bool

text \<open>
  \<open>struct OPTION\<close> as a tuple: name, \<open>server_valid\<close>, \<open>func\<close>, \<open>arg1\<close>, \<open>arg2\<close>.  The
  functions the table points to are named by a datatype.  A member left out of an
  initialiser is 0; a character is its code.
\<close>

datatype handler = Opt_help | Opt_misc | Opt_strn | Opt_long | Opt_size | Opt_time | Opt_vers

type_synonym OPTION = "string \<times> bool \<times> handler \<times> nat \<times> nat"

abbreviation (input) no_arg :: nat where "no_arg \<equiv> 0"
abbreviation (input) char_arg :: "char \<Rightarrow> nat" where "char_arg c \<equiv> of_char c"

definition Options :: "OPTION list" where
  "Options =
   [(''--access_recv'', False, Opt_long, L_ACCESS_RECV, R_ACCESS_RECV),
    (''-Ar'', False, Opt_long, L_ACCESS_RECV, R_ACCESS_RECV),
    (''--affinity'', False, Opt_long, L_AFFINITY, R_AFFINITY),
    (''-a'', False, Opt_long, L_AFFINITY, R_AFFINITY),
    (''--loc_affinity'', False, Opt_long, L_AFFINITY, no_arg),
    (''-la'', False, Opt_long, L_AFFINITY, no_arg),
    (''--rem_affinity'', False, Opt_long, R_AFFINITY, no_arg),
    (''-ra'', False, Opt_long, R_AFFINITY, no_arg),
    (''--debug'', True, Opt_misc, char_arg (CHR ''D''), no_arg),
    (''-D'', True, Opt_misc, char_arg (CHR ''D''), no_arg),
    (''--flip'', False, Opt_long, L_FLIP, R_FLIP),
    (''-f'', False, Opt_long, L_FLIP, R_FLIP),
    (''--help'', False, Opt_help, no_arg, no_arg),
    (''-h'', False, Opt_help, no_arg, no_arg),
    (''--host'', False, Opt_misc, char_arg (CHR ''H''), no_arg),
    (''-H'', False, Opt_misc, char_arg (CHR ''H''), no_arg),
    (''--id'', False, Opt_strn, L_ID, R_ID),
    (''-i'', False, Opt_strn, L_ID, R_ID),
    (''--loc_id'', False, Opt_strn, L_ID, no_arg),
    (''-li'', False, Opt_strn, L_ID, no_arg),
    (''--rem_id'', False, Opt_strn, R_ID, no_arg),
    (''-ri'', False, Opt_strn, R_ID, no_arg),
    (''--listen_port'', True, Opt_misc, char_arg (CHR ''l''), char_arg (CHR ''p'')),
    (''-lp'', True, Opt_misc, char_arg (CHR ''l''), char_arg (CHR ''p'')),
    (''--msg_size'', False, Opt_size, L_MSG_SIZE, R_MSG_SIZE),
    (''-m'', False, Opt_size, L_MSG_SIZE, R_MSG_SIZE),
    (''--mtu_size'', False, Opt_size, L_MTU_SIZE, R_MTU_SIZE),
    (''-M'', False, Opt_size, L_MTU_SIZE, R_MTU_SIZE),
    (''--no_msgs'', False, Opt_long, L_NO_MSGS, R_NO_MSGS),
    (''-n'', False, Opt_long, L_NO_MSGS, R_NO_MSGS),
    (''--poll'', False, Opt_long, L_POLL_MODE, R_POLL_MODE),
    (''-P'', False, Opt_long, L_POLL_MODE, R_POLL_MODE),
    (''--loc_poll'', False, Opt_long, L_POLL_MODE, no_arg),
    (''-lP'', False, Opt_long, L_POLL_MODE, no_arg),
    (''--rem_poll'', False, Opt_long, R_POLL_MODE, no_arg),
    (''-rP'', False, Opt_long, R_POLL_MODE, no_arg),
    (''--port'', False, Opt_long, L_PORT, R_PORT),
    (''-p'', False, Opt_long, L_PORT, R_PORT),
    (''--precision'', False, Opt_misc, char_arg (CHR ''e''), no_arg),
    (''-e'', False, Opt_misc, char_arg (CHR ''e''), no_arg),
    (''--rate'', False, Opt_strn, L_RATE, R_RATE),
    (''-r'', False, Opt_strn, L_RATE, R_RATE),
    (''--loc_rate'', False, Opt_strn, L_RATE, no_arg),
    (''-lr'', False, Opt_strn, L_RATE, no_arg),
    (''--rem_rate'', False, Opt_strn, R_RATE, no_arg),
    (''-rr'', False, Opt_strn, R_RATE, no_arg),
    (''-rd_atomic'', False, Opt_long, L_RD_ATOMIC, R_RD_ATOMIC),
    (''-R'', False, Opt_long, L_RD_ATOMIC, R_RD_ATOMIC),
    (''--loc_rd_atomic'', False, Opt_long, L_RD_ATOMIC, no_arg),
    (''-lR'', False, Opt_long, L_RD_ATOMIC, no_arg),
    (''--rem_rd_atomic'', False, Opt_long, R_RD_ATOMIC, no_arg),
    (''-rR'', False, Opt_long, R_RD_ATOMIC, no_arg),
    (''--sock_buf_size'', False, Opt_size, L_SOCK_BUF_SIZE, R_SOCK_BUF_SIZE),
    (''-S'', False, Opt_size, L_SOCK_BUF_SIZE, R_SOCK_BUF_SIZE),
    (''--loc_sock_buf_size'', False, Opt_size, L_SOCK_BUF_SIZE, no_arg),
    (''-lS'', False, Opt_size, L_SOCK_BUF_SIZE, no_arg),
    (''--rem_sock_buf_size'', False, Opt_size, R_SOCK_BUF_SIZE, no_arg),
    (''-rS'', False, Opt_size, R_SOCK_BUF_SIZE, no_arg),
    (''--time'', False, Opt_time, L_TIME, R_TIME),
    (''-t'', False, Opt_time, L_TIME, R_TIME),
    (''--timeout'', False, Opt_time, L_TIMEOUT, R_TIMEOUT),
    (''-T'', False, Opt_time, L_TIMEOUT, R_TIMEOUT),
    (''--loc_timeout'', False, Opt_time, L_TIMEOUT, no_arg),
    (''-lT'', False, Opt_time, L_TIMEOUT, no_arg),
    (''--rem_timeout'', False, Opt_time, R_TIMEOUT, no_arg),
    (''-rT'', False, Opt_time, R_TIMEOUT, no_arg),
    (''--server_timeout'', False, Opt_misc, char_arg (CHR ''s''), char_arg (CHR ''t'')),
    (''-st'', False, Opt_misc, char_arg (CHR ''s''), char_arg (CHR ''t'')),
    (''--unify_nodes'', False, Opt_misc, char_arg (CHR ''U''), no_arg),
    (''-U'', False, Opt_misc, char_arg (CHR ''U''), no_arg),
    (''--unify_units'', False, Opt_misc, char_arg (CHR ''u''), no_arg),
    (''-u'', False, Opt_misc, char_arg (CHR ''u''), no_arg),
    (''--verbose'', False, Opt_misc, char_arg (CHR ''v''), no_arg),
    (''-v'', False, Opt_misc, char_arg (CHR ''v''), no_arg),
    (''--verbose_conf'', False, Opt_misc, char_arg (CHR ''v''), char_arg (CHR ''c'')),
    (''-vc'', False, Opt_misc, char_arg (CHR ''v''), char_arg (CHR ''c'')),
    (''--verbose_stat'', False, Opt_misc, char_arg (CHR ''v''), char_arg (CHR ''s'')),
    (''-vs'', False, Opt_misc, char_arg (CHR ''v''), char_arg (CHR ''s'')),
    (''--verbose_time'', False, Opt_misc, char_arg (CHR ''v''), char_arg (CHR ''t'')),
    (''-vt'', False, Opt_misc, char_arg (CHR ''v''), char_arg (CHR ''t'')),
    (''--verbose_used'', False, Opt_misc, char_arg (CHR ''v''), char_arg (CHR ''u'')),
    (''-vu'', False, Opt_misc, char_arg (CHR ''v''), char_arg (CHR ''u'')),
    (''--verbose_more'', False, Opt_misc, char_arg (CHR ''v''), char_arg (CHR ''v'')),
    (''-vv'', False, Opt_misc, char_arg (CHR ''v''), char_arg (CHR ''v'')),
    (''--verbose_more_conf'', False, Opt_misc, char_arg (CHR ''v''), char_arg (CHR ''c'')),
    (''-vC'', False, Opt_misc, char_arg (CHR ''v''), char_arg (CHR ''C'')),
    (''--verbose_more_stat'', False, Opt_misc, char_arg (CHR ''v''), char_arg (CHR ''s'')),
    (''-vS'', False, Opt_misc, char_arg (CHR ''v''), char_arg (CHR ''S'')),
    (''--verbose_more_time'', False, Opt_misc, char_arg (CHR ''v''), char_arg (CHR ''t'')),
    (''-vT'', False, Opt_misc, char_arg (CHR ''v''), char_arg (CHR ''T'')),
    (''--verbose_more_used'', False, Opt_misc, char_arg (CHR ''v''), char_arg (CHR ''u'')),
    (''-vU'', False, Opt_misc, char_arg (CHR ''v''), char_arg (CHR ''U'')),
    (''--version'', False, Opt_vers, no_arg, no_arg),
    (''-V'', False, Opt_vers, no_arg, no_arg),
    (''--wait'', False, Opt_misc, char_arg (CHR ''W''), no_arg),
    (''-W'', False, Opt_misc, char_arg (CHR ''W''), no_arg)]"

definition find_option :: "string \<Rightarrow> OPTION option" where
  "find_option name = find (\<lambda>(n, server_valid, func, arg1, arg2). name = n) Options"

text \<open>The table \<open>Tests\<close>, by name; a test is its index.\<close>

definition Tests :: "bool \<Rightarrow> string list" where
  "Tests ibverbs =
     [''conf'', ''quit'', ''rds_bw'', ''rds_lat'', ''sdp_bw'', ''sdp_lat'', ''tcp_bw'', ''tcp_lat'',
      ''udp_bw'', ''udp_lat''] @
     (if ibverbs then
        [''rc_bi_bw'', ''rc_bw'', ''rc_compare_swap_mr'', ''rc_fetch_add_mr'', ''rc_lat'',
         ''rc_rdma_read_bw'', ''rc_rdma_read_lat'', ''rc_rdma_write_bw'', ''rc_rdma_write_lat'',
         ''rc_rdma_write_poll_lat'', ''uc_bi_bw'', ''uc_bw'', ''uc_lat'', ''uc_rdma_write_bw'',
         ''uc_rdma_write_lat'', ''uc_rdma_write_poll_lat'', ''ud_bi_bw'', ''ud_bw'', ''ud_lat'',
         ''ver_rc_compare_swap'', ''ver_rc_fetch_add'']
      else [])"

definition find_test :: "env \<Rightarrow> string \<Rightarrow> string option" where
  "find_test e name = find (\<lambda>n. name = n) (Tests (env_HAVE_LIBIBVERBS e))"

text \<open>The conversion of a \<open>long\<close> to \<open>int\<close> and to \<open>uint32_t\<close>.\<close>

definition to_int :: "int \<Rightarrow> int" where
  "to_int l = sint (word_of_int l :: 32 word)"

definition to_u32 :: "int \<Rightarrow> 32 word" where
  "to_u32 l = word_of_int l"

text \<open>
  The option handlers.  Each gets the option and \<open>argv\<close>, which stands at the option,
  and returns the variables and the arguments still to read.
\<close>

definition opt_help :: "env \<Rightarrow> string list \<Rightarrow> fail + (globals \<times> string list)" where
  "opt_help e argv =
     (let category = (case argv of a0 # a1 # rest \<Rightarrow> a1 | _ \<Rightarrow> ''main'') in
      if category \<in> set (env_Usage e) then Inl (Exit 0)
      else Inl (ErrorDie ''Cannot find help category %s; try: qperf --help''))"

definition opt_vers :: "fail + (globals \<times> string list)" where
  "opt_vers = Inl (Exit 0)"

definition set_both_u32 :: "OPTION \<Rightarrow> int \<Rightarrow> globals \<Rightarrow> fail + globals" where
  "set_both_u32 option l g =
     (case option of (name, server_valid, func, arg1, arg2) \<Rightarrow>
        and_then (setp_u32 (Some name) arg1 (to_u32 l) (Pars g)) (\<lambda>tab.
        and_then (setp_u32 (Some name) arg2 (to_u32 l) tab) (\<lambda>tab.
        Inr (g\<lparr>Pars := tab\<rparr>))))"

definition opt_long :: "OPTION \<Rightarrow> string list \<Rightarrow> globals \<Rightarrow> fail + (globals \<times> string list)" where
  "opt_long option argv g =
     and_then (arg_long argv) (\<lambda>(l, rest).
     and_then (set_both_u32 option l g) (\<lambda>g. Inr (g, rest)))"

definition opt_size :: "env \<Rightarrow> OPTION \<Rightarrow> string list \<Rightarrow> globals \<Rightarrow> fail + (globals \<times> string list)" where
  "opt_size e option argv g =
     and_then (arg_size (env_rnd e) argv) (\<lambda>(l, rest).
     and_then (set_both_u32 option l g) (\<lambda>g. Inr (g, rest)))"

definition opt_time :: "env \<Rightarrow> OPTION \<Rightarrow> string list \<Rightarrow> globals \<Rightarrow> fail + (globals \<times> string list)" where
  "opt_time e option argv g =
     and_then (arg_time (env_rnd e) argv) (\<lambda>(l, rest).
     and_then (set_both_u32 option l g) (\<lambda>g. Inr (g, rest)))"

definition opt_strn :: "env \<Rightarrow> OPTION \<Rightarrow> string list \<Rightarrow> globals \<Rightarrow> fail + (globals \<times> string list)" where
  "opt_strn e option argv g =
     (case option of (name, server_valid, func, arg1, arg2) \<Rightarrow>
        and_then (arg_strn argv) (\<lambda>(s, rest).
        and_then (setp_str (env_STRSIZE e) (Some name) arg1 s (Pars g)) (\<lambda>tab.
        and_then (setp_str (env_STRSIZE e) (Some name) arg2 s tab) (\<lambda>tab.
        Inr (g\<lparr>Pars := tab\<rparr>, rest)))))"

text \<open>
  The macro \<open>with(c)\<close> is \<open>|(c<<8)\<close>: \<open>a with (c)\<close> is \<open>with_c a c\<close>.
\<close>

definition with_c :: "nat \<Rightarrow> nat \<Rightarrow> nat" where
  "with_c a c = a OR push_bit 8 c"

text \<open>
  \<open>opt_misc\<close> switches on \<open>option->arg1 with (option->arg2)\<close>.  The cases that \<open>break\<close>
  move \<open>argv\<close> one entry on.
\<close>

definition opt_misc :: "env \<Rightarrow> OPTION \<Rightarrow> string list \<Rightarrow> globals \<Rightarrow> fail + (globals \<times> string list)" where
  "opt_misc e option argv g =
     (case option of (name, server_valid, func, arg1, arg2) \<Rightarrow>
        let sw = with_c arg1 arg2;
            break = (\<lambda>g. Inr (g, tl argv))
        in if sw = char_arg (CHR ''e'')
           then and_then (arg_long argv) (\<lambda>(l, rest). Inr (g\<lparr>Precision := to_int l\<rparr>, rest))
           else if sw = char_arg (CHR ''u'') then break (g\<lparr>UnifyUnits := 1\<rparr>)
           else if sw = char_arg (CHR ''v'')
           then break (g\<lparr>VerboseConf := 1, VerboseStat := 1, VerboseTime := 1, VerboseUsed := 1\<rparr>)
           else if sw = char_arg (CHR ''D'') then break (g\<lparr>Debug := 1\<rparr>)
           else if sw = char_arg (CHR ''H'')
           then and_then (arg_strn argv) (\<lambda>(s, rest). Inr (g\<lparr>ServerName := Some s\<rparr>, rest))
           else if sw = char_arg (CHR ''U'') then break (g\<lparr>UnifyNodes := 1\<rparr>)
           else if sw = char_arg (CHR ''W'')
           then and_then (arg_time (env_rnd e) argv) (\<lambda>(l, rest). Inr (g\<lparr>Wait := to_int l\<rparr>, rest))
           else if sw = with_c (char_arg (CHR ''l'')) (char_arg (CHR ''p''))
           then and_then (arg_long argv) (\<lambda>(l, rest). Inr (g\<lparr>ListenPort := to_int l\<rparr>, rest))
           else if sw = with_c (char_arg (CHR ''s'')) (char_arg (CHR ''t''))
           then and_then (arg_time (env_rnd e) argv)
                  (\<lambda>(l, rest). Inr (g\<lparr>ServerTimeout := to_int l\<rparr>, rest))
           else if sw = with_c (char_arg (CHR ''v'')) (char_arg (CHR ''c''))
           then break (g\<lparr>VerboseConf := 1\<rparr>)
           else if sw = with_c (char_arg (CHR ''v'')) (char_arg (CHR ''s''))
           then break (g\<lparr>VerboseStat := 1\<rparr>)
           else if sw = with_c (char_arg (CHR ''v'')) (char_arg (CHR ''t''))
           then break (g\<lparr>VerboseTime := 1\<rparr>)
           else if sw = with_c (char_arg (CHR ''v'')) (char_arg (CHR ''u''))
           then break (g\<lparr>VerboseUsed := 1\<rparr>)
           else if sw = with_c (char_arg (CHR ''v'')) (char_arg (CHR ''v''))
           then break (g\<lparr>VerboseConf := 2, VerboseStat := 2, VerboseTime := 2, VerboseUsed := 2\<rparr>)
           else if sw = with_c (char_arg (CHR ''v'')) (char_arg (CHR ''C''))
           then break (g\<lparr>VerboseConf := 2\<rparr>)
           else if sw = with_c (char_arg (CHR ''v'')) (char_arg (CHR ''S''))
           then break (g\<lparr>VerboseStat := 2\<rparr>)
           else if sw = with_c (char_arg (CHR ''v'')) (char_arg (CHR ''T''))
           then break (g\<lparr>VerboseTime := 2\<rparr>)
           else if sw = with_c (char_arg (CHR ''v'')) (char_arg (CHR ''U''))
           then break (g\<lparr>VerboseUsed := 2\<rparr>)
           else Inl (BugDie (''opt_misc: unknown argument: '' @ name)))"

text \<open>The call \<open>option->func(option, &args)\<close>.\<close>

definition call_option :: "env \<Rightarrow> OPTION \<Rightarrow> string list \<Rightarrow> globals \<Rightarrow> fail + (globals \<times> string list)" where
  "call_option e option argv g =
     (case option of (name, server_valid, func, arg1, arg2) \<Rightarrow>
        (case func of
           Opt_help \<Rightarrow> opt_help e argv
         | Opt_misc \<Rightarrow> opt_misc e option argv g
         | Opt_strn \<Rightarrow> opt_strn e option argv g
         | Opt_long \<Rightarrow> opt_long option argv g
         | Opt_size \<Rightarrow> opt_size e option argv g
         | Opt_time \<Rightarrow> opt_time e option argv g
         | Opt_vers \<Rightarrow> opt_vers))"

text \<open>
  What a test does when \<open>client\<close> runs it, as far as \<open>client\<close> and \<open>main\<close> can tell (the
  tests are in other files): whether \<open>sched_setaffinity\<close> fails if \<open>set_affinity\<close> calls
  it, and whether the client function of the test leaves the process with a status, or
  returns with a value of \<open>Successful\<close> and the parameter table changed in some way.
\<close>

datatype test_body = Exits int | Returns bool "PAR_INFO list \<Rightarrow> PAR_INFO list"

record run =
  sched_setaffinity_fails :: bool
  body :: test_body

text \<open>
  \<open>client\<close>.  \<open>Req.affinity\<close> is the object of slot \<open>L_AFFINITY\<close>.  What is printed and
  what is sent is left out.
\<close>

definition client :: "run \<Rightarrow> string \<Rightarrow> globals \<Rightarrow> fail + globals" where
  "client r test g =
     and_then (client_pars (Pars g)) (\<lambda>tab.
       if par_ptr (tab ! L_AFFINITY) \<noteq> U32 0 \<and> sched_setaffinity_fails r
       then Inl (SysErrorDie ''Cannot set processor affinity'')
       else (case body r of
               Exits status \<Rightarrow> Inl (Exit status)
             | Returns Successful change \<Rightarrow>
                 Inr (g\<lparr>Pars := change tab, TestName := Some test,
                        ExitStatus := (if \<not> Successful then 1 else ExitStatus g),
                        Ran := Ran g @ [Successful]\<rparr>)))"

text \<open>
  Every handler that returns has moved \<open>argv\<close> on, by one entry or by two; the loop of
  \<open>do_args\<close> ends for that reason.
\<close>

lemma and_then_InrD: "and_then x f = Inr b \<Longrightarrow> \<exists>a. x = Inr a \<and> f a = Inr b"
  by (cases x) (simp_all add: and_then_def)

lemma arg_long_shorter: "arg_long argv = Inr (l, rest) \<Longrightarrow> length rest < length argv"
  by (auto simp add: arg_long_def Let_def split: list.splits if_splits prod.splits)

lemma arg_strn_shorter: "arg_strn argv = Inr (l, rest) \<Longrightarrow> length rest < length argv"
  by (auto simp add: arg_strn_def split: list.splits)

lemma and_then_rest: "and_then x (\<lambda>l. Inr (l, r)) = Inr (l', rest) \<Longrightarrow> rest = r"
  by (cases x) (simp_all add: and_then_def)

lemma arg_size_shorter: "arg_size r argv = Inr (l, rest) \<Longrightarrow> length rest < length argv"
proof -
  assume a: "arg_size r argv = Inr (l, rest)"
  then obtain a0 a1 t where v: "argv = a0 # a1 # t"
    by (cases argv; cases "tl argv") (simp_all add: arg_size_def)
  from a obtain d p where s: "strtold r a1 = Some (d, p)"
    by (cases "strtold r a1") (auto simp add: arg_size_def v)
  have nd: "\<not> d < 0"
  proof
    assume "d < 0"
    then show False using a by (simp add: arg_size_def v s)
  qed
  from a nd have "\<exists>x. and_then x (\<lambda>l. Inr (l, t)) = Inr (l, rest)"
    by (simp only: arg_size_def v list.case s option.case prod.case if_False) (rule exI)
  then obtain x where "and_then x (\<lambda>l. Inr (l, t)) = Inr (l, rest)" ..
  then have "rest = t" by (rule and_then_rest)
  then show ?thesis by (simp add: v)
qed

lemma arg_time_shorter: "arg_time r argv = Inr (l, rest) \<Longrightarrow> length rest < length argv"
proof -
  assume a: "arg_time r argv = Inr (l, rest)"
  then obtain a0 a1 t where v: "argv = a0 # a1 # t"
    by (cases argv; cases "tl argv") (simp_all add: arg_time_def)
  from a obtain d p where s: "strtold r a1 = Some (d, p)"
    by (cases "strtold r a1") (auto simp add: arg_time_def v)
  have nd: "\<not> d < 0"
  proof
    assume "d < 0"
    then show False using a by (simp add: arg_time_def v s)
  qed
  from a nd have "\<exists>x. and_then x (\<lambda>l. Inr (l, t)) = Inr (l, rest)"
    by (simp only: arg_time_def v list.case s option.case prod.case if_False) (rule exI)
  then obtain x where "and_then x (\<lambda>l. Inr (l, t)) = Inr (l, rest)" ..
  then have "rest = t" by (rule and_then_rest)
  then show ?thesis by (simp add: v)
qed

lemma opt_misc_shorter:
  assumes "opt_misc e option argv g = Inr (g', rest)" "argv \<noteq> []"
  shows "length rest < length argv"
proof -
  obtain name sv func arg1 arg2 where o: "option = (name, sv, func, arg1, arg2)"
    by (cases option)
  have t: "length argv - Suc 0 < length argv" using assms(2) by (cases argv) simp_all
  from assms(1) show ?thesis
    unfolding opt_misc_def o prod.case Let_def
    by (auto split: if_splits dest!: and_then_InrD
          dest: arg_long_shorter arg_strn_shorter arg_time_shorter simp add: t)
qed

lemma call_option_shorter:
  assumes "call_option e option argv g = Inr (g', rest)" "argv \<noteq> []"
  shows "length rest < length argv"
proof -
  obtain name sv func arg1 arg2 where o: "option = (name, sv, func, arg1, arg2)"
    by (cases option)
  show ?thesis
  proof (cases func)
    case Opt_help
    then show ?thesis using assms(1) by (simp add: call_option_def o opt_help_def Let_def split: if_splits)
  next
    case Opt_misc
    then show ?thesis using assms opt_misc_shorter by (simp add: call_option_def o)
  next
    case Opt_strn
    then show ?thesis using assms(1)
      by (auto simp add: call_option_def o opt_strn_def dest!: and_then_InrD dest: arg_strn_shorter)
  next
    case Opt_long
    then show ?thesis using assms(1)
      by (auto simp add: call_option_def o opt_long_def dest!: and_then_InrD dest: arg_long_shorter)
  next
    case Opt_size
    then show ?thesis using assms(1)
      by (auto simp add: call_option_def o opt_size_def dest!: and_then_InrD dest: arg_size_shorter)
  next
    case Opt_time
    then show ?thesis using assms(1)
      by (auto simp add: call_option_def o opt_time_def dest!: and_then_InrD dest: arg_time_shorter)
  next
    case Opt_vers
    then show ?thesis using assms(1) by (simp add: call_option_def o opt_vers_def)
  qed
qed

text \<open>
  The loop \<open>while (*args)\<close> of \<open>do_args\<close>, with the local variables \<open>isClient\<close> and
  \<open>testSpecified\<close>; \<open>runs\<close> holds what the tests still to run will do.  It returns the two
  local variables with the variables of the program.
\<close>

function do_args_loop :: "env \<Rightarrow> run list \<Rightarrow> bool \<Rightarrow> bool \<Rightarrow> globals \<Rightarrow> string list
    \<Rightarrow> fail + (bool \<times> bool \<times> globals)" where
  "do_args_loop e runs isClient testSpecified g [] = Inr (isClient, testSpecified, g)"
| "do_args_loop e runs isClient testSpecified g (arg # args) =
     (if deref arg = CHR ''-'' then
        (case find_option arg of
           None \<Rightarrow> Inl (ErrorDie (arg @ '': bad option; try qperf --help''))
         | Some option \<Rightarrow>
             (case call_option e option (arg # args) g of
                Inl x \<Rightarrow> Inl x
              | Inr (g', args') \<Rightarrow>
                  do_args_loop e runs (isClient \<or> \<not> fst (snd option)) testSpecified g' args'))
      else if ServerName g = None
      then do_args_loop e runs True testSpecified (g\<lparr>ServerName := Some arg\<rparr>) args
      else
        (case find_test e arg of
           None \<Rightarrow> Inl (ErrorDie (arg @ '': bad test; try qperf --help''))
         | Some p \<Rightarrow>
             (case runs of
                [] \<Rightarrow> Inl NoReturn
              | r # runs' \<Rightarrow>
                  (case client r p g of
                     Inl x \<Rightarrow> Inl x
                   | Inr g' \<Rightarrow> do_args_loop e runs' True True g' args))))"
  by pat_completeness auto
termination
proof (relation "measure (\<lambda>(e, runs, isClient, testSpecified, g, args). length args)")
  show "wf (measure (\<lambda>(e, runs, isClient, testSpecified, g, args). length args))" by simp
qed (auto dest: call_option_shorter)

declare do_args_loop.simps [simp del]

definition do_args :: "env \<Rightarrow> run list \<Rightarrow> globals \<Rightarrow> string list \<Rightarrow> fail + globals" where
  "do_args e runs g args =
     and_then (do_args_loop e runs False False g args) (\<lambda>(isClient, testSpecified, g).
       if \<not> isClient then Inl NoReturn
       else if \<not> testSpecified then
         (case ServerName g of
            None \<Rightarrow> Inl (ErrorDie ''You used a client only option but did not specify the server name.'')
          | Some name \<Rightarrow>
              if find_test e name \<noteq> None
              then Inl (ErrorDie ''Must specify host name first; try qperf --help'')
              else Inl (ErrorDie ''Must specify a test type; try qperf --help''))
       else Inr g)"

text \<open>
  \<open>main\<close>: \<open>init_vars\<close> checks the order of \<open>ParInfo\<close> and opens \<open>/proc/stat\<close>;
  \<open>do_args\<close> gets the arguments behind the name of the program; the value returned is
  \<open>ExitStatus\<close>.  With it the model returns \<open>Ran\<close>.
\<close>

definition main :: "env \<Rightarrow> run list \<Rightarrow> string list \<Rightarrow> fail + (int \<times> bool list)" where
  "main e runs argv =
     (if \<not> in_order ParInfo then Inl (BugDie ''initialize: ParInfo: out of order'')
      else if \<not> env_proc_stat_opens e then Inl (SysErrorDie ''Cannot open /proc/stat'')
      else and_then (do_args e runs initial (tl argv)) (\<lambda>g. Inr (ExitStatus g, Ran g)))"

text \<open>The status with which the process ends, when it ends.\<close>

definition exit_status :: "fail + (int \<times> bool list) \<Rightarrow> int option" where
  "exit_status res =
     (case res of
        Inr (status, flags) \<Rightarrow> Some status
      | Inl (ErrorDie m) \<Rightarrow> Some 1
      | Inl (SysErrorDie m) \<Rightarrow> Some 1
      | Inl (BugDie m) \<Rightarrow> Some 1
      | Inl (Exit status) \<Rightarrow> Some status
      | Inl other \<Rightarrow> None)"

text \<open>
  An environment and two runs for the examples: a test that returns with \<open>Successful\<close>
  set and one that returns with it clear, neither changing the parameter table.
\<close>

definition example_env :: env where
  "example_env = \<lparr>env_rnd = (\<lambda>x. x), env_STRSIZE = 64, env_HAVE_LIBIBVERBS = False,
     env_Usage = [''main''], env_proc_stat_opens = True\<rparr>"

definition run_ok :: run where
  "run_ok = \<lparr>sched_setaffinity_fails = False, body = Returns True (\<lambda>tab. tab)\<rparr>"

definition run_failed :: run where
  "run_failed = \<lparr>sched_setaffinity_fails = False, body = Returns False (\<lambda>tab. tab)\<rparr>"

text \<open>
  What holds of \<open>ExitStatus\<close> all through the loop of \<open>do_args\<close>: it is 1 exactly when
  some test has returned with \<open>Successful\<close> clear; and a test has returned when
  \<open>testSpecified\<close> is set.
\<close>

definition status_inv :: "bool \<Rightarrow> globals \<Rightarrow> bool" where
  "status_inv testSpecified g =
     (ExitStatus g = (if list_all (\<lambda>b. b) (Ran g) then 0 else 1) \<and>
      (testSpecified \<longrightarrow> Ran g \<noteq> []))"

section \<open>The parameter table: properties\<close>

lemma in_order_length: "in_order tab \<Longrightarrow> length tab = P_N"
proof -
  assume "in_order tab"
  then have "length (map par_index tab) = length [0..<P_N]" by (simp add: in_order_def)
  then show ?thesis by simp
qed

lemma in_order_index: "in_order tab \<Longrightarrow> i < P_N \<Longrightarrow> par_index (tab ! i) = i"
proof -
  assume a: "in_order tab" and b: "i < P_N"
  have "par_index (tab ! i) = map par_index tab ! i"
    using in_order_length[OF a] b by simp
  also have "\<dots> = [0..<P_N] ! i" using a by (simp add: in_order_def)
  also have "\<dots> = i" using b by (simp del: upt_Suc)
  finally show ?thesis .
qed

lemma ParInfo_length: "length ParInfo = P_N"
  by (simp add: ParInfo_def)

lemma in_order_ParInfo: "in_order ParInfo"
  by (simp add: in_order_def ParInfo_def mk_par_def upt_rec)

lemma par_info_ok: "in_order tab \<Longrightarrow> i < P_N \<Longrightarrow> par_info tab i = Inr (tab ! i)"
  by (simp add: par_info_def in_order_length in_order_index)

lemma in_order_update:
  assumes "in_order tab" "par_index p = par_index (tab ! i)"
  shows "in_order (tab[i := p])"
proof -
  have "map par_index (tab[i := p]) = (map par_index tab)[i := par_index (tab ! i)]"
    using assms(2) by (simp add: map_update)
  also have "\<dots> = map par_index tab"
    by (cases "i < length tab") (simp_all add: list_update_same_conv list_update_beyond)
  finally show ?thesis using assms(1) by (simp add: in_order_def)
qed

lemma setp_u32_named:
  assumes "in_order tab" "i < P_N" "i \<noteq> P_NULL"
  shows "setp_u32 (Some n) i l tab
           = Inr (tab[i := (tab ! i)\<lparr>par_name := Some n, par_set := True, par_ptr := U32 l\<rparr>])"
  using assms
  by (simp add: setp_u32_def par_set_def par_info_ok store_def in_order_length)

lemma setp_str_named:
  assumes "in_order tab" "i < P_N" "i \<noteq> P_NULL"
  shows "setp_str sz (Some n) i s tab
           = (if sz \<le> length s then Inl (ErrorDie (s @ '': too long''))
              else Inr (tab[i := (tab ! i)\<lparr>par_name := Some n, par_set := True, par_ptr := Str s\<rparr>]))"
  using assms
  by (simp add: setp_str_def par_set_def par_info_ok store_def in_order_length)

lemma setp_u32_default:
  assumes "in_order tab" "i < P_N" "i \<noteq> P_NULL"
  shows "setp_u32 None i l tab
           = Inr (tab[i := (tab ! i)\<lparr>par_used := True, par_inuse := True,
               par_ptr := (if par_name (tab ! i) = None then U32 l else par_ptr (tab ! i))\<rparr>])"
  using assms
  by (simp add: setp_u32_def par_set_def par_info_ok store_def in_order_length)

lemma setp_str_default:
  assumes "in_order tab" "i < P_N" "i \<noteq> P_NULL"
  shows "setp_str sz None i s tab
           = (if par_name (tab ! i) = None \<and> sz \<le> length s then Inl (ErrorDie (s @ '': too long''))
              else Inr (tab[i := (tab ! i)\<lparr>par_used := True, par_inuse := True,
               par_ptr := (if par_name (tab ! i) = None then Str s else par_ptr (tab ! i))\<rparr>]))"
  using assms
  by (simp add: setp_str_def par_set_def par_info_ok store_def in_order_length)

lemma setp_null:
  assumes "in_order tab"
  shows "setp_u32 name P_NULL l tab = Inr tab" "setp_str sz name P_NULL s tab = Inr tab"
  using assms
  by (simp_all add: setp_u32_def setp_str_def par_set_def par_info_ok)

lemma in_order_clear: "in_order tab \<Longrightarrow> in_order (map (\<lambda>p. p\<lparr>par_inuse := False\<rparr>) tab)"
  by (simp add: in_order_def comp_def)

lemma par_use_ok:
  assumes "in_order tab" "i < P_N"
  shows "par_use i tab = Inr (tab[i := (tab ! i)\<lparr>par_used := True, par_inuse := True\<rparr>])"
  using assms by (simp add: par_use_def par_info_ok)

lemma par_isset_ok:
  assumes "in_order tab" "i < P_N"
  shows "par_isset i tab = Inr (par_name (tab ! i) \<noteq> None)"
  using assms by (simp add: par_isset_def par_info_ok)

lemma and_then_Inr [simp]: "and_then (Inr a) f = f a"
  by (simp add: and_then_def)

lemma and_then_Inl [simp]: "and_then (Inl e) f = Inl e"
  by (simp add: and_then_def)

text \<open>
  C6: at the start of a client test, when neither \<open>L_NO_MSGS\<close> nor \<open>R_NO_MSGS\<close> was set
  by the user (\<open>par_isset\<close>: the slot carries no option name), \<open>client\<close> gives both
  \<open>TIME\<close> slots the default of 2 seconds and both \<open>TIMEOUT\<close> slots the default of 5
  seconds.  They are defaults: each is assigned with a null option name, so the slot
  holds it afterwards unless the user set that slot, whose value then stays.
\<close>

theorem client_defaults:
  assumes ord: "in_order tab"
    and l: "par_name (tab ! L_NO_MSGS) = None" and r: "par_name (tab ! R_NO_MSGS) = None"
  shows "\<exists>tab'. client_pars tab = Inr tab' \<and>
     par_ptr (tab' ! L_TIME) = (if par_name (tab ! L_TIME) = None then U32 2 else par_ptr (tab ! L_TIME)) \<and>
     par_ptr (tab' ! R_TIME) = (if par_name (tab ! R_TIME) = None then U32 2 else par_ptr (tab ! R_TIME)) \<and>
     par_ptr (tab' ! L_TIMEOUT) = (if par_name (tab ! L_TIMEOUT) = None then U32 5 else par_ptr (tab ! L_TIMEOUT)) \<and>
     par_ptr (tab' ! R_TIMEOUT) = (if par_name (tab ! R_TIMEOUT) = None then U32 5 else par_ptr (tab ! R_TIMEOUT))"
proof -
  define t0 where "t0 = map (\<lambda>p. p\<lparr>par_inuse := False\<rparr>) tab"
  have len: "length tab = P_N" using ord by (rule in_order_length)
  have o0: "in_order t0" unfolding t0_def using ord by (rule in_order_clear)
  have n0: "\<And>i. i < P_N \<Longrightarrow> par_name (t0 ! i) = par_name (tab ! i)"
    and p0: "\<And>i. i < P_N \<Longrightarrow> par_ptr (t0 ! i) = par_ptr (tab ! i)"
    by (simp_all add: t0_def len)
  define t1 where "t1 = t0[L_TIME := (t0 ! L_TIME)\<lparr>par_used := True, par_inuse := True,
      par_ptr := (if par_name (t0 ! L_TIME) = None then U32 2 else par_ptr (t0 ! L_TIME))\<rparr>]"
  have s1: "setp_u32 None L_TIME 2 t0 = Inr t1"
    unfolding t1_def by (rule setp_u32_default[OF o0]) simp_all
  have o1: "in_order t1" unfolding t1_def by (rule in_order_update[OF o0]) simp
  define t2 where "t2 = t1[R_TIME := (t1 ! R_TIME)\<lparr>par_used := True, par_inuse := True,
      par_ptr := (if par_name (t1 ! R_TIME) = None then U32 2 else par_ptr (t1 ! R_TIME))\<rparr>]"
  have s2: "setp_u32 None R_TIME 2 t1 = Inr t2"
    unfolding t2_def by (rule setp_u32_default[OF o1]) simp_all
  have o2: "in_order t2" unfolding t2_def by (rule in_order_update[OF o1]) simp
  define t3 where "t3 = t2[L_TIMEOUT := (t2 ! L_TIMEOUT)\<lparr>par_used := True, par_inuse := True,
      par_ptr := (if par_name (t2 ! L_TIMEOUT) = None then U32 5 else par_ptr (t2 ! L_TIMEOUT))\<rparr>]"
  have s3: "setp_u32 None L_TIMEOUT 5 t2 = Inr t3"
    unfolding t3_def by (rule setp_u32_default[OF o2]) simp_all
  have o3: "in_order t3" unfolding t3_def by (rule in_order_update[OF o2]) simp
  define t4 where "t4 = t3[R_TIMEOUT := (t3 ! R_TIMEOUT)\<lparr>par_used := True, par_inuse := True,
      par_ptr := (if par_name (t3 ! R_TIMEOUT) = None then U32 5 else par_ptr (t3 ! R_TIMEOUT))\<rparr>]"
  have s4: "setp_u32 None R_TIMEOUT 5 t3 = Inr t4"
    unfolding t4_def by (rule setp_u32_default[OF o3]) simp_all
  have o4: "in_order t4" unfolding t4_def by (rule in_order_update[OF o3]) simp
  define t5 where "t5 = t4[L_AFFINITY := (t4 ! L_AFFINITY)\<lparr>par_used := True, par_inuse := True\<rparr>]"
  have s5: "par_use L_AFFINITY t4 = Inr t5" unfolding t5_def by (rule par_use_ok[OF o4]) simp
  have o5: "in_order t5" unfolding t5_def by (rule in_order_update[OF o4]) simp
  define t6 where "t6 = t5[R_AFFINITY := (t5 ! R_AFFINITY)\<lparr>par_used := True, par_inuse := True\<rparr>]"
  have s6: "par_use R_AFFINITY t5 = Inr t6" unfolding t6_def by (rule par_use_ok[OF o5]) simp
  have o6: "in_order t6" unfolding t6_def by (rule in_order_update[OF o5]) simp
  define t7 where "t7 = t6[L_TIME := (t6 ! L_TIME)\<lparr>par_used := True, par_inuse := True\<rparr>]"
  have s7: "par_use L_TIME t6 = Inr t7" unfolding t7_def by (rule par_use_ok[OF o6]) simp
  have o7: "in_order t7" unfolding t7_def by (rule in_order_update[OF o6]) simp
  define t8 where "t8 = t7[R_TIME := (t7 ! R_TIME)\<lparr>par_used := True, par_inuse := True\<rparr>]"
  have s8: "par_use R_TIME t7 = Inr t8" unfolding t8_def by (rule par_use_ok[OF o7]) simp
  have i1: "par_isset L_NO_MSGS t0 = Inr False"
    using par_isset_ok[OF o0, of L_NO_MSGS] l n0[of L_NO_MSGS] by simp
  have "par_name (t1 ! R_NO_MSGS) = None"
    using r n0[of R_NO_MSGS] by (simp add: t1_def)
  then have i2: "par_isset R_NO_MSGS t1 = Inr False"
    using par_isset_ok[OF o1, of R_NO_MSGS] by simp
  have run: "client_pars tab = Inr t8"
    unfolding client_pars_def Let_def t0_def[symmetric]
    by (simp add: i1 s1 i2 s2 s3 s4 s5 s6 s7 s8)
  have ln: "length t0 = P_N" using o0 by (rule in_order_length)
  have "par_ptr (t8 ! L_TIME) = (if par_name (tab ! L_TIME) = None then U32 2 else par_ptr (tab ! L_TIME))"
    using n0[of L_TIME] p0[of L_TIME]
    by (simp add: t8_def t7_def t6_def t5_def t4_def t3_def t2_def t1_def ln)
  moreover have "par_ptr (t8 ! R_TIME) = (if par_name (tab ! R_TIME) = None then U32 2 else par_ptr (tab ! R_TIME))"
    using n0[of R_TIME] p0[of R_TIME]
    by (simp add: t8_def t7_def t6_def t5_def t4_def t3_def t2_def t1_def ln)
  moreover have "par_ptr (t8 ! L_TIMEOUT) = (if par_name (tab ! L_TIMEOUT) = None then U32 5 else par_ptr (tab ! L_TIMEOUT))"
    using n0[of L_TIMEOUT] p0[of L_TIMEOUT]
    by (simp add: t8_def t7_def t6_def t5_def t4_def t3_def t2_def t1_def ln)
  moreover have "par_ptr (t8 ! R_TIMEOUT) = (if par_name (tab ! R_TIMEOUT) = None then U32 5 else par_ptr (tab ! R_TIMEOUT))"
    using n0[of R_TIMEOUT] p0[of R_TIMEOUT]
    by (simp add: t8_def t7_def t6_def t5_def t4_def t3_def t2_def t1_def ln)
  ultimately show ?thesis using run by simp
qed


theorem client_defaults_witness:
  "in_order ParInfo \<and> par_name (ParInfo ! L_NO_MSGS) = None \<and> par_name (ParInfo ! R_NO_MSGS) = None \<and>
   (\<exists>tab'. client_pars ParInfo = Inr tab' \<and>
      par_ptr (tab' ! L_TIME) = U32 2 \<and> par_ptr (tab' ! R_TIME) = U32 2 \<and>
      par_ptr (tab' ! L_TIMEOUT) = U32 5 \<and> par_ptr (tab' ! R_TIMEOUT) = U32 5)"
proof -
  have n: "par_name (ParInfo ! L_NO_MSGS) = None" "par_name (ParInfo ! R_NO_MSGS) = None"
    by (simp_all add: ParInfo_def mk_par_def)
  have m: "par_name (ParInfo ! L_TIME) = None" "par_name (ParInfo ! R_TIME) = None"
    "par_name (ParInfo ! L_TIMEOUT) = None" "par_name (ParInfo ! R_TIMEOUT) = None"
    by (simp_all add: ParInfo_def mk_par_def)
  from client_defaults[OF in_order_ParInfo n] m n in_order_ParInfo show ?thesis
    by simp
qed

text \<open>
  C1, as the claim states it, fails.  \<open>par_set\<close> has no test of \<open>p->name\<close> on the branch
  for a non-null name: \<open>qperf -m 1 -m 2\<close> calls \<open>setp_u32("-m", L_MSG_SIZE, 1)\<close> and then
  \<open>setp_u32("-m", L_MSG_SIZE, 2)\<close>; the second call finds the name recorded and stores
  all the same.  Below the first assignment is made under the long name of the option,
  so that the two names can be told apart.
\<close>

theorem setp_first_wins_counterexample:
  "(case setp_u32 (Some ''--msg_size'') L_MSG_SIZE 1 ParInfo of
      Inl e \<Rightarrow> False
    | Inr t1 \<Rightarrow>
        par_name (t1 ! L_MSG_SIZE) = Some ''--msg_size'' \<and> par_ptr (t1 ! L_MSG_SIZE) = U32 1 \<and>
        (case setp_u32 (Some ''-m'') L_MSG_SIZE 2 t1 of
           Inl e \<Rightarrow> False
         | Inr t2 \<Rightarrow> par_name (t2 ! L_MSG_SIZE) = Some ''-m'' \<and> par_ptr (t2 ! L_MSG_SIZE) = U32 2))"
proof -
  let ?t1 = "ParInfo[L_MSG_SIZE := (ParInfo ! L_MSG_SIZE)\<lparr>par_name := Some ''--msg_size'', par_set := True, par_ptr := U32 1\<rparr>]"
  have o1: "in_order ?t1" by (rule in_order_update[OF in_order_ParInfo]) simp
  have a: "setp_u32 (Some ''--msg_size'') L_MSG_SIZE 1 ParInfo = Inr ?t1"
    by (rule setp_u32_named[OF in_order_ParInfo]) simp_all
  have b: "setp_u32 (Some ''-m'') L_MSG_SIZE 2 ?t1
        = Inr (?t1[L_MSG_SIZE := (?t1 ! L_MSG_SIZE)\<lparr>par_name := Some ''-m'', par_set := True, par_ptr := U32 2\<rparr>])"
    by (rule setp_u32_named[OF o1]) simp_all
  show ?thesis
    by (simp only: a b sum.case) (simp add: ParInfo_length)
qed

text \<open>
  C1, amended: a call of \<open>setp_u32\<close> or \<open>setp_str\<close> with a non-null option name, on a
  parameter other than \<open>P_NULL\<close>, records the name, sets the \<open>set\<close> flag and stores the
  value, whatever the slot held before: the last assignment wins.  (\<open>setp_str\<close> dies
  instead, with "too long", on a string of \<open>STRSIZE\<close> characters or more.)  A call on
  \<open>P_NULL\<close>, the index of no parameter, changes nothing.
\<close>

theorem setp_last_wins:
  assumes "in_order tab" "i < P_N" "i \<noteq> P_NULL"
  shows "setp_u32 (Some n) i l tab
           = Inr (tab[i := (tab ! i)\<lparr>par_name := Some n, par_set := True, par_ptr := U32 l\<rparr>]) \<and>
         setp_str sz (Some n) i s tab
           = (if sz \<le> length s then Inl (ErrorDie (s @ '': too long''))
              else Inr (tab[i := (tab ! i)\<lparr>par_name := Some n, par_set := True, par_ptr := Str s\<rparr>])) \<and>
         setp_u32 (Some n) P_NULL l tab = Inr tab \<and>
         setp_str sz (Some n) P_NULL s tab = Inr tab"
  using setp_u32_named[OF assms] setp_str_named[OF assms] setp_null[OF assms(1)]
  by simp

theorem setp_last_wins_witness:
  "in_order ParInfo \<and> L_MSG_SIZE < P_N \<and> L_MSG_SIZE \<noteq> P_NULL \<and>
   setp_u32 (Some ''-m'') L_MSG_SIZE 2 ParInfo
     = Inr (ParInfo[L_MSG_SIZE := (ParInfo ! L_MSG_SIZE)\<lparr>par_name := Some ''-m'', par_set := True, par_ptr := U32 2\<rparr>])"
proof -
  have a: "L_MSG_SIZE < P_N" "L_MSG_SIZE \<noteq> P_NULL" by simp_all
  from setp_last_wins[OF in_order_ParInfo a] in_order_ParInfo a show ?thesis
    by blast
qed

text \<open>
  C10: a call of \<open>setp_u32\<close> or \<open>setp_str\<close> with a null option name (a default supplied
  by the program), on a parameter other than \<open>P_NULL\<close>, sets the slot's \<open>used\<close> and
  \<open>inuse\<close> flags, and when the slot carries an option name the value it holds is left
  as it was.  \<open>setp_str\<close> returns unless the slot carries no name and the string has
  \<open>STRSIZE\<close> characters or more, where it dies.  (\<open>P_NULL\<close> addresses no parameter:
  \<open>par_set\<close> returns at once.)
\<close>

theorem setp_default_keeps_user_value:
  assumes "in_order tab" "i < P_N" "i \<noteq> P_NULL"
  shows "(\<exists>tab'. setp_u32 None i l tab = Inr tab' \<and>
            par_used (tab' ! i) \<and> par_inuse (tab' ! i) \<and>
            (par_name (tab ! i) \<noteq> None \<longrightarrow> par_ptr (tab' ! i) = par_ptr (tab ! i))) \<and>
         (case setp_str sz None i s tab of
            Inl e \<Rightarrow> par_name (tab ! i) = None \<and> sz \<le> length s
          | Inr tab' \<Rightarrow>
              par_used (tab' ! i) \<and> par_inuse (tab' ! i) \<and>
              (par_name (tab ! i) \<noteq> None \<longrightarrow> par_ptr (tab' ! i) = par_ptr (tab ! i)))"
proof -
  have len: "i < length tab" using assms(1,2) by (simp add: in_order_length)
  show ?thesis
    unfolding setp_u32_default[OF assms] setp_str_default[OF assms]
    using len by simp
qed

theorem setp_default_keeps_user_value_witness:
  "(case setp_u32 (Some ''-t'') L_TIME 10 ParInfo of
      Inl e \<Rightarrow> False
    | Inr t1 \<Rightarrow>
        in_order t1 \<and> L_TIME < P_N \<and> L_TIME \<noteq> P_NULL \<and> par_name (t1 ! L_TIME) \<noteq> None \<and>
        (case setp_u32 None L_TIME 2 t1 of
           Inl e \<Rightarrow> False
         | Inr t2 \<Rightarrow> par_used (t2 ! L_TIME) \<and> par_inuse (t2 ! L_TIME) \<and> par_ptr (t2 ! L_TIME) = U32 10))"
proof -
  let ?t1 = "ParInfo[L_TIME := (ParInfo ! L_TIME)\<lparr>par_name := Some ''-t'', par_set := True, par_ptr := U32 10\<rparr>]"
  have o1: "in_order ?t1" by (rule in_order_update[OF in_order_ParInfo]) simp
  have a: "setp_u32 (Some ''-t'') L_TIME 10 ParInfo = Inr ?t1"
    by (rule setp_u32_named[OF in_order_ParInfo]) simp_all
  have b: "L_TIME < P_N" "L_TIME \<noteq> P_NULL" by simp_all
  have c: "par_name (?t1 ! L_TIME) \<noteq> None" "par_ptr (?t1 ! L_TIME) = U32 10"
    by (simp_all add: ParInfo_length)
  from setp_default_keeps_user_value[OF o1 b, of 2 0 "[]"] c
  obtain t2 where "setp_u32 None L_TIME 2 ?t1 = Inr t2" "par_used (t2 ! L_TIME)"
    "par_inuse (t2 ! L_TIME)" "par_ptr (t2 ! L_TIME) = U32 10"
    by auto
  then show ?thesis using o1 c by (simp only: a sum.case) simp
qed



section \<open>The wire codec: properties\<close>

lemma length_enc_int [simp]: "length (enc_int l n) = n"
  by (induction n arbitrary: l) simp_all

lemma dec_step_bits:
  assumes "Suc n \<le> 8"
  shows "dec_int_step (take_bit (8 * n) (signed_drop_bit 8 l)) (ucast l) = take_bit (8 * Suc n) l"
proof (rule bit_word_eqI)
  fix i assume "i < LENGTH(64)"
  have m: "(0xFF :: 64 word) = mask 8" by (simp add: mask_eq_exp_minus_1)
  show "bit (dec_int_step (take_bit (8 * n) (signed_drop_bit 8 l)) (ucast l)) i
      = bit (take_bit (8 * Suc n) l) i"
    using assms \<open>i < LENGTH(64)\<close> unfolding dec_int_step_def m
    by (auto simp add: bit_simps)
qed

lemma foldr_enc_int:
  "n \<le> 8 \<Longrightarrow> foldr (\<lambda>b l. dec_int_step l b) (enc_int l n) 0 = take_bit (8 * n) l"
proof (induction n arbitrary: l)
  case 0
  then show ?case by simp
next
  case (Suc n)
  then have "foldr (\<lambda>b l. dec_int_step l b) (enc_int (signed_drop_bit 8 l) n) 0
      = take_bit (8 * n) (signed_drop_bit 8 l)" by simp
  then show ?case using dec_step_bits[OF Suc.prems] by simp
qed

lemma dec_enc_int:
  assumes "n \<le> 8"
  shows "dec_int n (enc_int l n @ rest) = Some (take_bit (8 * n) l, rest)"
  using foldr_enc_int[OF assms, of l]
  by (simp add: dec_int_def foldl_conv_foldr)

lemma get_put:
  assumes "sizeof m \<le> 8" "v < 2 ^ (8 * sizeof m)"
  shows "get sizeof m (put sizeof m v @ rest) = Some (v, rest)"
proof -
  have "8 * sizeof m \<le> 64" using assms(1) by simp
  then have "(2::nat) ^ (8 * sizeof m) \<le> 2 ^ 64" by (rule power_increasing) simp
  then have v: "v < 2 ^ 64" using assms(2) by simp
  have "unat (take_bit (8 * sizeof m) (word_of_nat v :: 64 word)) = take_bit (8 * sizeof m) v"
    using v by (simp add: unsigned_take_bit_eq unat_of_nat take_bit_nat_eq_self)
  also have "\<dots> = v" using assms(2) by (simp add: take_bit_nat_eq_self)
  finally show ?thesis
    using assms(2) by (simp add: get_def put_def dec_enc_int[OF assms(1)])
qed

lemma get_put_fits:
  "fits sizeof m v \<Longrightarrow> get sizeof m (put sizeof m v @ rest) = Some (v, rest)"
  by (simp add: fits_def get_put)

lemma dec_enc_ustat:
  assumes "valid_ustat sizeof u"
  shows "dec_ustat sizeof host (enc_ustat sizeof u @ rest) = Some (u, rest)"
  using assms
  by (simp add: valid_ustat_def enc_ustat_def dec_ustat_def get_put_fits)

text \<open>
  C2 for \<open>Req\<close> fails on the member \<open>rate\<close>: \<open>enc_req\<close> writes no byte for it and
  \<open>dec_req\<close> assigns nothing to it, so the structure decoded has the \<open>rate\<close> of the
  structure decoded into, whatever the one encoded held.  Every other member comes back
  as it was.  \<open>rate\<close> is a member that the options \<open>--rate\<close>, \<open>--loc_rate\<close> and
  \<open>--rem_rate\<close> set in \<open>Req\<close> and \<open>RReq\<close>, like \<open>id\<close>, which is encoded.
\<close>

theorem req_round_trip_but_rate:
  assumes "valid_req sizeof r"
  shows "\<exists>bytes. enc_req sizeof r = Some bytes \<and>
           dec_req sizeof host (bytes @ rest) = Some (r\<lparr>req_rate := req_rate host\<rparr>, rest)"
  using assms
  by (simp add: valid_req_def enc_req_def dec_req_def enc_str_def dec_str_def get_put_fits)

text \<open>
  The round trip of \<open>Stat\<close> and of \<open>UStat\<close> is the identity (the rest of C2;
  \<open>dec_enc_ustat\<close> above).
\<close>

lemma dec_enc_clocks:
  assumes "list_all (fits sizeof m) xs"
  shows "i + k \<le> length xs \<Longrightarrow> length arr = length xs \<Longrightarrow>
         \<exists>bytes. enc_clocks sizeof m xs i k = Some bytes \<and>
           (\<forall>rest. dec_clocks sizeof m arr i k (bytes @ rest)
              = Some (take i arr @ take k (drop i xs) @ drop (i + k) arr, rest))"
proof (induction k arbitrary: i arr)
  case 0
  then show ?case by simp
next
  case (Suc k)
  have i: "i < length xs" using Suc.prems(1) by simp
  then have f: "fits sizeof m (xs ! i)" using assms by (simp add: list_all_length)
  have "Suc i + k \<le> length xs" using Suc.prems(1) by simp
  moreover have "length (arr[i := xs ! i]) = length xs" using Suc.prems(2) by simp
  ultimately obtain bytes where
    e: "enc_clocks sizeof m xs (Suc i) k = Some bytes" and
    d: "\<And>rest. dec_clocks sizeof m (arr[i := xs ! i]) (Suc i) k (bytes @ rest)
          = Some (take (Suc i) (arr[i := xs ! i]) @ take k (drop (Suc i) xs)
                    @ drop (Suc i + k) (arr[i := xs ! i]), rest)"
    using Suc.IH[of "Suc i" "arr[i := xs ! i]"] by blast
  have t: "take (Suc i) (arr[i := xs ! i]) = take i arr @ [xs ! i]"
    using i Suc.prems(2) by (simp add: take_Suc_conv_app_nth)
  have x: "take (Suc k) (drop i xs) = xs ! i # take k (drop (Suc i) xs)"
    using i by (simp add: Cons_nth_drop_Suc[symmetric])
  have "enc_clocks sizeof m xs i (Suc k) = Some (put sizeof m (xs ! i) @ bytes)"
    using i e by simp
  moreover have "dec_clocks sizeof m arr i (Suc k) ((put sizeof m (xs ! i) @ bytes) @ rest)
      = Some (take i arr @ take (Suc k) (drop i xs) @ drop (i + Suc k) arr, rest)" for rest
    using i Suc.prems(2) d[of rest] by (simp add: get_put_fits[OF f] t x)
  ultimately show ?case by blast
qed

lemma dec_enc_stat:
  assumes v: "valid_stat sizeof T_N st"
    and h: "length (stat_time_s host) = T_N" "length (stat_time_e host) = T_N"
  shows "\<exists>bytes. enc_stat sizeof T_N st = Some bytes \<and>
           dec_stat sizeof T_N host (bytes @ rest) = Some (st, rest)"
proof -
  have ls: "length (stat_time_s st) = T_N" and le: "length (stat_time_e st) = T_N"
    and fs: "list_all (fits sizeof ''time_s'') (stat_time_s st)"
    and fe: "list_all (fits sizeof ''time_e'') (stat_time_e st)"
    using v by (simp_all add: valid_stat_def)
  obtain sb where
    es: "enc_clocks sizeof ''time_s'' (stat_time_s st) 0 T_N = Some sb" and
    ds: "\<And>rest. dec_clocks sizeof ''time_s'' (stat_time_s host) 0 T_N (sb @ rest)
           = Some (stat_time_s st, rest)"
    using dec_enc_clocks[OF fs, of 0 T_N "stat_time_s host"] ls h(1) by auto
  obtain eb where
    ee: "enc_clocks sizeof ''time_e'' (stat_time_e st) 0 T_N = Some eb" and
    de: "\<And>rest. dec_clocks sizeof ''time_e'' (stat_time_e host) 0 T_N (eb @ rest)
           = Some (stat_time_e st, rest)"
    using dec_enc_clocks[OF fe, of 0 T_N "stat_time_e host"] le h(2) by auto
  show ?thesis
    using v
    by (simp add: valid_stat_def enc_stat_def dec_stat_def es ee ds de get_put_fits dec_enc_ustat)
qed


theorem req_round_trip_but_rate_witness:
  "valid_req example_sizes rate_req \<and>
   (\<exists>bytes. enc_req example_sizes rate_req = Some bytes \<and>
      dec_req example_sizes zero_req (bytes @ [])
        = Some (rate_req\<lparr>req_rate := [0, 0, 0, 0, 0, 0, 0, 0]\<rparr>, [])) \<and>
   req_rate rate_req = [0x31, 0x30, 0x30, 0, 0, 0, 0, 0]"
proof -
  have v: "valid_req example_sizes rate_req"
    by (simp add: valid_req_def fits_def example_sizes_def rate_req_def zero_req_def)
  have z: "req_rate zero_req = [0, 0, 0, 0, 0, 0, 0, 0]" by (simp add: zero_req_def)
  have r: "req_rate rate_req = [0x31, 0x30, 0x30, 0, 0, 0, 0, 0]" by (simp add: rate_req_def)
  from req_round_trip_but_rate[OF v, of zero_req "[]"] v r show ?thesis
    unfolding z by blast
qed

section \<open>Framed input and output: properties\<close>

text \<open>One pass of the loop, and what a call that moves bytes does.\<close>

lemma size_t_nat: "0 \<le> i \<Longrightarrow> i < 2 ^ 64 \<Longrightarrow> size_t i = nat i"
  by (simp add: size_t_def)

lemma loop_done: "send_recv_loop f a i c e buf 0 w ps = Some (Inr (), buf, w)"
  by (simp add: send_recv_loop.simps)

lemma loop_step:
  assumes "len \<noteq> 0" "send_recv_loop f a i c e buf len w (p # ps) = Some (Inr (), buf', w')"
  shows "(\<not> pass_isset p \<and> send_recv_loop f a i c e buf len w ps = Some (Inr (), buf', w')) \<or>
         (pass_isset p \<and> (\<exists>n data w1. f p buf (size_t len) w = (n, data, w1) \<and> 0 < n \<and>
            send_recv_loop f a i c e data (len - n) w1 ps = Some (Inr (), buf', w')))"
  using assms
  by (simp add: send_recv_loop.simps[of _ _ _ _ _ _ _ _ "p # ps"] Let_def split: if_splits prod.splits)

lemma sys_read_moved:
  assumes "sys_read p buf count w = (n, data, w1)" "0 < n"
  shows "nat n \<le> count \<and> nat n \<le> length (wire_in w) \<and> nat n \<le> nat (pass_io p) \<and>
         data = take (nat n) (wire_in w) @ drop (nat n) buf \<and>
         wire_in w1 = drop (nat n) (wire_in w) \<and> wire_out w1 = wire_out w"
  using assms by (auto simp add: sys_read_def Let_def split: if_splits)

lemma sys_write_moved:
  assumes "sys_write p buf count w = (n, data, w1)" "0 < n"
  shows "nat n \<le> count \<and> nat n = min (nat (pass_io p)) count \<and> data = buf \<and>
         wire_out w1 = wire_out w @ take (nat n) buf \<and> wire_in w1 = wire_in w"
  using assms by (auto simp add: sys_write_def Let_def split: if_splits)

text \<open>
  A loop that returns 1 has taken exactly \<open>len\<close> bytes from the connection, or passed
  on exactly \<open>len\<close> bytes; a receiving loop leaves the array as it was from index \<open>len\<close>
  on, and what a sending loop passes on begins with the first byte of the array.
\<close>

lemma recv_loop:
  assumes "send_recv_loop sys_read a i c e buf len w ps = Some (Inr (), buf', w')"
    "0 \<le> len" "len < 2 ^ 64" "nat len \<le> length buf"
  shows "nat len \<le> length (wire_in w) \<and> wire_in w' = drop (nat len) (wire_in w) \<and>
         wire_out w' = wire_out w \<and> length buf' = length buf \<and>
         drop (nat len) buf' = drop (nat len) buf"
  using assms
proof (induction ps arbitrary: buf len w)
  case Nil
  then show ?case by (simp add: send_recv_loop.simps split: if_splits)
next
  case (Cons p ps)
  show ?case
  proof (cases "len = 0")
    case True
    with Cons.prems(1) show ?thesis by (simp add: loop_done)
  next
    case False
    from loop_step[OF False Cons.prems(1)] show ?thesis
    proof
      assume "\<not> pass_isset p \<and> send_recv_loop sys_read a i c e buf len w ps = Some (Inr (), buf', w')"
      then show ?thesis using Cons.IH Cons.prems(2-4) by blast
    next
      assume "pass_isset p \<and> (\<exists>n data w1. sys_read p buf (size_t len) w = (n, data, w1) \<and> 0 < n \<and>
            send_recv_loop sys_read a i c e data (len - n) w1 ps = Some (Inr (), buf', w'))"
      then obtain n data w1 where r: "sys_read p buf (size_t len) w = (n, data, w1)" and n: "0 < n"
        and l: "send_recv_loop sys_read a i c e data (len - n) w1 ps = Some (Inr (), buf', w')"
        by blast
      have st: "size_t len = nat len" using Cons.prems(2,3) by (rule size_t_nat)
      from sys_read_moved[OF r n] st
      have m: "nat n \<le> nat len" "nat n \<le> length (wire_in w)"
        "data = take (nat n) (wire_in w) @ drop (nat n) buf"
        "wire_in w1 = drop (nat n) (wire_in w)" "wire_out w1 = wire_out w"
        by simp_all
      have ld: "length data = length buf" using m(1,2,3) Cons.prems(4) by simp
      have a: "0 \<le> len - n" "len - n < 2 ^ 64" "nat (len - n) \<le> length data"
        using m(1) n Cons.prems(2-4) ld by simp_all
      from Cons.IH[OF l a]
      have ih: "nat (len - n) \<le> length (wire_in w1)" "wire_in w' = drop (nat (len - n)) (wire_in w1)"
        "wire_out w' = wire_out w1" "length buf' = length data"
        "drop (nat (len - n)) buf' = drop (nat (len - n)) data"
        by simp_all
      have s: "nat (len - n) + nat n = nat len" using m(1) n Cons.prems(2) by simp
      have "drop (nat len) buf' = drop (nat n) (drop (nat (len - n)) buf')"
        using s by (simp add: add.commute)
      also have "\<dots> = drop (nat n) (drop (nat (len - n)) data)" by (simp only: ih(5))
      also have "\<dots> = drop (nat len) data" using s by (simp add: add.commute)
      also have "\<dots> = drop (nat len) buf"
        using m(1,2) Cons.prems(4) by (simp add: m(3) min_absorb2)
      finally have d: "drop (nat len) buf' = drop (nat len) buf" .
      have w: "wire_in w' = drop (nat len) (wire_in w)"
        using ih(2) s by (simp add: m(4) add.commute)
      have le: "nat len \<le> length (wire_in w)" using ih(1) m(2,4) s by simp
      show ?thesis using d w le ih(3,4) m(5) ld by simp
    qed
  qed
qed

lemma send_loop:
  assumes "send_recv_loop sys_write a i c e buf len w ps = Some (Inr (), buf', w')"
    "0 \<le> len" "len < 2 ^ 64" "nat len \<le> length buf"
  shows "buf' = buf \<and> wire_in w' = wire_in w \<and>
         (\<exists>sent. wire_out w' = wire_out w @ sent \<and> length sent = nat len \<and>
                  (0 < len \<longrightarrow> sent ! 0 = buf ! 0))"
  using assms
proof (induction ps arbitrary: len w)
  case Nil
  then show ?case by (simp add: send_recv_loop.simps split: if_splits)
next
  case (Cons p ps)
  show ?case
  proof (cases "len = 0")
    case True
    with Cons.prems(1) show ?thesis by (simp add: loop_done)
  next
    case False
    from loop_step[OF False Cons.prems(1)] show ?thesis
    proof
      assume "\<not> pass_isset p \<and> send_recv_loop sys_write a i c e buf len w ps = Some (Inr (), buf', w')"
      then show ?thesis using Cons.IH Cons.prems(2-4) by blast
    next
      assume "pass_isset p \<and> (\<exists>n data w1. sys_write p buf (size_t len) w = (n, data, w1) \<and> 0 < n \<and>
            send_recv_loop sys_write a i c e data (len - n) w1 ps = Some (Inr (), buf', w'))"
      then obtain n data w1 where r: "sys_write p buf (size_t len) w = (n, data, w1)" and n: "0 < n"
        and l: "send_recv_loop sys_write a i c e data (len - n) w1 ps = Some (Inr (), buf', w')"
        by blast
      have st: "size_t len = nat len" using Cons.prems(2,3) by (rule size_t_nat)
      from sys_write_moved[OF r n] st
      have m: "nat n \<le> nat len" "data = buf"
        "wire_out w1 = wire_out w @ take (nat n) buf" "wire_in w1 = wire_in w"
        by simp_all
      have a: "0 \<le> len - n" "len - n < 2 ^ 64" "nat (len - n) \<le> length buf"
        using m(1) n Cons.prems(2-4) by simp_all
      from Cons.IH[OF l[unfolded m(2)] a]
      obtain sent where ih: "buf' = buf" "wire_in w' = wire_in w1"
        "wire_out w' = wire_out w1 @ sent" "length sent = nat (len - n)"
        by blast
      have s: "nat (len - n) + nat n = nat len" using m(1) n Cons.prems(2) by simp
      have t: "length (take (nat n) buf) = nat n" using m(1) Cons.prems(4) by simp
      have "0 < length (take (nat n) buf)" using n t by simp
      then have h: "(take (nat n) buf @ sent) ! 0 = buf ! 0" by (simp add: nth_append)
      have "wire_out w' = wire_out w @ (take (nat n) buf @ sent)" by (simp add: ih(3) m(3))
      moreover have "length (take (nat n) buf @ sent) = nat len" using t ih(4) s by simp
      ultimately show ?thesis using ih(1,2) m(4) h
        by (intro conjI exI[of _ "take (nat n) buf @ sent"]) simp_all
    qed
  qed
qed

text \<open>
  In whatever pass the loop stands, when the clock has reached the deadline the loop
  returns 0 with the message "timed out".
\<close>

lemma loop_timed_out:
  assumes "send_recv_loop f a i c e buf len w ps = None" "e - pass_seconds p \<le> 0"
  shows "\<exists>data w'. send_recv_loop f a i c e buf len w (ps @ p # rest)
           = Some (Inl (''failed to '' @ a @ '' '' @ i @ '': timed out''), data, w')"
  using assms(1)
proof (induction ps arbitrary: buf len w)
  case Nil
  then have "len \<noteq> 0" by (simp add: send_recv_loop.simps split: if_splits)
  then show ?case using assms(2) by (simp add: send_recv_loop.simps Let_def)
next
  case (Cons q qs)
  from Cons.prems have n: "len \<noteq> 0" by (simp add: send_recv_loop.simps split: if_splits)
  show ?case
  proof (cases "pass_isset q")
    case False
    with n Cons.prems have "send_recv_loop f a i c e buf len w qs = None"
      by (simp add: send_recv_loop.simps[of _ _ _ _ _ _ _ _ "q # qs"] Let_def split: if_splits)
    from Cons.IH[OF this] obtain data w' where
      "send_recv_loop f a i c e buf len w (qs @ p # rest)
           = Some (Inl (''failed to '' @ a @ '' '' @ i @ '': timed out''), data, w')" by blast
    moreover from n False Cons.prems have "\<not> e - pass_seconds q \<le> 0" "\<not> pass_select q < 0"
      by (simp_all add: send_recv_loop.simps[of _ _ _ _ _ _ _ _ "q # qs"] Let_def split: if_splits)
    ultimately show ?thesis using n False
      by (simp add: send_recv_loop.simps[of _ _ _ _ _ _ _ _ "q # qs @ p # rest"] Let_def)
  next
    case True
    obtain m data w1 where r: "f q buf (size_t len) w = (m, data, w1)" by (cases "f q buf (size_t len) w")
    from n True Cons.prems r have g: "\<not> e - pass_seconds q \<le> 0" "\<not> pass_select q < 0" "\<not> m < 0" "m \<noteq> 0"
      and l: "send_recv_loop f a i c e data (len - m) w1 qs = None"
      by (simp_all add: send_recv_loop.simps[of _ _ _ _ _ _ _ _ "q # qs"] Let_def split: if_splits)
    from Cons.IH[OF l] obtain data' w' where
      "send_recv_loop f a i c e data (len - m) w1 (qs @ p # rest)
           = Some (Inl (''failed to '' @ a @ '' '' @ i @ '': timed out''), data', w')" by blast
    then show ?thesis using n True g r
      by (simp add: send_recv_loop.simps[of _ _ _ _ _ _ _ _ "q # qs @ p # rest"] Let_def)
  qed
qed


text \<open>
  The byte counts of \<open>send_recv_mesg\<close>: a call that returns 1 has moved exactly \<open>len\<close>
  bytes.
\<close>

lemma send_recv_mesg_moves_len:
  assumes "send_recv_mesg sr item c timeout buf len start w ps = Some (Inr (), buf', w')"
    and "0 \<le> len" "len < 2 ^ 31" "nat len \<le> length buf"
  shows "if sr = CHR ''r''
         then nat len \<le> length (wire_in w) \<and> wire_in w' = drop (nat len) (wire_in w) \<and>
              wire_out w' = wire_out w \<and> drop (nat len) buf' = drop (nat len) buf
         else buf' = buf \<and> wire_in w' = wire_in w \<and>
              (\<exists>sent. wire_out w' = wire_out w @ sent \<and> length sent = nat len)"
proof -
  have b: "len < 2 ^ 64" using assms(3) by simp
  show ?thesis
  proof (cases "sr = CHR ''r''")
    case True
    with assms(1) have "send_recv_loop sys_read ''receive'' item c (start + of_nat timeout) buf len w ps
        = Some (Inr (), buf', w')"
      by (simp add: send_recv_mesg_def)
    from recv_loop[OF this assms(2) b assms(4)] True show ?thesis by simp
  next
    case False
    with assms(1) have "send_recv_loop sys_write ''send'' item c (start + of_nat timeout) buf len w ps
        = Some (Inr (), buf', w')"
      by (simp add: send_recv_mesg_def)
    from send_loop[OF this assms(2) b assms(4)] False show ?thesis by auto
  qed
qed

text \<open>
  The deadline of \<open>send_recv_mesg\<close>: when the call has not returned after the passes
  \<open>ps\<close> and the next pass is at or behind \<open>start + timeout\<close>, it returns 0 there with
  "failed to receive <item>: timed out", or "send" in place of "receive".
\<close>

lemma send_recv_mesg_timed_out:
  assumes "send_recv_mesg sr item c timeout buf len start w ps = None"
    and "start + of_nat timeout \<le> pass_seconds p"
  shows "\<exists>data w'. send_recv_mesg sr item c timeout buf len start w (ps @ p # rest)
           = Some (Inl (''failed to '' @ (if sr = CHR ''r'' then ''receive'' else ''send'') @ '' '' @ item
                         @ '': timed out''), data, w')"
proof -
  have e: "start + of_nat timeout - pass_seconds p \<le> 0" using assms(2) by simp
  show ?thesis
  proof (cases "sr = CHR ''r''")
    case True
    with assms(1) have "send_recv_loop sys_read ''receive'' item c (start + of_nat timeout) buf len w ps = None"
      by (simp add: send_recv_mesg_def)
    from loop_timed_out[OF this e, of rest] True show ?thesis by (simp add: send_recv_mesg_def)
  next
    case False
    with assms(1) have "send_recv_loop sys_write ''send'' item c (start + of_nat timeout) buf len w ps = None"
      by (simp add: send_recv_mesg_def)
    from loop_timed_out[OF this e, of rest] False show ?thesis by (simp add: send_recv_mesg_def)
  qed
qed

text \<open>
  C3 holds of the number of bytes (\<open>send_recv_mesg_moves_len\<close>) and of the deadline
  (\<open>send_recv_mesg_timed_out\<close>), but not of the message: \<open>send_recv_mesg\<close> gives the same
  pointer \<open>buf\<close> to every \<open>read\<close> and \<open>write\<close>.  Whenever \<open>read\<close> or \<open>write\<close> is called
  in the first pass \<open>p\<close> of the loop with fewer than \<open>len\<close> bytes to move, and
  \<open>send_recv_mesg\<close> returns 1, then on receiving, \<open>len\<close> bytes are taken from the
  connection but the last of the \<open>len\<close> places of the array holds what it held before the
  call; and on sending, \<open>len\<close> bytes are passed on, but the byte behind the first part is
  the first byte of the array again.
\<close>

theorem send_recv_mesg_restarts_at_buf:
  assumes "send_recv_mesg sr item c timeout buf len start w (p # rest) = Some (Inr (), buf', w')"
    and "pass_isset p" "pass_io p < len" "0 < len" "len < 2 ^ 31" "nat len \<le> length buf"
  shows "if sr = CHR ''r''
         then nat len \<le> length (wire_in w) \<and> wire_in w' = drop (nat len) (wire_in w) \<and>
              buf' ! (nat len - 1) = buf ! (nat len - 1)
         else buf' = buf \<and>
              (\<exists>sent. wire_out w' = wire_out w @ sent \<and> length sent = nat len \<and>
                       sent ! nat (pass_io p) = buf ! 0)"
proof -
  have n0: "len \<noteq> 0" using assms(4) by simp
  have b: "len < 2 ^ 64" using assms(5) by simp
  have st: "size_t len = nat len" using assms(4) b by (intro size_t_nat) simp_all
  show ?thesis
  proof (cases "sr = CHR ''r''")
    case True
    let ?e = "start + of_nat timeout"
    from assms(1) True
    have s: "send_recv_loop sys_read ''receive'' item c ?e buf len w (p # rest) = Some (Inr (), buf', w')"
      by (simp add: send_recv_mesg_def)
    from loop_step[OF n0 s] assms(2) obtain n data w1 where
      r: "sys_read p buf (size_t len) w = (n, data, w1)" and n: "0 < n"
      and l: "send_recv_loop sys_read ''receive'' item c ?e data (len - n) w1 rest = Some (Inr (), buf', w')"
      by blast
    from sys_read_moved[OF r n] st
    have m: "nat n \<le> nat (pass_io p)" "nat n \<le> length (wire_in w)"
      "data = take (nat n) (wire_in w) @ drop (nat n) buf"
      by simp_all
    have lt: "n < len" using m(1) n assms(3) by simp
    have ld: "length data = length buf" using m(2,3) lt assms(6) by simp
    have a: "0 \<le> len - n" "len - n < 2 ^ 64" "nat (len - n) \<le> length data"
      using lt n b ld assms(6) by simp_all
    from recv_loop[OF l a] have d: "drop (nat (len - n)) buf' = drop (nat (len - n)) data"
      and lb: "length buf' = length data" by simp_all
    have i: "nat len - 1 = nat (len - n) + (nat n - 1)" using n lt by simp
    have ge: "nat n \<le> nat len - 1" using n lt by simp
    have "buf' ! (nat len - 1) = drop (nat (len - n)) buf' ! (nat n - 1)"
      unfolding i using a(3) lb by simp
    also have "\<dots> = data ! (nat len - 1)" unfolding d i using a(3) by simp
    also have "\<dots> = drop (nat n) buf ! (nat len - 1 - nat n)"
      using ge m(2) by (simp add: m(3) nth_append min_absorb2)
    also have "\<dots> = buf ! (nat n + (nat len - 1 - nat n))"
      using ge lt assms(6) by simp
    also have "nat n + (nat len - 1 - nat n) = nat len - 1" using ge by simp
    finally have last: "buf' ! (nat len - 1) = buf ! (nat len - 1)" .
    from send_recv_mesg_moves_len[OF assms(1) _ assms(5,6)] assms(4) True last
    show ?thesis by simp
  next
    case False
    let ?e = "start + of_nat timeout"
    from assms(1) False
    have s: "send_recv_loop sys_write ''send'' item c ?e buf len w (p # rest) = Some (Inr (), buf', w')"
      by (simp add: send_recv_mesg_def)
    from loop_step[OF n0 s] assms(2) obtain n data w1 where
      r: "sys_write p buf (size_t len) w = (n, data, w1)" and n: "0 < n"
      and l: "send_recv_loop sys_write ''send'' item c ?e data (len - n) w1 rest = Some (Inr (), buf', w')"
      by blast
    from sys_write_moved[OF r n] st
    have m: "nat n = min (nat (pass_io p)) (nat len)" "data = buf"
      "wire_out w1 = wire_out w @ take (nat n) buf"
      by simp_all
    have np: "n = pass_io p" using m(1) n assms(3) by simp
    have lt: "n < len" using np assms(3) by simp
    have a: "0 \<le> len - n" "len - n < 2 ^ 64" "nat (len - n) \<le> length buf"
      using lt n b assms(6) by simp_all
    from send_loop[OF l[unfolded m(2)] a] lt
    obtain sent where ih: "buf' = buf" "wire_out w' = wire_out w1 @ sent"
      "length sent = nat (len - n)" "sent ! 0 = buf ! 0"
      by auto
    have t: "length (take (nat n) buf) = nat n" using lt n assms(6) by simp
    have "wire_out w' = wire_out w @ (take (nat n) buf @ sent)" by (simp add: ih(2) m(3))
    moreover have "length (take (nat n) buf @ sent) = nat len" using t ih(3) lt n by simp
    moreover have "(take (nat n) buf @ sent) ! nat (pass_io p) = buf ! 0"
      using t ih(4) by (simp add: nth_append np)
    ultimately show ?thesis using False ih(1) by auto
  qed
qed


theorem send_recv_mesg_restarts_at_buf_witness:
  "send_recv_mesg (CHR ''r'') ''sync'' True 5 stale 4 100 sync_wire sync_passes
     = Some (Inr (), [0x00, 0x79, 0x4E, 0xAA], \<lparr>wire_in = [], wire_out = []\<rparr>) \<and>
   pass_isset (hd sync_passes) \<and> pass_io (hd sync_passes) < 4 \<and> (0::int) < 4 \<and> (4::int) < 2 ^ 31 \<and>
   nat 4 \<le> length stale \<and>
   [0x00, 0x79, 0x4E, 0xAA] ! (nat 4 - 1) = stale ! (nat 4 - 1) \<and>
   [0x00, 0x79, 0x4E, 0xAA] \<noteq> SYNCMESG \<and>
   send_recv_mesg (CHR ''s'') ''sync'' True 5 SYNCMESG 4 100 \<lparr>wire_in = [], wire_out = []\<rparr> sync_passes
     = Some (Inr (), SYNCMESG, \<lparr>wire_in = [], wire_out = [0x53, 0x79, 0x4E, 0x53]\<rparr>) \<and>
   nat 4 \<le> length SYNCMESG \<and>
   (\<exists>sent. [0x53, 0x79, 0x4E, 0x53] = [] @ sent \<and> length sent = nat 4 \<and>
            sent ! nat (pass_io (hd sync_passes)) = SYNCMESG ! 0)"
proof -
  let ?p = "\<lparr>pass_seconds = 100, pass_select = 1, pass_isset = True, pass_io = 3\<rparr>"
  let ?rest = "[\<lparr>pass_seconds = 100, pass_select = 0, pass_isset = False, pass_io = 0\<rparr>,
                \<lparr>pass_seconds = 100, pass_select = 1, pass_isset = True, pass_io = 1\<rparr>]"
  have r: "send_recv_mesg (CHR ''r'') ''sync'' True 5 stale 4 100 sync_wire (?p # ?rest)
     = Some (Inr (), [0x00, 0x79, 0x4E, 0xAA], \<lparr>wire_in = [], wire_out = []\<rparr>)"
    by (simp add: send_recv_mesg_def send_recv_loop.simps sys_read_def size_t_def
        sync_wire_def SYNCMESG_def stale_def)
  have s: "send_recv_mesg (CHR ''s'') ''sync'' True 5 SYNCMESG 4 100 \<lparr>wire_in = [], wire_out = []\<rparr> (?p # ?rest)
     = Some (Inr (), SYNCMESG, \<lparr>wire_in = [], wire_out = [0x53, 0x79, 0x4E, 0x53]\<rparr>)"
    by (simp add: send_recv_mesg_def send_recv_loop.simps sys_write_def size_t_def SYNCMESG_def)
  have h: "pass_isset ?p" "pass_io ?p < 4" "(0::int) < 4" "(4::int) < 2 ^ 31"
    "nat 4 \<le> length stale" "nat 4 \<le> length SYNCMESG"
    by (simp_all add: stale_def SYNCMESG_def)
  from send_recv_mesg_restarts_at_buf[OF r h(1-5)]
  have a: "[0x00, 0x79, 0x4E, 0xAA] ! (nat 4 - 1) = stale ! (nat 4 - 1)"
    by simp
  from send_recv_mesg_restarts_at_buf[OF s h(1-4) h(6)]
  have b: "\<exists>sent. [0x53, 0x79, 0x4E, 0x53] = [] @ sent \<and> length sent = nat 4 \<and>
            sent ! nat (pass_io ?p) = SYNCMESG ! 0"
    by simp
  have c: "[0x00, 0x79, 0x4E, 0xAA] \<noteq> SYNCMESG" by (simp add: SYNCMESG_def)
  show ?thesis
    unfolding sync_passes_def list.sel using r s h a b c by blast
qed

text \<open>
  So \<open>recv_sync\<close> reports a sync failure when the synchronize message of the peer
  arrives in two parts, and none when it arrives in one; and a pass at the deadline
  ends the call that has got the first part.
\<close>

lemma recv_sync_split_message:
  "recv_sync True 5 stale 100 sync_wire sync_passes
     = Some (Inl ''sync failure: data does not match'', [0x00, 0x79, 0x4E, 0xAA],
             \<lparr>wire_in = [], wire_out = []\<rparr>)"
  by (simp add: recv_sync_def recv_mesg_def send_recv_mesg_def send_recv_loop.simps sys_read_def
      size_t_def sync_wire_def SYNCMESG_def SYNCSIZE_def stale_def sync_passes_def)

lemma recv_sync_whole_message:
  "recv_sync True 5 stale 100 sync_wire
     [\<lparr>pass_seconds = 100, pass_select = 1, pass_isset = True, pass_io = 4\<rparr>]
     = Some (Inr (), SYNCMESG, \<lparr>wire_in = [], wire_out = []\<rparr>)"
  by (simp add: recv_sync_def recv_mesg_def send_recv_mesg_def send_recv_loop.simps sys_read_def
      size_t_def sync_wire_def SYNCMESG_def SYNCSIZE_def stale_def)

lemma recv_mesg_late_pass:
  "recv_mesg True 5 stale 4 ''sync'' 100 sync_wire [hd sync_passes, late_pass]
     = Some (Inl ''failed to receive sync: timed out'', [0x53, 0x79, 0x4E, 0xAA],
             \<lparr>wire_in = [0x00], wire_out = []\<rparr>)"
  by (simp add: recv_mesg_def send_recv_mesg_def send_recv_loop.simps sys_read_def
      size_t_def sync_wire_def SYNCMESG_def stale_def sync_passes_def late_pass_def)

section \<open>The version check: properties\<close>

lemma lld_digits: "lld 0 = ''0''" "lld 1 = ''1''" "lld 2 = ''2''"
  by (simp_all add: lld_def dec_nat.simps digit_char_def)

lemma server_rejects_and_goes_on:
  assumes "int (req_ver_maj r) \<noteq> VER_MAJ \<or> int (req_ver_min r) \<noteq> VER_MIN"
  shows "server ntests (Some r # cs) = Rejected (version_mismatch r) # server ntests cs"
  using assms by (auto simp add: server_pass_def)

lemma version_mismatch_older_client:
  assumes "int (req_ver_maj r) < VER_MAJ \<or> (int (req_ver_maj r) = VER_MAJ \<and> int (req_ver_min r) < VER_MIN)"
  shows "version_mismatch r = upgrade_msg ''server''
           (int (req_ver_maj r), int (req_ver_min r), int (req_ver_inc r)) (VER_MAJ, VER_MIN, VER_INC)"
  using assms by (auto simp add: version_mismatch_def Let_def)

lemma version_mismatch_newer_client:
  assumes "VER_MAJ < int (req_ver_maj r) \<or> (int (req_ver_maj r) = VER_MAJ \<and> VER_MIN < int (req_ver_min r))"
  shows "version_mismatch r = upgrade_msg ''client''
           (VER_MAJ, VER_MIN, VER_INC) (int (req_ver_maj r), int (req_ver_min r), int (req_ver_inc r))"
  using assms by (auto simp add: version_mismatch_def Let_def)

text \<open>
  C4: the server rejects a request of another version and goes on to the next
  connection (\<open>server_rejects_and_goes_on\<close>), and the message gives the two versions,
  the lower one first.  But the side it names is the other one: \<open>low\<close> starts as
  \<open>"client"\<close> beside the server's own version in the \<open>l_\<close> variables, and becomes
  \<open>"server"\<close> when the request's version is moved there.  For a client of version 0.1.0
  the server of 0.2.0 writes \<open>upgrade server from 0.1.0 to 0.2.0\<close>.
\<close>

theorem server_names_the_newer_side:
  "server_pass ntests (Some client_0_1_0) = Rejected ''upgrade server from 0.1.0 to 0.2.0''"
  by (simp add: server_pass_def version_mismatch_def upgrade_msg_def client_0_1_0_def zero_req_def
      VER_MAJ_def VER_MIN_def VER_INC_def lld_digits)

theorem server_names_the_newer_side_witness:
  "server 10 [Some client_0_1_0, None]
     = [Rejected ''upgrade server from 0.1.0 to 0.2.0'', NoRequest]"
  using server_names_the_newer_side[of 10] by (simp add: server_pass_def)

section \<open>Presentation: properties\<close>

lemma nice_1024_loop_power:
  assumes "0 < q"
  shows "n + j \<le> 3 \<Longrightarrow> q < 1024 \<or> n + j = 3 \<Longrightarrow> nice_1024_loop (q * 1024 ^ j) n = Some (q, n + j)"
proof (induction j arbitrary: n)
  case 0
  then show ?case by (auto simp add: nice_1024_loop.simps[of q n])
next
  case (Suc j)
  have n: "n < 3" using Suc.prems(1) by simp
  have big: "q * 1024 ^ Suc j \<ge> 1024"
  proof -
    have "(1::int) \<le> 1024 ^ j" by simp
    then have "1 * 1 \<le> q * 1024 ^ j" using assms by (intro mult_mono) simp_all
    then show ?thesis by simp
  qed
  have m: "q * 1024 ^ Suc j mod 1024 = 0" by simp
  have d: "q * 1024 ^ Suc j div 1024 = q * 1024 ^ j" by simp
  have "nice_1024_loop (q * 1024 ^ Suc j) n = nice_1024_loop (q * 1024 ^ j) (n + 1)"
    using n big by (subst nice_1024_loop.simps) (simp only: m d, simp)
  also have "\<dots> = Some (q, (n + 1) + j)"
    using Suc.prems by (intro Suc.IH) auto
  finally show ?case by simp
qed

lemma nice_1024_power:
  assumes "1 \<le> k" "k \<le> 4" "0 < q" "q < 1024 \<or> k = 4"
  shows "nice_1024 unify table pref name (q * 1024 ^ k) =
           and_then (commify unify (Some (lld q))) (\<lambda>data.
           and_then (commify unify (Some (lld (q * 1024 ^ k)))) (\<lambda>altn.
           and_then (place_any table pref name (Some (nice_tab ! (k - 1))) data altn)
             (\<lambda>table. Inr (True, table))))"
proof -
  obtain j where k: "k = Suc j" using assms(1) by (cases k) auto
  have big: "\<not> q * 1024 ^ k < 1024"
  proof -
    have "(1::int) \<le> 1024 ^ j" by simp
    then have "1 * 1 \<le> q * 1024 ^ j" using assms(3) by (intro mult_mono) simp_all
    then show ?thesis by (simp add: k)
  qed
  have m: "q * 1024 ^ k mod 1024 = 0" by (simp add: k)
  have d: "q * 1024 ^ k div 1024 = q * 1024 ^ j" by (simp add: k)
  have l: "nice_1024_loop (q * 1024 ^ j) 0 = Some (q, j)"
    using nice_1024_loop_power[OF assms(3), of 0 j] assms(2,4) by (auto simp add: k)
  show ?thesis
    unfolding nice_1024_def Let_def using big by (simp only: m d l) (simp add: k)
qed


text \<open>
  The other direction: the loop ends with a quotient below 1024, or at \<open>TiB\<close>, and a
  value that is no such multiple gets no row.
\<close>

lemma nice_1024_loop_Some:
  "nice_1024_loop v0 n0 = Some (v, n) \<Longrightarrow> n0 \<le> 3 \<Longrightarrow>
     \<exists>j. n = n0 + j \<and> n \<le> 3 \<and> v0 = v * 1024 ^ j \<and> (v < 1024 \<or> n = 3)"
proof (induction v0 n0 rule: nice_1024_loop.induct)
  case (1 val n0)
  show ?case
  proof (cases "val \<ge> 1024 \<and> n0 < 3")
    case False
    with "1.prems" have "v = val" "n = n0" by (simp_all add: nice_1024_loop.simps[of val n0])
    then show ?thesis using False "1.prems"(2) by (intro exI[of _ 0]) auto
  next
    case True
    with "1.prems"(1) have m: "val mod 1024 = 0"
      and l: "nice_1024_loop (val div 1024) (n0 + 1) = Some (v, n)"
      by (simp_all add: nice_1024_loop.simps[of val n0] split: if_splits)
    have "\<not> val mod 1024 \<noteq> 0" using m by simp
    from "1.IH"[OF True this l] True
    obtain j where j: "n = n0 + 1 + j" "n \<le> 3" "val div 1024 = v * 1024 ^ j" "v < 1024 \<or> n = 3"
      by auto
    have "val = (val div 1024) * 1024" using m by (simp add: mod_eq_0_iff_dvd)
    then have "val = v * 1024 ^ Suc j" using j(3) by simp
    then show ?thesis using j by (intro exI[of _ "Suc j"]) simp
  qed
qed

lemma nice_1024_other:
  assumes "\<not> (\<exists>k q. 1 \<le> k \<and> k \<le> 4 \<and> 0 < q \<and> (q < 1024 \<or> k = 4) \<and> value = q * 1024 ^ k)"
  shows "nice_1024 unify table pref name value = Inr (False, table)"
proof (cases "value < 1024 \<or> value mod 1024 \<noteq> 0")
  case True
  then show ?thesis by (simp add: nice_1024_def Let_def)
next
  case False
  then have g: "1024 \<le> value" and m: "value mod 1024 = 0" by simp_all
  show ?thesis
  proof (cases "nice_1024_loop (value div 1024) 0")
    case None
    then show ?thesis using False by (simp add: nice_1024_def Let_def)
  next
    case (Some r)
    obtain v n where r: "r = (v, n)" by (cases r)
    from nice_1024_loop_Some[OF Some[unfolded r]]
    obtain j where j: "n = j" "n \<le> 3" "value div 1024 = v * 1024 ^ j" "v < 1024 \<or> n = 3"
      by auto
    have "value = (value div 1024) * 1024" using m by (simp add: mod_eq_0_iff_dvd)
    then have e: "value = v * 1024 ^ Suc j" using j(3) by simp
    have "0 < v"
    proof (rule ccontr)
      assume "\<not> 0 < v"
      then have "v \<le> 0" by simp
      then have "v * 1024 ^ Suc j \<le> 0" by (simp add: mult_le_0_iff)
      then show False using e g by simp
    qed
    then have "1 \<le> Suc j \<and> Suc j \<le> 4 \<and> 0 < v \<and> (v < 1024 \<or> Suc j = 4) \<and> value = v * 1024 ^ Suc j"
      using j e by auto
    then show ?thesis using assms by blast
  qed
qed

lemma lld_2097152: "lld 2097152 = ''2097152''"
  by (simp add: lld_def dec_nat.simps digit_char_def)

lemma commify_2: "commify False (Some ''2'') = Inr (Some ''2'')"
  by (simp add: commify_def isdigit_def c_div_def)

lemma commify_2097152: "commify False (Some ''2097152'') = Inr (Some ''2,097,152'')"
  by code_simp

text \<open>
  C8, as the claim states it, fails: 1572864 is 1536 times 1024, a nonzero multiple of
  \<open>1024 ^ 1\<close>, and \<open>nice_1024\<close> returns 0 for it without a row, since 1536 is not below
  1024 and is no multiple of 1024 (\<open>view_size\<close> then shows it in decimal units).
\<close>

theorem nice_1024_counterexample:
  "(1572864::int) = 1536 * 1024 ^ 1 \<and>
   nice_1024 False [] (Some []) ''msg_size'' 1572864 = Inr (False, [])"
  by (simp add: nice_1024_def nice_1024_loop.simps)

text \<open>
  C8, amended: for every integer value that is \<open>q * 1024 ^ k\<close> with \<open>1 \<le> k \<le> 4\<close>,
  \<open>0 < q\<close>, and \<open>q < 1024\<close> unless \<open>k = 4\<close>, \<open>nice_1024\<close> returns 1 and places a row with
  the quotient \<open>q\<close> as data, the unit KiB, MiB, GiB or TiB for \<open>k\<close> = 1, 2, 3 or 4, and
  the value as the alternative form, both written in decimal and passed through
  \<open>commify\<close>; for every other value it returns 0 and places nothing.  In particular
  \<open>nice_1024(2097152)\<close>, with \<open>UnifyUnits\<close> off as in its one caller, places \<open>2\<close>, \<open>MiB\<close>
  and the alternative \<open>2,097,152\<close>.
\<close>

theorem nice_1024_presents:
  "(1 \<le> k \<and> k \<le> 4 \<and> 0 < q \<and> (q < 1024 \<or> k = 4) \<longrightarrow>
      nice_1024 unify table pref name (q * 1024 ^ k) =
        and_then (commify unify (Some (lld q))) (\<lambda>data.
        and_then (commify unify (Some (lld (q * 1024 ^ k)))) (\<lambda>altn.
        and_then (place_any table pref name (Some (nice_tab ! (k - 1))) data altn)
          (\<lambda>table. Inr (True, table))))) \<and>
   (\<not> (\<exists>j r. 1 \<le> j \<and> j \<le> 4 \<and> 0 < r \<and> (r < 1024 \<or> j = 4) \<and> other = r * 1024 ^ j) \<longrightarrow>
      nice_1024 unify table pref name other = Inr (False, table)) \<and>
   nice_1024 False [] (Some []) ''msg_size'' 2097152 =
     Inr (True, [\<lparr>show_pref = Some [], show_name = ''msg_size'', show_data = Some ''2'',
                   show_unit = Some ''MiB'', show_altn = Some ''2,097,152''\<rparr>])"
proof (intro conjI impI)
  assume "1 \<le> k \<and> k \<le> 4 \<and> 0 < q \<and> (q < 1024 \<or> k = 4)"
  then show "nice_1024 unify table pref name (q * 1024 ^ k) =
        and_then (commify unify (Some (lld q))) (\<lambda>data.
        and_then (commify unify (Some (lld (q * 1024 ^ k)))) (\<lambda>altn.
        and_then (place_any table pref name (Some (nice_tab ! (k - 1))) data altn)
          (\<lambda>table. Inr (True, table))))"
    using nice_1024_power by blast
next
  assume "\<not> (\<exists>j r. 1 \<le> j \<and> j \<le> 4 \<and> 0 < r \<and> (r < 1024 \<or> j = 4) \<and> other = r * 1024 ^ j)"
  then show "nice_1024 unify table pref name other = Inr (False, table)"
    by (rule nice_1024_other)
next
  have "nice_1024 False [] (Some []) ''msg_size'' (2 * 1024 ^ 2) =
        and_then (commify False (Some (lld 2))) (\<lambda>data.
        and_then (commify False (Some (lld (2 * 1024 ^ 2)))) (\<lambda>altn.
        and_then (place_any [] (Some []) ''msg_size'' (Some (nice_tab ! (2 - 1))) data altn)
          (\<lambda>table. Inr (True, table))))"
    by (rule nice_1024_power) simp_all
  then show "nice_1024 False [] (Some []) ''msg_size'' 2097152 =
     Inr (True, [\<lparr>show_pref = Some [], show_name = ''msg_size'', show_data = Some ''2'',
                   show_unit = Some ''MiB'', show_altn = Some ''2,097,152''\<rparr>])"
    by (simp add: lld_digits lld_2097152 commify_2 commify_2097152 nice_tab_def place_any_def)
qed

theorem nice_1024_presents_witness:
  "(1::nat) \<le> 3 \<and> (3::nat) \<le> 4 \<and> (0::int) < 5 \<and> ((5::int) < 1024 \<or> (3::nat) = 4) \<and>
   nice_1024 False [] (Some ''loc_'') ''msg_size'' (5 * 1024 ^ 3) =
     Inr (True, [\<lparr>show_pref = Some ''loc_'', show_name = ''msg_size'', show_data = Some ''5'',
                   show_unit = Some ''GiB'', show_altn = Some ''5,368,709,120''\<rparr>]) \<and>
   \<not> (\<exists>j r. 1 \<le> j \<and> j \<le> 4 \<and> 0 < r \<and> (r < 1024 \<or> j = 4) \<and> (1572864::int) = r * 1024 ^ j) \<and>
   nice_1024 False [] (Some ''loc_'') ''msg_size'' 1572864 = Inr (False, [])"
proof -
  have a: "(1::nat) \<le> 3 \<and> (3::nat) \<le> 4 \<and> (0::int) < 5 \<and> ((5::int) < 1024 \<or> (3::nat) = 4)"
    by simp
  have l5: "lld 5 = ''5''" by (simp add: lld_def dec_nat.simps digit_char_def)
  have c5: "commify False (Some ''5'') = Inr (Some ''5'')"
    by (simp add: commify_def isdigit_def c_div_def)
  have lv: "lld 5368709120 = ''5368709120''" by (simp add: lld_def dec_nat.simps digit_char_def)
  have cv: "commify False (Some ''5368709120'') = Inr (Some ''5,368,709,120'')" by code_simp
  have ne: "\<not> (\<exists>j r. 1 \<le> j \<and> j \<le> 4 \<and> 0 < r \<and> (r < 1024 \<or> j = 4) \<and> (1572864::int) = r * 1024 ^ j)"
  proof
    assume "\<exists>j r. 1 \<le> j \<and> j \<le> 4 \<and> 0 < r \<and> (r < 1024 \<or> j = 4) \<and> (1572864::int) = r * 1024 ^ j"
    then obtain j :: nat and r :: int where j: "1 \<le> j" "j \<le> 4" and r: "0 < r" "r < 1024 \<or> j = 4"
      and e: "1572864 = r * 1024 ^ j" by blast
    from j have "j = 1 \<or> j = 2 \<or> j = 3 \<or> j = 4" by arith
    then show False
    proof (elim disjE)
      assume "j = 1"
      then show False using r e by simp
    next
      assume "j = 2"
      then show False using r e by simp presburger
    next
      assume "j = 3"
      then show False using r e by simp
    next
      assume "j = 4"
      then show False using r e by simp
    qed
  qed
  note t = nice_1024_presents[of 3 5 False "[]" "Some ''loc_''" "''msg_size''" 1572864]
  from t a
  have "nice_1024 False [] (Some ''loc_'') ''msg_size'' (5 * 1024 ^ 3) =
        and_then (commify False (Some (lld 5))) (\<lambda>data.
        and_then (commify False (Some (lld (5 * 1024 ^ 3)))) (\<lambda>altn.
        and_then (place_any [] (Some ''loc_'') ''msg_size'' (Some (nice_tab ! (3 - 1))) data altn)
          (\<lambda>table. Inr (True, table))))"
    by blast
  then have p: "nice_1024 False [] (Some ''loc_'') ''msg_size'' (5 * 1024 ^ 3) =
     Inr (True, [\<lparr>show_pref = Some ''loc_'', show_name = ''msg_size'', show_data = Some ''5'',
                   show_unit = Some ''GiB'', show_altn = Some ''5,368,709,120''\<rparr>])"
    by (simp add: l5 c5 lv cv nice_tab_def place_any_def)
  from t ne have o: "nice_1024 False [] (Some ''loc_'') ''msg_size'' 1572864 = Inr (False, [])"
    by blast
  show ?thesis using a p ne o by blast
qed

section \<open>Tick counters: properties\<close>

lemma isdigit_not_sep: "isdigit c \<Longrightarrow> c \<noteq> CHR '' '' \<and> c \<noteq> CHR 0x0A"
  by (auto simp add: isdigit_def)

lemma sep_not_digit: "\<not> isdigit (CHR '' '')" "\<not> isdigit (CHR 0x0A)"
  by (simp_all add: isdigit_def)

lemma starts_sep_tail: "starts_sep (stat_fields fs @ CHR 0x0A # rest)"
  by (cases fs) (auto simp add: starts_sep_def stat_fields_def deref_def)

lemma skip_spaces:
  assumes "number ds"
  shows "dropWhile (\<lambda>c. c = CHR '' '') (replicate k (CHR '' '') @ ds @ t) = ds @ t"
proof -
  obtain d ds' where ds: "ds = d # ds'" and d: "isdigit d"
    using assms by (cases ds) (auto simp add: number_def)
  have "d \<noteq> CHR '' ''" using d isdigit_not_sep by blast
  then show ?thesis unfolding ds by (induction k) simp_all
qed

lemma take_digits:
  assumes "number ds" "starts_sep t"
  shows "takeWhile isdigit (ds @ t) = ds"
proof -
  have a: "\<forall>c\<in>set ds. isdigit c" using assms(1) by (simp add: number_def list_all_iff)
  have "takeWhile isdigit t = []"
    using assms(2) sep_not_digit by (cases t) (auto simp add: starts_sep_def deref_def isdigit_def)
  then show ?thesis using a by simp
qed

lemma skip_digits:
  assumes "number ds" "starts_sep t" "t \<noteq> []"
  shows "dropWhile (\<lambda>c. c \<noteq> CHR '' '' \<and> c \<noteq> CHR 0x0A) (ds @ t) = t"
proof -
  have a: "\<forall>c\<in>set ds. c \<noteq> CHR '' '' \<and> c \<noteq> CHR 0x0A"
    using assms(1) isdigit_not_sep by (auto simp add: number_def list_all_iff)
  have "dropWhile (\<lambda>c. c \<noteq> CHR '' '' \<and> c \<noteq> CHR 0x0A) t = t"
    using assms(2,3) by (cases t) (auto simp add: starts_sep_def deref_def)
  then show ?thesis using a by simp
qed

lemma zero_rest_done: "tn \<le> n \<Longrightarrow> zero_rest tn n timex = timex"
  by (simp add: zero_rest.simps)

lemma zero_rest_last: "Suc n = tn \<Longrightarrow> zero_rest tn n timex = timex[n := 0]"
  by (simp add: zero_rest.simps[of tn n] zero_rest_done)

lemma get_times_loop_done: "tn \<le> n \<Longrightarrow> get_times_loop tn n p timex = Inr (n, timex)"
  by (simp add: get_times_loop.simps)

lemma get_times_loop_fields:
  assumes "list_all (\<lambda>(sp, ds). number ds) fs"
  shows "n < tn \<Longrightarrow> length timex = tn \<Longrightarrow>
    get_times_loop tn n (stat_fields fs @ CHR 0x0A # rest) timex =
      (if tn \<le> n + length fs
       then Inr (tn, take n timex @ map (\<lambda>(sp, ds). strtoll ds) (take (tn - n) fs))
       else if Suc (n + length fs) = tn
       then Inr (n + length fs, take n timex @ map (\<lambda>(sp, ds). strtoll ds) fs @ drop (n + length fs) timex)
       else Inl (ErrorDie ''/proc/stat has bad format''))"
  using assms
proof (induction fs arbitrary: n timex)
  case Nil
  have "deref (CHR 0x0A # rest) = CHR 0x0A" by (simp add: deref_def)
  then show ?case
    using Nil.prems(1) sep_not_digit(2)
    by (auto simp add: get_times_loop.simps[of tn n] stat_fields_def)
next
  case (Cons f fs)
  obtain sp ds where f: "f = (sp, ds)" by (cases f)
  have num: "number ds" and rest_ok: "list_all (\<lambda>(sp, ds). number ds) fs"
    using Cons.prems(3) by (simp_all add: f)
  let ?t = "stat_fields fs @ CHR 0x0A # rest"
  have sf: "stat_fields (f # fs) @ CHR 0x0A # rest = replicate (Suc sp) (CHR '' '') @ ds @ ?t"
    by (simp add: stat_fields_def f)
  have p1: "dropWhile (\<lambda>c. c = CHR '' '') (stat_fields (f # fs) @ CHR 0x0A # rest) = ds @ ?t"
    unfolding sf by (rule skip_spaces[OF num])
  obtain d ds' where ds: "ds = d # ds'" and d: "isdigit d"
    using num by (cases ds) (auto simp add: number_def)
  have dig: "isdigit (deref (ds @ ?t))" using d by (simp add: ds deref_def)
  have "takeWhile isdigit ds = ds"
    using num by (simp add: number_def list_all_iff)
  then have tw: "strtoll (ds @ ?t) = strtoll ds"
    using take_digits[OF num starts_sep_tail, of fs rest]
    by (simp only: strtoll_def)
  have p2: "dropWhile (\<lambda>c. c \<noteq> CHR '' '' \<and> c \<noteq> CHR 0x0A) (ds @ ?t) = ?t"
    by (rule skip_digits[OF num starts_sep_tail]) simp
  have step: "get_times_loop tn n (stat_fields (f # fs) @ CHR 0x0A # rest) timex
      = get_times_loop tn (Suc n) ?t (timex[n := strtoll ds])"
    using Cons.prems(1) dig
    by (subst get_times_loop.simps) (simp add: p1 p2 tw Let_def)
  have tk: "take (Suc n) (timex[n := strtoll ds]) = take n timex @ [strtoll ds]"
    using Cons.prems(1,2) by (simp add: take_Suc_conv_app_nth)
  show ?case
  proof (cases "Suc n < tn")
    case True
    have "get_times_loop tn (Suc n) ?t (timex[n := strtoll ds]) =
      (if tn \<le> Suc n + length fs
       then Inr (tn, take (Suc n) (timex[n := strtoll ds]) @ map (\<lambda>(sp, ds). strtoll ds) (take (tn - Suc n) fs))
       else if Suc (Suc n + length fs) = tn
       then Inr (Suc n + length fs, take (Suc n) (timex[n := strtoll ds]) @ map (\<lambda>(sp, ds). strtoll ds) fs
                   @ drop (Suc n + length fs) (timex[n := strtoll ds]))
       else Inl (ErrorDie ''/proc/stat has bad format''))"
      using Cons.IH[OF True _ rest_ok, of "timex[n := strtoll ds]"] Cons.prems(2) by simp
    moreover have "take (tn - n) (f # fs) = f # take (tn - Suc n) fs"
    proof -
      have "tn - n = Suc (tn - Suc n)" using Cons.prems(1) by simp
      then show ?thesis by simp
    qed
    ultimately show ?thesis
      unfolding step tk using True by (simp add: f)
  next
    case False
    then have e: "tn = Suc n" using Cons.prems(1) by simp
    have "take (Suc n) (timex[n := strtoll ds]) = timex[n := strtoll ds]"
      using e Cons.prems(2) by simp
    then have "timex[n := strtoll ds] = take n timex @ [strtoll ds]"
      using tk by simp
    then show ?thesis
      unfolding step using e by (simp add: get_times_loop_done f)
  qed
qed

text \<open>
  C9, as the claim states it, fails: with \<open>T_N = 9\<close> a line of four fields (the line of
  a kernel that reports user, nice, system and idle only) makes \<open>get_times\<close> die with
  "/proc/stat has bad format".  The test \<open>n < T_N-1\<close> lets the loop end at a newline
  only in the place of the last field.
\<close>

theorem get_times_counterexample:
  "get_times T_N 77 (stat_line [(1, ''10''), (0, ''20''), (0, ''30''), (0, ''40'')]) (replicate T_N 0)
     = Inl (ErrorDie ''/proc/stat has bad format'')"
  by (simp add: T_N_def get_times_def stat_line_def stat_fields_def get_times_loop.simps
      isdigit_def deref_def strtoll_def digits_val_def digit_val_def)

text \<open>
  C9, amended: for every first line of \<open>/proc/stat\<close> that is \<open>cpu\<close> followed by one or
  more non-negative integers, each behind one or more spaces, and a newline,
  \<open>get_times\<close> puts the clock of \<open>times\<close> into slot 0 and the first \<open>T_N-1\<close> integers
  into the slots from 1 on; when exactly the last field is absent (\<open>T_N-2\<close> integers)
  it fills the last slot with zero; when more fields are absent it dies with
  "/proc/stat has bad format".
\<close>

theorem get_times_fields:
  assumes "fs \<noteq> []" "list_all (\<lambda>(sp, ds). number ds) fs" "length timex = tn" "0 < tn"
  shows "get_times tn clock (stat_line fs @ rest) timex =
      (if tn \<le> 1 + length fs
       then Inr (clock # map (\<lambda>(sp, ds). strtoll ds) (take (tn - 1) fs))
       else if 2 + length fs = tn
       then Inr (clock # map (\<lambda>(sp, ds). strtoll ds) fs @ [0])
       else Inl (ErrorDie ''/proc/stat has bad format''))"
proof -
  obtain f fs' where fs: "fs = f # fs'" using assms(1) by (cases fs) auto
  obtain sp ds where f: "f = (sp, ds)" by (cases f)
  have pre: "take 4 (stat_line fs @ rest) = ''cpu ''"
    by (simp add: stat_line_def stat_fields_def fs f)
  have dr: "drop 3 (stat_line fs @ rest) = stat_fields fs @ CHR 0x0A # rest"
    by (simp add: stat_line_def)
  let ?t0 = "timex[0 := clock]"
  have l0: "length ?t0 = tn" using assms(3) by simp
  have t1: "take 1 ?t0 = [clock]" using assms(3,4) by (cases timex) simp_all
  have gt: "get_times tn clock (stat_line fs @ rest) timex
      = and_then (get_times_loop tn 1 (stat_fields fs @ CHR 0x0A # rest) ?t0)
          (\<lambda>(n, timex). Inr (zero_rest tn n timex))"
    unfolding get_times_def Let_def pre dr by simp
  show ?thesis
  proof (cases "1 < tn")
    case False
    then have tn: "tn = 1" using assms(4) by simp
    then have "?t0 = [clock]" using t1 l0 by (metis take_all_iff order_refl)
    then show ?thesis
      unfolding gt using tn by (simp add: get_times_loop_done zero_rest_done)
  next
    case True
    note loop = get_times_loop_fields[OF assms(2) True l0, of rest]
    show ?thesis
    proof (cases "tn \<le> 1 + length fs")
      case a: True
      then show ?thesis
        unfolding gt using loop t1 by (simp add: zero_rest_done)
    next
      case b: False
      show ?thesis
      proof (cases "2 + length fs = tn")
        case c: True
        then have d: "drop (1 + length fs) ?t0 = [?t0 ! (1 + length fs)]"
          using l0 by (metis Cons_nth_drop_Suc drop_all add_2_eq_Suc lessI order_refl plus_1_eq_Suc)
        have "zero_rest tn (1 + length fs) (take 1 ?t0 @ map (\<lambda>(sp, ds). strtoll ds) fs @ drop (1 + length fs) ?t0)
            = (take 1 ?t0 @ map (\<lambda>(sp, ds). strtoll ds) fs @ drop (1 + length fs) ?t0)[1 + length fs := 0]"
          using c by (intro zero_rest_last) simp
        also have "\<dots> = clock # map (\<lambda>(sp, ds). strtoll ds) fs @ [0]"
          unfolding t1 d by (simp add: list_update_append)
        finally show ?thesis
          unfolding gt using loop b c by simp
      next
        case False
        then show ?thesis unfolding gt using loop b by simp
      qed
    qed
  qed
qed


theorem get_times_fields_witness:
  "[(1, ''10''), (0, ''20''), (0, ''30''), (0, ''40''), (0, ''50''), (0, ''60''), (0, ''70'')] \<noteq> [] \<and>
   list_all (\<lambda>(sp, ds). number ds)
     [(1::nat, ''10''), (0, ''20''), (0, ''30''), (0, ''40''), (0, ''50''), (0, ''60''), (0, ''70'')] \<and>
   length (replicate 9 (-1::int)) = 9 \<and> (0::nat) < 9 \<and>
   get_times 9 77
     (stat_line [(1, ''10''), (0, ''20''), (0, ''30''), (0, ''40''), (0, ''50''), (0, ''60''), (0, ''70'')]
        @ ''cpu0 1 2 3'')
     (replicate 9 (-1))
     = Inr [77, 10, 20, 30, 40, 50, 60, 70, 0]"
proof -
  let ?fs = "[(1::nat, ''10''), (0, ''20''), (0, ''30''), (0, ''40''), (0, ''50''), (0, ''60''), (0, ''70'')]"
  have a: "?fs \<noteq> []" by simp
  have b: "list_all (\<lambda>(sp, ds). number ds) ?fs" by (simp add: number_def isdigit_def)
  have c: "length (replicate 9 (-1::int)) = 9" "(0::nat) < 9" by simp_all
  have v: "map (\<lambda>(sp, ds). strtoll ds) ?fs = [10, 20, 30, 40, 50, 60, 70]"
    by (simp add: strtoll_def digits_val_def digit_val_def isdigit_def)
  from get_times_fields[OF a b c, of 77 "''cpu0 1 2 3''"] a b c show ?thesis
    by (simp only: v) simp
qed



section \<open>Arguments of options: properties\<close>

lemma size_suffix_cases:
  assumes "size_suffix suf = Some m"
  shows "(suf, m) \<in> set [(''k'', 10 ^ 3), (''kb'', 10 ^ 3), (''m'', 10 ^ 6), (''mb'', 10 ^ 6),
      (''g'', 10 ^ 9), (''gb'', 10 ^ 9),
      (''K'', 1024), (''kib'', 1024), (''M'', 1024 ^ 2), (''mib'', 1024 ^ 2),
      (''G'', 1024 ^ 3), (''gib'', 1024 ^ 3)]"
  using assms unfolding size_suffix_def by (rule map_of_SomeD)

lemma suffix_head:
  assumes "suf = [] \<or> size_suffix suf \<noteq> None"
  shows "deref suf \<in> set [CHR 0x00, CHR ''k'', CHR ''m'', CHR ''g'', CHR ''K'', CHR ''M'', CHR ''G'']"
proof (cases "suf = []")
  case True
  then show ?thesis by (simp add: deref_def)
next
  case False
  then obtain m where "size_suffix suf = Some m" using assms by auto
  from size_suffix_cases[OF this] show ?thesis by (auto simp add: deref_def)
qed

lemma deref_append: "xs \<noteq> [] \<Longrightarrow> deref (xs @ ys) = deref xs"
  by (cases xs) (simp_all add: deref_def)

lemma number_head: "number ds \<Longrightarrow> isdigit (deref ds)"
  by (cases ds) (simp_all add: number_def deref_def)

lemma span_digits:
  assumes "list_all isdigit ds" "\<not> isdigit (deref t)"
  shows "takeWhile isdigit (ds @ t) = ds" "dropWhile isdigit (ds @ t) = t"
proof -
  have a: "\<forall>c\<in>set ds. isdigit c" using assms(1) by (simp add: list_all_iff)
  have b: "takeWhile isdigit t = []" "dropWhile isdigit t = t"
    using assms(2) by (cases t; simp add: deref_def)+
  show "takeWhile isdigit (ds @ t) = ds" using a b by simp
  show "dropWhile isdigit (ds @ t) = t" using a b by simp
qed

lemma exponent_suffix:
  assumes "suf = [] \<or> size_suffix suf \<noteq> None"
  shows "exponent suf = (0, suf)"
  using suffix_head[OF assms] by (auto simp add: exponent_def)

lemma decimal_token:
  assumes ip: "number ip" and fp: "list_all isdigit fp"
    and suf: "suf = [] \<or> size_suffix suf \<noteq> None"
  shows "decimal (size_token ip fp suf) = Some (token_value ip fp, suf)"
proof -
  have ipd: "list_all isdigit ip" and ipn: "ip \<noteq> []" using ip by (simp_all add: number_def)
  have sh: "\<not> isdigit (deref suf)" "deref suf \<noteq> CHR ''.''"
    using suffix_head[OF suf] by (auto simp add: isdigit_def)
  show ?thesis
  proof (cases "fp = []")
    case True
    have t: "size_token ip fp suf = ip @ suf" by (simp add: size_token_def True)
    show ?thesis
      unfolding decimal_def t
      using span_digits[OF ipd sh(1)] sh(2) ipn exponent_suffix[OF suf]
      by (simp add: Let_def True token_value_def)
  next
    case False
    let ?r = "CHR ''.'' # fp @ suf"
    have t: "size_token ip fp suf = ip @ ?r" by (simp add: size_token_def False)
    have nd: "\<not> isdigit (deref ?r)" by (simp add: deref_def isdigit_def)
    have d: "deref ?r = CHR ''.''" by (simp add: deref_def)
    show ?thesis
      unfolding decimal_def t
      using span_digits[OF ipd nd] span_digits[OF fp sh(1)] d ipn exponent_suffix[OF suf]
      by (simp add: Let_def token_value_def)
  qed
qed

lemma token_head:
  assumes "number ip"
  shows "isdigit (deref (size_token ip fp suf))"
  using assms number_head[OF assms] by (simp add: size_token_def deref_append number_def)

lemma digit_plain:
  assumes "isdigit c"
  shows "\<not> isspace c" "c \<noteq> CHR ''-''" "c \<noteq> CHR ''+''" "c \<notin> set ''iInN''" "c \<noteq> CHR ''x''" "c \<noteq> CHR ''X''"
  using assms by (auto simp add: isdigit_def isspace_def)

lemma not_special_token:
  assumes ip: "number ip" and fp: "list_all isdigit fp"
    and suf: "suf = [] \<or> size_suffix suf \<noteq> None"
  shows "\<not> special (size_token ip fp suf)"
proof -
  obtain d ip' where i: "ip = d # ip'" and d: "isdigit d" and ip': "list_all isdigit ip'"
    using ip by (cases ip) (auto simp add: number_def)
  have h: "deref (size_token ip fp suf) \<notin> set ''iInN''"
    using token_head[OF ip, of fp suf] digit_plain(4) by blast
  have x: "take 2 (size_token ip fp suf) \<notin> set [''0x'', ''0X'']"
  proof (cases ip')
    case (Cons e es)
    then have "isdigit e" using ip' by simp
    then have "e \<noteq> CHR ''x''" "e \<noteq> CHR ''X''" using digit_plain by blast+
    then show ?thesis by (simp add: size_token_def i Cons)
  next
    case Nil
    show ?thesis
    proof (cases "fp = []")
      case False
      then show ?thesis by (simp add: size_token_def i Nil)
    next
      case True
      have "deref suf \<noteq> CHR ''x''" "deref suf \<noteq> CHR ''X''"
        using suffix_head[OF suf] by auto
      then show ?thesis
        by (cases suf) (simp_all add: size_token_def i Nil True deref_def)
    qed
  qed
  show ?thesis using h x by (simp add: special_def)
qed

lemma strtold_token:
  assumes ip: "number ip" and fp: "list_all isdigit fp"
    and suf: "suf = [] \<or> size_suffix suf \<noteq> None"
  shows "strtold rnd (size_token ip fp suf) = Some (rnd (token_value ip fp), suf)"
proof -
  let ?t = "size_token ip fp suf"
  obtain c cs where t: "?t = c # cs" and c: "isdigit c"
    using token_head[OF ip, of fp suf] by (cases ?t) (auto simp add: deref_def isdigit_def)
  have a: "dropWhile isspace ?t = ?t" using digit_plain(1)[OF c] by (simp add: t)
  have b: "sign ?t = (False, ?t)"
    using digit_plain(2,3)[OF c] by (simp add: sign_def t deref_def)
  show ?thesis
    unfolding strtold_def a b
    using not_special_token[OF assms] decimal_token[OF assms] by simp
qed

lemma to_long_floor:
  assumes "0 \<le> x" "\<lfloor>x\<rfloor> \<le> LONG_MAX"
  shows "to_long x = Inr \<lfloor>x\<rfloor>"
proof -
  have "0 \<le> \<lfloor>x\<rfloor>" using assms(1) by simp
  then have "LONG_MIN \<le> \<lfloor>x\<rfloor>" by (simp add: LONG_MIN_def)
  then show ?thesis using assms by (simp add: to_long_def)
qed

lemma arg_size_chain:
  assumes "strtold rnd tok = Some (d, p)" "0 \<le> d" "p \<noteq> []"
  shows "arg_size rnd (opt # tok # rest) =
      and_then
        (if p = ''kb'' \<or> p = ''k'' then to_long (rnd (d * 1000))
         else if p = ''mb'' \<or> p = ''m'' then to_long (rnd (d * (1000 * 1000)))
         else if p = ''gb'' \<or> p = ''g'' then to_long (rnd (d * (1000 * 1000 * 1000)))
         else if p = ''kib'' \<or> p = ''K'' then to_long (rnd (d * 1024))
         else if p = ''mib'' \<or> p = ''M'' then to_long (rnd (d * (1024 * 1024)))
         else if p = ''gib'' \<or> p = ''G'' then to_long (rnd (d * (1024 * 1024 * 1024)))
         else Inl (ErrorDie (''Bad argument: '' @ tok)))
        (\<lambda>l. Inr (l, rest))"
  using assms by (simp add: arg_size_def)

lemma arg_size_parsed:
  assumes "strtold rnd tok = Some (d, p)" "0 \<le> d" "p = [] \<and> m = 1 \<or> size_suffix p = Some m"
  shows "arg_size rnd (opt # tok # rest) =
           and_then (to_long (if p = [] then d else rnd (d * m))) (\<lambda>l. Inr (l, rest))"
proof (cases "p = []")
  case True
  then show ?thesis using assms(1,2) by (simp add: arg_size_def)
next
  case False
  note base = arg_size_chain[OF assms(1,2) False, of opt rest]
  have sm: "size_suffix p = Some m" using assms(3) False by simp
  have pm: "(p, m) \<in> set [(''k'', 10 ^ 3), (''kb'', 10 ^ 3), (''m'', 10 ^ 6), (''mb'', 10 ^ 6),
      (''g'', 10 ^ 9), (''gb'', 10 ^ 9),
      (''K'', 1024), (''kib'', 1024), (''M'', 1024 ^ 2), (''mib'', 1024 ^ 2),
      (''G'', 1024 ^ 3), (''gib'', 1024 ^ 3)]"
    using sm unfolding size_suffix_def by (rule map_of_SomeD)
  let ?chain = "\<lambda>s. (if s = ''kb'' \<or> s = ''k'' then to_long (rnd (d * 1000))
         else if s = ''mb'' \<or> s = ''m'' then to_long (rnd (d * (1000 * 1000)))
         else if s = ''gb'' \<or> s = ''g'' then to_long (rnd (d * (1000 * 1000 * 1000)))
         else if s = ''kib'' \<or> s = ''K'' then to_long (rnd (d * 1024))
         else if s = ''mib'' \<or> s = ''M'' then to_long (rnd (d * (1024 * 1024)))
         else if s = ''gib'' \<or> s = ''G'' then to_long (rnd (d * (1024 * 1024 * 1024)))
         else Inl (ErrorDie (''Bad argument: '' @ tok)))"
  { fix s :: string and v :: rat
    assume h: "p = s \<and> m = v" and e: "?chain s = to_long (rnd (d * v))"
    have "arg_size rnd (opt # tok # rest) = and_then (?chain p) (\<lambda>l. Inr (l, rest))"
      by (rule base)
    also have "?chain p = to_long (rnd (d * m))" using h e by blast
    finally have ?thesis using False by simp }
  note one = this
  from pm consider "p = ''k'' \<and> m = 10 ^ 3" | "p = ''kb'' \<and> m = 10 ^ 3"
    | "p = ''m'' \<and> m = 10 ^ 6" | "p = ''mb'' \<and> m = 10 ^ 6"
    | "p = ''g'' \<and> m = 10 ^ 9" | "p = ''gb'' \<and> m = 10 ^ 9"
    | "p = ''K'' \<and> m = 1024" | "p = ''kib'' \<and> m = 1024"
    | "p = ''M'' \<and> m = 1024 ^ 2" | "p = ''mib'' \<and> m = 1024 ^ 2"
    | "p = ''G'' \<and> m = 1024 ^ 3" | "p = ''gib'' \<and> m = 1024 ^ 3"
    unfolding set_simps insert_iff empty_iff prod.inject by argo
  then show ?thesis
  proof cases
    case 1 then show ?thesis by (rule one[of "''k''" "10 ^ 3"]) simp
  next
    case 2 then show ?thesis by (rule one[of "''kb''" "10 ^ 3"]) simp
  next
    case 3 then show ?thesis by (rule one[of "''m''" "10 ^ 6"]) simp
  next
    case 4 then show ?thesis by (rule one[of "''mb''" "10 ^ 6"]) simp
  next
    case 5 then show ?thesis by (rule one[of "''g''" "10 ^ 9"]) simp
  next
    case 6 then show ?thesis by (rule one[of "''gb''" "10 ^ 9"]) simp
  next
    case 7 then show ?thesis by (rule one[of "''K''" "1024"]) simp
  next
    case 8 then show ?thesis by (rule one[of "''kib''" "1024"]) simp
  next
    case 9 then show ?thesis by (rule one[of "''M''" "1024 ^ 2"]) simp
  next
    case 10 then show ?thesis by (rule one[of "''mib''" "1024 ^ 2"]) simp
  next
    case 11 then show ?thesis by (rule one[of "''G''" "1024 ^ 3"]) simp
  next
    case 12 then show ?thesis by (rule one[of "''gib''" "1024 ^ 3"]) simp
  qed
qed

lemma arg_size_token:
  assumes ip: "number ip" and fp: "list_all isdigit fp"
    and suf: "suf = [] \<and> m = 1 \<or> size_suffix suf = Some m"
    and pos: "0 \<le> rnd (token_value ip fp)"
  shows "arg_size rnd (opt # size_token ip fp suf # rest) =
           and_then (to_long (if suf = [] then rnd (token_value ip fp)
                              else rnd (rnd (token_value ip fp) * m)))
             (\<lambda>l. Inr (l, rest))"
proof -
  have s: "suf = [] \<or> size_suffix suf \<noteq> None" using suf by auto
  show ?thesis
    by (rule arg_size_parsed[OF strtold_token[OF ip fp s, of rnd] pos suf])
qed


lemma arg_size_example:
  assumes "number ip" "list_all isdigit fp" "size_suffix suf = Some m"
    and "rnd (token_value ip fp) = v" "rnd (v * m) = of_int l" "0 \<le> v" "0 \<le> l" "l \<le> LONG_MAX"
    and "size_token ip fp suf = tok"
  shows "arg_size rnd [opt, tok] = Inr (l, [])"
proof -
  have ne: "suf \<noteq> []" using assms(3) by (auto simp add: size_suffix_def)
  have "arg_size rnd (opt # size_token ip fp suf # []) =
           and_then (to_long (if suf = [] then rnd (token_value ip fp)
                              else rnd (rnd (token_value ip fp) * m)))
             (\<lambda>l. Inr (l, []))"
    using assms(1,2,3,4,6) by (intro arg_size_token) simp_all
  also have "\<dots> = and_then (to_long (of_int l)) (\<lambda>l. Inr (l, []))"
    using ne by (simp only: assms(4,5) if_False)
  also have "to_long (of_int l) = Inr l"
    using to_long_floor[of "of_int l"] assms(7,8) by simp
  finally show ?thesis by (simp add: assms(9))
qed

text \<open>
  C7: \<open>arg_size\<close> takes the token behind the option.  When the token is a number,
  written with digits and at most a point and digits behind it, followed by nothing or
  by one of the suffixes, \<open>strtold\<close> returns the number (rounded to a \<open>long double\<close>)
  and the suffix; the number is multiplied by \<open>10 ^ 3\<close>, \<open>10 ^ 6\<close>, \<open>10 ^ 9\<close> for \<open>k\<close>,
  \<open>m\<close>, \<open>g\<close> (and \<open>kb\<close>, \<open>mb\<close>, \<open>gb\<close>), by 1024, \<open>1024 ^ 2\<close>, \<open>1024 ^ 3\<close> for \<open>K\<close>,
  \<open>M\<close>, \<open>G\<close> (and \<open>kib\<close>, \<open>mib\<close>, \<open>gib\<close>), and by nothing without a suffix; the
  product, a \<open>long double\<close> again, is truncated to a \<open>long\<close>, which is its floor as it is
  not negative.  On a platform whose rounding leaves the numbers 1, 1.5 and the four
  results as they are (each has a short binary expansion), \<open>1k\<close> gives 1000, \<open>1K\<close>
  1024, \<open>1.5G\<close> 1610612736 and \<open>1gb\<close> 1000000000.
\<close>

theorem arg_size_parses:
  "(number ip \<and> list_all isdigit fp \<and> (suf = [] \<and> m = 1 \<or> size_suffix suf = Some m) \<and>
    0 \<le> rnd (token_value ip fp) \<and>
    x = (if suf = [] then rnd (token_value ip fp) else rnd (rnd (token_value ip fp) * m)) \<and>
    0 \<le> x \<and> \<lfloor>x\<rfloor> \<le> LONG_MAX
    \<longrightarrow> arg_size rnd (opt # size_token ip fp suf # rest) = Inr (\<lfloor>x\<rfloor>, rest)) \<and>
   (rnd 1 = 1 \<and> rnd (3 / 2) = 3 / 2 \<and> rnd 1000 = 1000 \<and> rnd 1024 = 1024 \<and>
    rnd 1610612736 = 1610612736 \<and> rnd 1000000000 = 1000000000 \<longrightarrow>
      arg_size rnd [opt, ''1k''] = Inr (1000, []) \<and>
      arg_size rnd [opt, ''1K''] = Inr (1024, []) \<and>
      arg_size rnd [opt, ''1.5G''] = Inr (1610612736, []) \<and>
      arg_size rnd [opt, ''1gb''] = Inr (1000000000, []))"
proof (intro conjI impI)
  assume a: "number ip \<and> list_all isdigit fp \<and> (suf = [] \<and> m = 1 \<or> size_suffix suf = Some m) \<and>
    0 \<le> rnd (token_value ip fp) \<and>
    x = (if suf = [] then rnd (token_value ip fp) else rnd (rnd (token_value ip fp) * m)) \<and>
    0 \<le> x \<and> \<lfloor>x\<rfloor> \<le> LONG_MAX"
  then have "arg_size rnd (opt # size_token ip fp suf # rest) = and_then (to_long x) (\<lambda>l. Inr (l, rest))"
    using arg_size_token[of ip fp suf m rnd opt rest] by simp
  moreover from a have "0 \<le> x" "\<lfloor>x\<rfloor> \<le> LONG_MAX" by blast+
  then have "to_long x = Inr \<lfloor>x\<rfloor>" by (rule to_long_floor)
  ultimately show "arg_size rnd (opt # size_token ip fp suf # rest) = Inr (\<lfloor>x\<rfloor>, rest)"
    by simp
next
  assume r: "rnd 1 = 1 \<and> rnd (3 / 2) = 3 / 2 \<and> rnd 1000 = 1000 \<and> rnd 1024 = 1024 \<and>
    rnd 1610612736 = 1610612736 \<and> rnd 1000000000 = 1000000000"
  then have r1: "rnd 1 = 1" and r15: "rnd (3 / 2) = 3 / 2" and rk: "rnd 1000 = 1000"
    and rK: "rnd 1024 = 1024" and rG: "rnd 1610612736 = 1610612736"
    and rg: "rnd 1000000000 = 1000000000"
    by blast+
  have n1: "number ''1''" by (simp add: number_def isdigit_def)
  have d5: "list_all isdigit ''5''" by (simp add: isdigit_def)
  have v1: "token_value ''1'' [] = 1" by (simp add: token_value_def digits_val_def digit_val_def)
  have v15: "token_value ''1'' ''5'' = 3 / 2" by (simp add: token_value_def digits_val_def digit_val_def)
  show "arg_size rnd [opt, ''1k''] = Inr (1000, [])"
  proof (rule arg_size_example[OF n1 _ _ _ _ _ _ _ _, where fp = "[]" and suf = "''k''" and m = "10 ^ 3" and v = 1])
    show "rnd (1 * 10 ^ 3) = of_int 1000" using rk by simp
    show "rnd (token_value ''1'' []) = 1" unfolding v1 by (rule r1)
  qed (simp_all add: size_suffix_def size_token_def LONG_MAX_def)
  show "arg_size rnd [opt, ''1K''] = Inr (1024, [])"
  proof (rule arg_size_example[OF n1 _ _ _ _ _ _ _ _, where fp = "[]" and suf = "''K''" and m = "1024" and v = 1])
    show "rnd (1 * 1024) = of_int 1024" using rK by simp
    show "rnd (token_value ''1'' []) = 1" unfolding v1 by (rule r1)
  qed (simp_all add: size_suffix_def size_token_def LONG_MAX_def)
  show "arg_size rnd [opt, ''1.5G''] = Inr (1610612736, [])"
  proof (rule arg_size_example[OF n1 d5 _ _ _ _ _ _ _, where suf = "''G''" and m = "1024 ^ 3" and v = "3 / 2"])
    have "(3 / 2 :: rat) * 1024 ^ 3 = 1610612736" by simp
    then show "rnd (3 / 2 * 1024 ^ 3) = of_int 1610612736" using rG by simp
    show "rnd (token_value ''1'' ''5'') = 3 / 2" unfolding v15 by (rule r15)
  qed (simp_all add: size_suffix_def size_token_def LONG_MAX_def)
  show "arg_size rnd [opt, ''1gb''] = Inr (1000000000, [])"
  proof (rule arg_size_example[OF n1 _ _ _ _ _ _ _ _, where fp = "[]" and suf = "''gb''" and m = "10 ^ 9" and v = 1])
    show "rnd (1 * 10 ^ 9) = of_int 1000000000" using rg by simp
    show "rnd (token_value ''1'' []) = 1" unfolding v1 by (rule r1)
  qed (simp_all add: size_suffix_def size_token_def LONG_MAX_def)
qed

theorem arg_size_parses_witness:
  "number ''0'' \<and> list_all isdigit ''25'' \<and> size_suffix ''mib'' = Some (1024 ^ 2) \<and>
   (0::rat) \<le> token_value ''0'' ''25'' \<and> (0::rat) \<le> token_value ''0'' ''25'' * 1024 ^ 2 \<and>
   \<lfloor>token_value ''0'' ''25'' * 1024 ^ 2\<rfloor> \<le> LONG_MAX \<and>
   arg_size (\<lambda>x. x) [''--msg_size'', ''0.25mib'', ''tcp_bw''] = Inr (262144, [''tcp_bw'']) \<and>
   arg_size (\<lambda>x. x) [''-m'', ''1.5G''] = Inr (1610612736, [])"
proof -
  have a: "number ''0''" "list_all isdigit ''25''" "size_suffix ''mib'' = Some (1024 ^ 2)"
    by (simp_all add: number_def isdigit_def size_suffix_def)
  have v: "token_value ''0'' ''25'' = 1 / 4"
    by (simp add: token_value_def digits_val_def digit_val_def)
  have b: "(0::rat) \<le> token_value ''0'' ''25''" "(0::rat) \<le> token_value ''0'' ''25'' * 1024 ^ 2"
    "\<lfloor>token_value ''0'' ''25'' * 1024 ^ 2\<rfloor> \<le> LONG_MAX"
    by (simp_all add: v LONG_MAX_def)
  have t: "size_token ''0'' ''25'' ''mib'' = ''0.25mib''" by (simp add: size_token_def)
  note w = arg_size_parses[where rnd = "\<lambda>x. x" and ip = "''0''" and fp = "''25''" and suf = "''mib''"
      and m = "1024 ^ 2" and x = "token_value ''0'' ''25'' * 1024 ^ 2"
      and opt = "''--msg_size''" and rest = "[''tcp_bw'']"]
  have "arg_size (\<lambda>x. x) [''--msg_size'', ''0.25mib'', ''tcp_bw''] = Inr (262144, [''tcp_bw''])"
    using w a b by (simp add: t v)
  moreover have "arg_size (\<lambda>x. x) [''-m'', ''1.5G''] = Inr (1610612736, [])"
    using arg_size_parses[where rnd = "\<lambda>x. x" and opt = "''-m''"] by blast
  ultimately show ?thesis using a b by simp
qed



section \<open>The command line: properties\<close>

lemma set_both_u32_keeps:
  "set_both_u32 option l g = Inr g' \<Longrightarrow> ExitStatus g' = ExitStatus g \<and> Ran g' = Ran g"
  by (cases option) (auto simp add: set_both_u32_def dest!: and_then_InrD)

lemma opt_misc_keeps:
  assumes "opt_misc e option argv g = Inr (g', rest)"
  shows "ExitStatus g' = ExitStatus g \<and> Ran g' = Ran g"
proof -
  obtain name sv func arg1 arg2 where o: "option = (name, sv, func, arg1, arg2)"
    by (cases option)
  from assms show ?thesis
    unfolding opt_misc_def o prod.case Let_def
    by (auto split: if_splits dest!: and_then_InrD)
qed

lemma call_option_keeps:
  assumes "call_option e option argv g = Inr (g', rest)"
  shows "ExitStatus g' = ExitStatus g \<and> Ran g' = Ran g"
proof -
  obtain name sv func arg1 arg2 where o: "option = (name, sv, func, arg1, arg2)"
    by (cases option)
  show ?thesis
  proof (cases func)
    case Opt_help
    then show ?thesis using assms by (simp add: call_option_def o opt_help_def Let_def split: if_splits)
  next
    case Opt_misc
    then show ?thesis using assms opt_misc_keeps by (simp add: call_option_def o)
  next
    case Opt_strn
    then show ?thesis using assms
      by (auto simp add: call_option_def o opt_strn_def dest!: and_then_InrD)
  next
    case Opt_long
    then show ?thesis using assms
      by (auto simp add: call_option_def o opt_long_def dest!: and_then_InrD dest: set_both_u32_keeps)
  next
    case Opt_size
    then show ?thesis using assms
      by (auto simp add: call_option_def o opt_size_def dest!: and_then_InrD dest: set_both_u32_keeps)
  next
    case Opt_time
    then show ?thesis using assms
      by (auto simp add: call_option_def o opt_time_def dest!: and_then_InrD dest: set_both_u32_keeps)
  next
    case Opt_vers
    then show ?thesis using assms by (simp add: call_option_def o opt_vers_def)
  qed
qed

lemma client_inv:
  assumes "client r p g = Inr g'" "status_inv ts g"
  shows "status_inv True g'"
  using assms
  by (auto simp add: client_def status_inv_def dest!: and_then_InrD split: if_splits test_body.splits)

lemma do_args_loop_inv:
  "do_args_loop e runs ic ts g args = Inr (ic', ts', g') \<Longrightarrow> status_inv ts g \<Longrightarrow> status_inv ts' g'"
proof (induction e runs ic ts g args rule: do_args_loop.induct)
  case (1 e runs isClient testSpecified g)
  then show ?case by (simp add: do_args_loop.simps)
next
  case (2 e runs isClient testSpecified g arg args)
  show ?case
  proof (cases "deref arg = CHR ''-''")
    case True
    with "2.prems"(1) obtain option g1 args1 where
      f: "find_option arg = Some option" and
      c: "call_option e option (arg # args) g = Inr (g1, args1)" and
      l: "do_args_loop e runs (isClient \<or> \<not> fst (snd option)) testSpecified g1 args1 = Inr (ic', ts', g')"
      by (auto simp add: do_args_loop.simps split: option.splits sum.splits)
    have "status_inv testSpecified g1"
      using call_option_keeps[OF c] "2.prems"(2) by (simp add: status_inv_def)
    then show ?thesis using "2.IH"(1)[OF True f c refl l] by simp
  next
    case False
    show ?thesis
    proof (cases "ServerName g = None")
      case True
      with False "2.prems"(1) have
        l: "do_args_loop e runs True testSpecified (g\<lparr>ServerName := Some arg\<rparr>) args = Inr (ic', ts', g')"
        by (simp add: do_args_loop.simps)
      have "status_inv testSpecified (g\<lparr>ServerName := Some arg\<rparr>)"
        using "2.prems"(2) by (simp add: status_inv_def)
      then show ?thesis using "2.IH"(2)[OF False True l] by simp
    next
      case sn: False
      with False "2.prems"(1) obtain p r runs' g1 where
        f: "find_test e arg = Some p" and rs: "runs = r # runs'" and
        c: "client r p g = Inr g1" and
        l: "do_args_loop e runs' True True g1 args = Inr (ic', ts', g')"
        by (auto simp add: do_args_loop.simps split: option.splits sum.splits list.splits)
      have "status_inv True g1" using client_inv[OF c "2.prems"(2)] .
      then show ?thesis using "2.IH"(3)[OF False sn f rs c l] by simp
    qed
  qed
qed

text \<open>
  C5, amended: on every command line that \<open>do_args\<close> reads to its end (no fatal error,
  no test that leaves the process on its own) with a test run, \<open>main\<close> returns 0 when
  every test returned with \<open>Successful\<close> set and 1 otherwise.  \<open>client\<close> sets
  \<open>ExitStatus\<close> to 1 behind an unsuccessful test and nothing sets it back to 0.
\<close>

theorem main_exit_status:
  "main e runs argv = Inr (status, flags) \<longrightarrow>
     flags \<noteq> [] \<and> status = (if list_all (\<lambda>b. b) flags then 0 else 1) \<and>
     exit_status (main e runs argv) = Some status"
proof
  assume m: "main e runs argv = Inr (status, flags)"
  then obtain g where d: "do_args e runs initial (tl argv) = Inr g"
    and s: "status = ExitStatus g" and f: "flags = Ran g"
    by (auto simp add: main_def split: if_splits dest!: and_then_InrD)
  from d obtain ic ts where l: "do_args_loop e runs False False initial (tl argv) = Inr (ic, ts, g)"
    and ts: "ts"
    by (auto simp add: do_args_def split: if_splits option.splits dest!: and_then_InrD)
  have "status_inv False initial" by (simp add: status_inv_def initial_def)
  from do_args_loop_inv[OF l this] ts
  have "Ran g \<noteq> []" "ExitStatus g = (if list_all (\<lambda>b. b) (Ran g) then 0 else 1)"
    by (simp_all add: status_inv_def)
  then show "flags \<noteq> [] \<and> status = (if list_all (\<lambda>b. b) flags then 0 else 1) \<and>
     exit_status (main e runs argv) = Some status"
    using s f m by (simp add: exit_status_def)
qed

theorem main_exit_status_witness:
  "main example_env [run_ok, run_ok] [''qperf'', ''host'', ''tcp_bw'', ''tcp_lat'']
     = Inr (0, [True, True]) \<and>
   [True, True] \<noteq> [] \<and> (0::int) = (if list_all (\<lambda>b. b) [True, True] then 0 else 1) \<and>
   exit_status (main example_env [run_ok, run_ok] [''qperf'', ''host'', ''tcp_bw'', ''tcp_lat'']) = Some 0"
proof -
  have m: "main example_env [run_ok, run_ok] [''qperf'', ''host'', ''tcp_bw'', ''tcp_lat'']
     = Inr (0, [True, True])"
    by code_simp
  from main_exit_status[of example_env "[run_ok, run_ok]"
      "[''qperf'', ''host'', ''tcp_bw'', ''tcp_lat'']" 0 "[True, True]"] m
  show ?thesis by blast
qed

text \<open>
  C5, as the claim states it, fails: in \<open>qperf host tcp_bw tcp_lat\<close>, when \<open>tcp_bw\<close>
  returns with \<open>Successful\<close> clear and \<open>tcp_lat\<close>, the last test, with \<open>Successful\<close>
  set, the exit status is 1.
\<close>

theorem main_exit_status_counterexample:
  "main example_env [run_failed, run_ok] [''qperf'', ''host'', ''tcp_bw'', ''tcp_lat'']
     = Inr (1, [False, True])"
  by code_simp


end
